(* ===== verification/AirSane_Prelude.thy ===== *)
theory AirSane_Prelude
  imports Main "HOL-Library.Word" "HOL-Library.Sublist" "HOL-Library.Code_Target_Numeral" "HOL-Library.Multiset"
begin

text \<open>
  Prelude of the development: what the C++ sources use of the language and of its standard library,
  shared by every component theory.

  \<^item> \<open>std::string\<close> is a \<open>string\<close> (a list of bytes): \<open>find\<close>, \<open>rfind\<close>, \<open>substr\<close>, with
    \<open>npos\<close> as \<open>None\<close> and the exception \<open>std::out_of_range\<close> as an error value;
  \<^item> the classification \<open>isspace\<close> and the mapping \<open>tolower\<close> of the C locale;
  \<^item> \<open>std::getline\<close> and the word extraction of \<open>operator>>\<close> on an input stream;
  \<^item> decimal and hexadecimal output of integers;
  \<^item> generic lemmas on these, declared \<open>[simp]\<close> or into the collections below.
\<close>

named_theorems str_simps \<open>rewriting rules for the string functions\<close>
named_theorems inv_intros \<open>preservation of component invariants\<close>

subsection \<open>Exceptions\<close>

text \<open>
  The exceptions and undefined behaviours the sources can run into. \<open>Inl\<close> carries one of them,
  \<open>Inr\<close> is a normal return.
\<close>

datatype cpp_error =
    OutOfRange              \<comment> \<open>\<open>std::out_of_range\<close>\<close>
  | RuntimeError string     \<comment> \<open>\<open>std::runtime_error\<close> with its message\<close>
  | Uninitialized           \<comment> \<open>an indeterminate value is read\<close>
  | NullDeref               \<comment> \<open>a null pointer is dereferenced\<close>
  | ConversionUB            \<comment> \<open>a floating point value out of the range of the integer type\<close>
  | AssertFailure           \<comment> \<open>an \<open>assert\<close> that does not hold\<close>
  | OverflowUB              \<comment> \<open>signed overflow, a shift by too much, or a division by zero\<close>
  | MemoryUB                \<comment> \<open>an access outside of an object\<close>
  | LengthError             \<comment> \<open>\<open>std::length_error\<close>\<close>

type_synonym 'a result = "cpp_error + 'a"

definition bind_result :: "'a result \<Rightarrow> ('a \<Rightarrow> 'b result) \<Rightarrow> 'b result" where
  "bind_result r f = (case r of Inl e \<Rightarrow> Inl e | Inr x \<Rightarrow> f x)"

lemma bind_result_simps [simp]:
  "bind_result (Inl e) f = Inl e"
  "bind_result (Inr x) f = f x"
  by (simp_all add: bind_result_def)

lemma bind_result_Inr_iff:
  "bind_result r f = Inr y \<longleftrightarrow> (\<exists>x. r = Inr x \<and> f x = Inr y)"
  by (cases r) simp_all

text \<open>The same for computations that may not return.\<close>

lemma bind_case_sum_iff:
  "Option.bind x (case_sum (\<lambda>e. Some (Inl e)) f) = Some (Inr z) \<longleftrightarrow> (\<exists>y. x = Some (Inr y) \<and> f y = Some (Inr z))"
  by (cases x; cases "the x") auto

subsection \<open>Characters that have no literal\<close>

abbreviation chr_tab :: char where "chr_tab \<equiv> CHR 0x09"
abbreviation chr_nl :: char where "chr_nl \<equiv> CHR 0x0A"
abbreviation chr_vt :: char where "chr_vt \<equiv> CHR 0x0B"
abbreviation chr_ff :: char where "chr_ff \<equiv> CHR 0x0C"
abbreviation chr_cr :: char where "chr_cr \<equiv> CHR 0x0D"
abbreviation chr_bs :: char where "chr_bs \<equiv> CHR 0x08"
abbreviation chr_dquote :: char where "chr_dquote \<equiv> CHR 0x22"
abbreviation chr_squote :: char where "chr_squote \<equiv> CHR 0x27"
abbreviation chr_backslash :: char where "chr_backslash \<equiv> CHR 0x5C"

definition crlf :: string where "crlf = [chr_cr, chr_nl]"
definition nl :: string where "nl = [chr_nl]"
definition squote :: string where "squote = [chr_squote]"
definition dquote :: string where "dquote = [chr_dquote]"

subsection \<open>The C locale\<close>

text \<open>\<open>std::isspace\<close> in the C locale: space, \<open>\t\<close>, \<open>\n\<close>, \<open>\v\<close>, \<open>\f\<close>, \<open>\r\<close>.\<close>

definition is_space :: "char \<Rightarrow> bool" where
  "is_space c \<longleftrightarrow> c \<in> {CHR '' '', chr_tab, chr_nl, chr_vt, chr_ff, chr_cr}"

lemma is_space_code: "is_space c \<longleftrightarrow> (of_char c :: nat) \<in> {32, 9, 10, 11, 12, 13}"
proof -
  have "c = k \<longleftrightarrow> (of_char c :: nat) = of_char k" for k by simp
  from this[of "CHR '' ''"] this[of chr_tab] this[of chr_nl] this[of chr_vt] this[of chr_ff]
    this[of chr_cr]
  show ?thesis by (simp add: is_space_def)
qed

text \<open>\<open>std::tolower\<close> in the C locale moves the ASCII capitals only.\<close>

definition to_lower :: "char \<Rightarrow> char" where
  "to_lower c = (if 65 \<le> (of_char c :: nat) \<and> (of_char c :: nat) \<le> 90
                 then char_of ((of_char c :: nat) + 32) else c)"

lemma of_char_to_lower:
  "(of_char (to_lower c) :: nat) =
     (if 65 \<le> (of_char c :: nat) \<and> (of_char c :: nat) \<le> 90 then of_char c + 32 else of_char c)"
  by (simp add: to_lower_def)

lemma to_lower_idem [simp]: "to_lower (to_lower c) = to_lower c"
proof -
  have "(of_char (to_lower (to_lower c)) :: nat) = of_char (to_lower c)"
    by (simp add: of_char_to_lower)
  then show ?thesis by (simp only: of_char_eq_iff)
qed

subsection \<open>Searching and cutting strings\<close>

text \<open>\<open>s.find(p)\<close>: the first position at which \<open>p\<close> occurs.\<close>

fun find_str :: "string \<Rightarrow> string \<Rightarrow> nat option" where
  "find_str p [] = (if p = [] then Some 0 else None)"
| "find_str p (c # cs) =
     (if prefix p (c # cs) then Some 0 else map_option Suc (find_str p cs))"

text \<open>\<open>s.find(p, pos)\<close>.\<close>

definition find_from :: "string \<Rightarrow> string \<Rightarrow> nat \<Rightarrow> nat option" where
  "find_from s p pos =
     (if pos \<le> length s then map_option (\<lambda>i. pos + i) (find_str p (drop pos s)) else None)"

text \<open>\<open>s.rfind(c)\<close> and \<open>s.find_last_of(c)\<close> for one character.\<close>

fun rfind_char :: "char \<Rightarrow> string \<Rightarrow> nat option" where
  "rfind_char c [] = None"
| "rfind_char c (x # xs) =
     (case rfind_char c xs of
        Some i \<Rightarrow> Some (Suc i)
      | None \<Rightarrow> if x = c then Some 0 else None)"

text \<open>
  \<open>s.substr(pos, n)\<close> throws \<open>std::out_of_range\<close> when \<open>pos > s.size()\<close>; \<open>substr_from\<close> is the
  one-argument form.
\<close>

definition substr :: "string \<Rightarrow> nat \<Rightarrow> nat \<Rightarrow> string result" where
  "substr s pos n = (if pos \<le> length s then Inr (take n (drop pos s)) else Inl OutOfRange)"

definition substr_from :: "string \<Rightarrow> nat \<Rightarrow> string result" where
  "substr_from s pos = (if pos \<le> length s then Inr (drop pos s) else Inl OutOfRange)"

lemma find_str_Some_split:
  "find_str p s = Some i \<Longrightarrow> \<exists>r. s = take i s @ p @ r \<and> i + length p \<le> length s"
proof (induction p s arbitrary: i rule: find_str.induct)
  case (1 p)
  then show ?case by (auto split: if_splits)
next
  case (2 p c cs)
  show ?case
  proof (cases "prefix p (c # cs)")
    case True
    with "2.prems" have "i = 0" by simp
    with True show ?thesis using prefix_length_le[OF True] by (auto elim: prefixE)
  next
    case False
    with "2.prems" obtain j where j: "find_str p cs = Some j" "i = Suc j" by auto
    with "2.IH"[OF False j(1)] show ?thesis by auto
  qed
qed

lemma find_str_bound: "find_str p s = Some i \<Longrightarrow> i + length p \<le> length s"
  by (drule find_str_Some_split) blast

lemma find_str_singleton_None_iff [str_simps]: "find_str [c] s = None \<longleftrightarrow> c \<notin> set s"
  by (induction s) auto

lemma find_str_singleton_append [str_simps]:
  "c \<notin> set a \<Longrightarrow> find_str [c] (a @ c # b) = Some (length a)"
  by (induction a) auto

lemma find_str_singleton_not_before:
  "find_str [c] s = Some i \<Longrightarrow> c \<notin> set (take i s)"
  by (induction s arbitrary: i) (auto split: if_splits)

lemma find_str_zero_iff: "find_str p s = Some 0 \<longleftrightarrow> prefix p s"
  by (cases s) auto

lemma find_str_None_not_prefix: "find_str p s = None \<Longrightarrow> \<not> prefix p s"
  by (cases s) (auto split: if_splits)

text \<open>A pattern whose first character does not occur before position \<open>length a\<close> is found there.\<close>

lemma find_str_append_first [str_simps]:
  "x \<notin> set a \<Longrightarrow> find_str (x # p) (a @ (x # p) @ b) = Some (length a)"
  by (induction a) (auto simp: prefix_def)

lemma find_str_None_first [str_simps]: "x \<notin> set s \<Longrightarrow> find_str (x # p) s = None"
  by (induction s) auto

lemma find_from_0 [simp]: "find_from s p 0 = find_str p s"
  by (cases "find_str p s") (simp_all add: find_from_def)

lemma find_from_length [str_simps]:
  "find_from (a @ b) p (length a) = map_option (\<lambda>i. length a + i) (find_str p b)"
  by (simp add: find_from_def)

lemma rfind_char_bound: "rfind_char c s = Some i \<Longrightarrow> i < length s \<and> s ! i = c"
  by (induction s arbitrary: i) (auto split: option.splits if_splits)

lemma rfind_char_None_iff [str_simps]: "rfind_char c s = None \<longleftrightarrow> c \<notin> set s"
  by (induction s) (auto split: option.splits)

lemma rfind_char_last [str_simps]:
  "c \<notin> set b \<Longrightarrow> rfind_char c (a @ c # b) = Some (length a)"
proof (induction a)
  case Nil
  then have "rfind_char c b = None" by (simp add: rfind_char_None_iff)
  then show ?case by simp
qed simp

subsection \<open>Input streams over a string\<close>

text \<open>
  \<open>std::getline(is, line, d)\<close>: \<open>None\<close> is a failed stream (nothing left to read), \<open>Some\<close>
  carries the line without its delimiter and what is left in the stream.
\<close>

definition getline :: "char \<Rightarrow> string \<Rightarrow> (string \<times> string) option" where
  "getline d s =
     (if s = [] then None
      else Some (takeWhile (\<lambda>c. c \<noteq> d) s, drop 1 (dropWhile (\<lambda>c. c \<noteq> d) s)))"

text \<open>The lines a \<open>while (std::getline(is, line, d))\<close> loop visits.\<close>

function lines_of :: "char \<Rightarrow> string \<Rightarrow> string list" where
  "lines_of d s = (case getline d s of None \<Rightarrow> [] | Some (l, r) \<Rightarrow> l # lines_of d r)"
  by pat_completeness auto
termination
proof (relation "measure (\<lambda>(d, s). length s)", goal_cases)
  case (2 d s x l r)
  then have "r = drop 1 (dropWhile (\<lambda>c. c \<noteq> d) s)" "s \<noteq> []"
    by (auto simp: getline_def split: if_splits)
  then have "length r < length s"
    using length_dropWhile_le[of "\<lambda>c. c \<noteq> d" s] by (cases s) auto
  then show ?case by simp
qed simp

declare lines_of.simps [simp del]

text \<open>\<open>is >> word\<close>: skip white space, then read up to white space; fails on nothing.\<close>

definition extract_word :: "string \<Rightarrow> (string \<times> string) option" where
  "extract_word s =
     (let t = dropWhile is_space s in
      if t = [] then None
      else Some (takeWhile (\<lambda>c. \<not> is_space c) t, dropWhile (\<lambda>c. \<not> is_space c) t))"

text \<open>\<open>is >> std::ws\<close>.\<close>

definition skip_ws :: "string \<Rightarrow> string" where
  "skip_ws s = dropWhile is_space s"

lemma getline_Nil [simp]: "getline d [] = None"
  by (simp add: getline_def)

lemma getline_append [str_simps]:
  "d \<notin> set a \<Longrightarrow> getline d (a @ d # b) = Some (a, b)"
  by (induction a) (auto simp: getline_def)

lemma getline_last [str_simps]: "d \<notin> set a \<Longrightarrow> a \<noteq> [] \<Longrightarrow> getline d a = Some (a, [])"
proof -
  assume a: "d \<notin> set a" "a \<noteq> []"
  then have tw: "takeWhile (\<lambda>c. c \<noteq> d) a = a" and dw: "dropWhile (\<lambda>c. c \<noteq> d) a = []"
    by (auto simp: takeWhile_eq_all_conv dropWhile_eq_Nil_conv)
  show ?thesis using a(2) by (simp add: getline_def tw dw del: takeWhile_eq_all_conv)
qed

lemma getline_SomeD:
  "getline d s = Some (l, r) \<Longrightarrow> d \<notin> set l \<and> length r < length s"
proof -
  assume a: "getline d s = Some (l, r)"
  then have l: "l = takeWhile (\<lambda>c. c \<noteq> d) s" and r: "r = drop 1 (dropWhile (\<lambda>c. c \<noteq> d) s)"
    and ne: "s \<noteq> []"
    by (auto simp: getline_def split: if_splits)
  from ne r have "length r < length s"
    using length_dropWhile_le[of "\<lambda>c. c \<noteq> d" s] by (cases s) auto
  moreover from l have "d \<notin> set l" by (auto dest: set_takeWhileD)
  ultimately show ?thesis by simp
qed

lemma lines_of_Nil [simp]: "lines_of d [] = []"
  by (simp add: lines_of.simps)

lemma lines_of_append [str_simps]:
  "d \<notin> set a \<Longrightarrow> lines_of d (a @ d # b) = a # lines_of d b"
  by (subst lines_of.simps) (simp add: getline_append)

lemma lines_of_concat:
  "(\<forall>l \<in> set ls. d \<notin> set l) \<Longrightarrow> lines_of d (concat (map (\<lambda>l. l @ [d]) ls)) = ls"
  by (induction ls) (simp_all add: lines_of_append)

lemma extract_word_append [str_simps]:
  assumes "w \<noteq> []" "\<forall>c \<in> set w. \<not> is_space c" "is_space b"
  shows "extract_word (w @ b # r) = Some (w, b # r)"
proof -
  from assms have "dropWhile is_space (w @ b # r) = w @ b # r"
    by (cases w) auto
  with assms show ?thesis
    by (auto simp: extract_word_def Let_def takeWhile_append2 dropWhile_append2 takeWhile_tail)
qed

lemma extract_word_skip [str_simps]: "is_space b \<Longrightarrow> extract_word (b # r) = extract_word r"
  by (simp add: extract_word_def)

lemma extract_word_end [str_simps]:
  assumes "w \<noteq> []" "\<forall>c \<in> set w. \<not> is_space c"
  shows "extract_word w = Some (w, [])"
proof -
  from assms have "dropWhile is_space w = w" by (cases w) auto
  with assms show ?thesis
    by (auto simp: extract_word_def Let_def takeWhile_eq_all_conv dropWhile_eq_Nil_conv)
qed

subsection \<open>Numbers as text\<close>

definition digit_char :: "nat \<Rightarrow> char" where
  "digit_char d = (if d < 10 then char_of (48 + d) else char_of (87 + d))"

definition digit_val :: "char \<Rightarrow> nat option" where
  "digit_val c = (let n = (of_char c :: nat) in
     if 48 \<le> n \<and> n \<le> 57 then Some (n - 48)
     else if 97 \<le> n \<and> n \<le> 122 then Some (n - 87)
     else if 65 \<le> n \<and> n \<le> 90 then Some (n - 55)
     else None)"

lemma of_char_digit_char: "d < 36 \<Longrightarrow> (of_char (digit_char d) :: nat) = (if d < 10 then 48 + d else 87 + d)"
  by (simp add: digit_char_def)

lemma digit_char_neq:
  assumes "d < 16" "(of_char k :: nat) < 48 \<or> 57 < (of_char k :: nat)"
    "(of_char k :: nat) < 97 \<or> 102 < (of_char k :: nat)"
  shows "digit_char d \<noteq> k"
proof
  assume "digit_char d = k"
  then have "(of_char k :: nat) = (if d < 10 then 48 + d else 87 + d)"
    using assms(1) of_char_digit_char[of d] by auto
  with assms show False by (auto split: if_splits)
qed

lemma digit_char_not_space: "d < 16 \<Longrightarrow> \<not> is_space (digit_char d)"
  by (simp add: is_space_code of_char_digit_char)

text \<open>Positional notation of a number in base \<open>b\<close> (\<open>std::dec\<close>, \<open>std::hex\<close> and \<open>std::noshowbase\<close>).\<close>

fun num_str :: "nat \<Rightarrow> nat \<Rightarrow> string" where
  "num_str b n =
     (if n < b \<or> b < 2 then [digit_char n] else num_str b (n div b) @ [digit_char (n mod b)])"

declare num_str.simps [simp del]

definition dec_nat :: "nat \<Rightarrow> string" where "dec_nat n = num_str 10 n"
definition hex_nat :: "nat \<Rightarrow> string" where "hex_nat n = num_str 16 n"
definition dec_int :: "int \<Rightarrow> string" where
  "dec_int i = (if i < 0 then ''-'' @ dec_nat (nat (- i)) else dec_nat (nat i))"

text \<open>Reading digits of base \<open>b\<close> up to the first other character, as \<open>strtol\<close> does.\<close>

fun read_digits :: "nat \<Rightarrow> nat \<Rightarrow> string \<Rightarrow> nat \<times> string" where
  "read_digits b acc [] = (acc, [])"
| "read_digits b acc (c # cs) =
     (case digit_val c of
        Some d \<Rightarrow> if d < b then read_digits b (acc * b + d) cs else (acc, c # cs)
      | None \<Rightarrow> (acc, c # cs))"

lemma digit_val_char [simp]: "d < 36 \<Longrightarrow> digit_val (digit_char d) = Some d"
  by (auto simp: digit_val_def digit_char_def Let_def)

lemma read_digits_app_digit:
  "d < b \<Longrightarrow> d < 36 \<Longrightarrow> read_digits b acc xs = (v, []) \<Longrightarrow>
     read_digits b acc (xs @ digit_char d # r) = read_digits b (v * b + d) r"
  by (induction b acc xs rule: read_digits.induct) (auto split: option.splits if_splits)

lemma num_str_read_all:
  "2 \<le> b \<Longrightarrow> b \<le> 36 \<Longrightarrow> read_digits b 0 (num_str b n) = (n, [])"
proof (induction b n rule: num_str.induct)
  case (1 b n)
  show ?case
  proof (cases "n < b")
    case True
    with "1.prems" show ?thesis by (simp add: num_str.simps[of b n])
  next
    case False
    with "1.prems" have IH: "read_digits b 0 (num_str b (n div b)) = (n div b, [])"
      by (intro "1.IH") auto
    have "n mod b < b" using "1.prems" by simp
    moreover from this have "n mod b < 36" using "1.prems" by linarith
    ultimately have "n mod b < b" "n mod b < 36" by blast+
    from read_digits_app_digit[OF this IH, of "[]"] False "1.prems" show ?thesis
      by (simp add: num_str.simps[of b n])
  qed
qed

text \<open>
  What follows a number is left unread, whenever it starts with no digit of the base: the round trip
  the chunk sizes, the object numbers and the lengths rely on.
\<close>

lemma read_digits_append_stop:
  "read_digits b acc xs = (v, []) \<Longrightarrow>
   (r = [] \<or> (case digit_val (hd r) of Some d \<Rightarrow> \<not> d < b | None \<Rightarrow> True)) \<Longrightarrow>
     read_digits b acc (xs @ r) = (v, r)"
proof (induction b acc xs rule: read_digits.induct)
  case (1 b acc)
  then show ?case by (cases r) (auto split: option.splits)
qed (auto split: option.splits if_splits)

lemma num_str_read:
  assumes "2 \<le> b" "b \<le> 36" "r = [] \<or> digit_val (hd r) = None"
  shows "read_digits b 0 (num_str b n @ r) = (n, r)"
  using read_digits_append_stop[OF num_str_read_all[OF assms(1,2)]] assms(3) by auto

lemma num_str_ne [simp]: "num_str b n \<noteq> []"
  by (subst num_str.simps) simp

lemma num_str_digits:
  "2 \<le> b \<Longrightarrow> b \<le> 36 \<Longrightarrow> c \<in> set (num_str b n) \<Longrightarrow> \<exists>d < b. c = digit_char d"
proof (induction b n rule: num_str.induct)
  case (1 b n)
  then have "\<exists>d < b. digit_char (n mod b) = digit_char d" by (intro exI[of _ "n mod b"]) simp
  with 1 show ?case
    by (cases "n < b") (auto simp: num_str.simps[of b n])
qed

lemma dec_nat_inj: "dec_nat m = dec_nat n \<longleftrightarrow> m = n"
proof
  assume "dec_nat m = dec_nat n"
  then have "read_digits 10 0 (num_str 10 m) = read_digits 10 0 (num_str 10 n)"
    by (simp add: dec_nat_def)
  then show "m = n" by (simp add: num_str_read_all)
qed simp

text \<open>
  \<open>strtol(s, nullptr, base)\<close> saturates at the range of \<open>long\<close>; \<open>atoi\<close> converts its result to
  a 32-bit \<open>int\<close>.
\<close>

definition strtol :: "nat \<Rightarrow> string \<Rightarrow> int" where
  "strtol b s =
     (let t = skip_ws s;
          (neg, u) = (case t of [] \<Rightarrow> (False, [])
             | c # cs \<Rightarrow> if c = CHR ''-'' then (True, cs)
                         else if c = CHR ''+'' then (False, cs) else (False, t));
          v = (if b = 16 \<and> (prefix ''0x'' u \<or> prefix ''0X'' u)
               then fst (read_digits b 0 (drop 2 u)) else fst (read_digits b 0 u))
      in max (- (2 ^ 63)) (min (2 ^ 63 - 1) (if neg then - int v else int v)))"

definition wrap32 :: "int \<Rightarrow> int" where
  "wrap32 x = (x + 2 ^ 31) mod 2 ^ 32 - 2 ^ 31"

definition atoi :: "string \<Rightarrow> int" where
  "atoi s = wrap32 (strtol 10 s)"

end
