(* ===== verification/Floating.thy ===== *)
theory Floating
  imports AirSane_Prelude Complex_Main "HOL-Library.Log_Nat"
begin

text \<open>
  The \<open>double\<close> and \<open>float\<close> values the sources compute with: IEEE 754 binary64 and binary32 with
  rounding to nearest, ties to even, as executable functions on rationals, extended by the
  infinities and by NaN (the sign of zero is not represented; no source tests it). Also the two
  conversions between text and \<open>double\<close> that the sources use, always in the C locale:
  \<open>operator>>\<close> and \<open>operator<<\<close> with its default precision of six digits.
\<close>

subsection \<open>Rounding\<close>

definition pow_int :: "rat \<Rightarrow> int \<Rightarrow> rat" where
  "pow_int b k = (if k \<ge> 0 then b ^ nat k else 1 / b ^ nat (- k))"

definition round_half_even :: "rat \<Rightarrow> int" where
  "round_half_even y =
     (let f = \<lfloor>y\<rfloor>; r = y - of_int f in
      if r < 1 / 2 then f else if r > 1 / 2 then f + 1 else if even f then f else f + 1)"

text \<open>\<open>ilog b x\<close> is the exponent of \<open>x > 0\<close> in base \<open>b\<close>, from numerator and denominator.\<close>

definition ilog :: "nat \<Rightarrow> rat \<Rightarrow> int" where
  "ilog b x =
     (let (n, d) = quotient_of x;
          k = int (floorlog b (nat n)) - int (floorlog b (nat d))
      in if pow_int (of_nat b) k \<le> x then k else k - 1)"

text \<open>\<open>p\<close> bits of precision, \<open>emin\<close> the exponent of the smallest positive value.\<close>

definition fround :: "nat \<Rightarrow> int \<Rightarrow> rat \<Rightarrow> rat" where
  "fround p emin x =
     (if x = 0 then 0
      else let q = max emin (ilog 2 \<bar>x\<bar> - int (p - 1))
           in of_int (round_half_even (x / pow_int 2 q)) * pow_int 2 q)"

datatype dbl = NaN | PInf | NInf | Fin rat

definition to_dbl :: "rat \<Rightarrow> dbl" where
  "to_dbl x = (let y = fround 53 (- 1074) x in
     if y \<ge> 2 ^ 1024 then PInf else if y \<le> - (2 ^ 1024) then NInf else Fin y)"

definition to_flt :: "rat \<Rightarrow> dbl" where
  "to_flt x = (let y = fround 24 (- 149) x in
     if y \<ge> 2 ^ 128 then PInf else if y \<le> - (2 ^ 128) then NInf else Fin y)"

definition dbl_of_int :: "int \<Rightarrow> dbl" where
  "dbl_of_int i = to_dbl (of_int i)"

lemma round_half_even_int [simp]: "round_half_even (of_int n) = n"
  by (simp add: round_half_even_def Let_def)

lemma round_half_even_le: "y \<le> of_int n \<Longrightarrow> round_half_even y \<le> n"
proof -
  assume y: "y \<le> of_int n"
  then have f: "\<lfloor>y\<rfloor> \<le> n" by linarith
  show ?thesis
  proof (cases "\<lfloor>y\<rfloor> = n")
    case True
    with y have "y = of_int n" by linarith
    then show ?thesis by simp
  next
    case False
    with f show ?thesis by (auto simp: round_half_even_def Let_def)
  qed
qed

lemma round_half_even_ge: "of_int n \<le> y \<Longrightarrow> n \<le> round_half_even y"
proof -
  assume "of_int n \<le> y"
  then have "n \<le> \<lfloor>y\<rfloor>" by (simp add: le_floor_iff)
  then show ?thesis by (auto simp: round_half_even_def Let_def)
qed

lemma pow_int_pos: "0 < b \<Longrightarrow> 0 < pow_int b k"
  by (simp add: pow_int_def)

text \<open>Integers that fit the precision are represented exactly.\<close>

lemma ilog2_int_bound:
  assumes "0 < n" "n < 2 ^ p"
  shows "ilog 2 (of_int n) \<le> int p - 1"
proof -
  have q: "quotient_of (rat_of_int n) = (n, 1)" by (simp add: quotient_of_int)
  have "floorlog 2 (nat n) \<le> p"
  proof (rule floorlog_leI)
    show "nat n < 2 ^ p" using assms by (simp add: nat_less_iff)
  qed simp_all
  then have "int (floorlog 2 (nat n)) - 1 \<le> int p - 1" by simp
  moreover have "floorlog 2 (Suc 0) = 1" by (simp add: floorlog_def)
  ultimately show ?thesis by (auto simp: ilog_def q Let_def)
qed

lemma round_half_even_scaled:
  assumes "q \<le> 0"
  shows "of_int (round_half_even (rat_of_int n / pow_int 2 q)) * pow_int 2 q = rat_of_int n"
proof -
  have k: "pow_int 2 q = 1 / 2 ^ nat (- q)"
    using assms by (cases "q = 0") (auto simp: pow_int_def)
  have "rat_of_int n / pow_int 2 q = of_int (n * 2 ^ nat (- q))" by (simp add: k)
  then have "round_half_even (rat_of_int n / pow_int 2 q) = n * 2 ^ nat (- q)"
    by (simp only: round_half_even_int)
  then show ?thesis by (simp add: k)
qed

lemma fround_int:
  assumes "\<bar>n\<bar> < 2 ^ p" "0 < p" "emin \<le> 0"
  shows "fround p emin (of_int n) = of_int n"
proof (cases "n = 0")
  case False
  let ?q = "max emin (ilog 2 \<bar>rat_of_int n\<bar> - int (p - 1))"
  have "ilog 2 (rat_of_int \<bar>n\<bar>) \<le> int p - 1"
    using ilog2_int_bound[of "\<bar>n\<bar>" p] assms(1) False by simp
  then have q: "?q \<le> 0" using assms by simp
  have "of_int (round_half_even (rat_of_int n / pow_int 2 ?q)) * pow_int 2 ?q = rat_of_int n"
    by (rule round_half_even_scaled[OF q])
  then show ?thesis using False by (simp only: fround_def Let_def of_int_eq_0_iff if_False)
qed (simp add: fround_def)

lemma dbl_of_int_exact:
  assumes "\<bar>n\<bar> < 2 ^ 53"
  shows "dbl_of_int n = Fin (of_int n)"
proof -
  have "fround 53 (- 1074) (of_int n) = rat_of_int n"
    using assms by (intro fround_int) auto
  moreover have "rat_of_int n < 2 ^ 1024" "- (2 ^ 1024) < rat_of_int n"
  proof -
    have "(2::int) ^ 53 \<le> 2 ^ 1024" by (rule power_increasing) auto
    with assms have "n < 2 ^ 1024" "- (2 ^ 1024) < n" by linarith+
    then show "rat_of_int n < 2 ^ 1024" "- (2 ^ 1024) < rat_of_int n"
      by (metis of_int_less_iff of_int_numeral of_int_power)
        (metis \<open>- (2 ^ 1024) < n\<close> of_int_less_iff of_int_minus of_int_numeral of_int_power)
  qed
  ultimately show ?thesis by (simp add: dbl_of_int_def to_dbl_def Let_def)
qed

subsection \<open>Arithmetic and comparisons\<close>

fun dneg :: "dbl \<Rightarrow> dbl" where
  "dneg NaN = NaN" | "dneg PInf = NInf" | "dneg NInf = PInf" | "dneg (Fin x) = Fin (- x)"

fun dadd :: "dbl \<Rightarrow> dbl \<Rightarrow> dbl" where
  "dadd (Fin x) (Fin y) = to_dbl (x + y)"
| "dadd NaN _ = NaN" | "dadd _ NaN = NaN"
| "dadd PInf NInf = NaN" | "dadd NInf PInf = NaN"
| "dadd PInf _ = PInf" | "dadd _ PInf = PInf"
| "dadd NInf _ = NInf" | "dadd _ NInf = NInf"

definition dsub :: "dbl \<Rightarrow> dbl \<Rightarrow> dbl" where
  "dsub a b = dadd a (dneg b)"

definition dsign :: "dbl \<Rightarrow> rat" where
  "dsign a = (case a of NaN \<Rightarrow> 0 | PInf \<Rightarrow> 1 | NInf \<Rightarrow> - 1 | Fin x \<Rightarrow> sgn x)"

definition dinf :: "rat \<Rightarrow> dbl" where
  "dinf s = (if s > 0 then PInf else if s < 0 then NInf else NaN)"

definition dmul :: "dbl \<Rightarrow> dbl \<Rightarrow> dbl" where
  "dmul a b = (case (a, b) of
      (Fin x, Fin y) \<Rightarrow> to_dbl (x * y)
    | (NaN, _) \<Rightarrow> NaN | (_, NaN) \<Rightarrow> NaN
    | _ \<Rightarrow> dinf (dsign a * dsign b))"

text \<open>Division of a finite nonzero value by zero is an infinity of its sign (zero is taken positive).\<close>

definition ddiv :: "dbl \<Rightarrow> dbl \<Rightarrow> dbl" where
  "ddiv a b = (case (a, b) of
      (Fin x, Fin y) \<Rightarrow> if y = 0 then dinf (sgn x) else to_dbl (x / y)
    | (NaN, _) \<Rightarrow> NaN | (_, NaN) \<Rightarrow> NaN
    | (Fin _, _) \<Rightarrow> Fin 0
    | (_, Fin y) \<Rightarrow> if y = 0 then a else dinf (dsign a * sgn y)
    | _ \<Rightarrow> NaN)"

fun dfloor :: "dbl \<Rightarrow> dbl" where
  "dfloor (Fin x) = Fin (of_int \<lfloor>x\<rfloor>)"
| "dfloor a = a"

fun dceil :: "dbl \<Rightarrow> dbl" where
  "dceil (Fin x) = Fin (of_int \<lceil>x\<rceil>)"
| "dceil a = a"

fun dlt :: "dbl \<Rightarrow> dbl \<Rightarrow> bool" where
  "dlt (Fin x) (Fin y) = (x < y)"
| "dlt NaN _ = False" | "dlt _ NaN = False"
| "dlt NInf b = (b \<noteq> NInf)" | "dlt a PInf = (a \<noteq> PInf)"
| "dlt _ _ = False"

definition deq :: "dbl \<Rightarrow> dbl \<Rightarrow> bool" where
  "deq a b \<longleftrightarrow> a \<noteq> NaN \<and> a = b"

definition dle :: "dbl \<Rightarrow> dbl \<Rightarrow> bool" where
  "dle a b \<longleftrightarrow> dlt a b \<or> deq a b"

text \<open>\<open>std::max(a, b)\<close> returns \<open>a\<close> unless \<open>a < b\<close>, also when one of them is NaN.\<close>

definition dmax :: "dbl \<Rightarrow> dbl \<Rightarrow> dbl" where
  "dmax a b = (if dlt a b then b else a)"

definition dmin :: "dbl \<Rightarrow> dbl \<Rightarrow> dbl" where
  "dmin a b = (if dlt b a then b else a)"

text \<open>Conversion to a 32-bit \<open>int\<close> truncates; out of range it is undefined behaviour.\<close>

definition dtrunc :: "rat \<Rightarrow> int" where
  "dtrunc x = (if x \<ge> 0 then \<lfloor>x\<rfloor> else \<lceil>x\<rceil>)"

definition int_of_dbl :: "dbl \<Rightarrow> int result" where
  "int_of_dbl a = (case a of
      Fin x \<Rightarrow> (let i = dtrunc x in if - (2 ^ 31) \<le> i \<and> i < 2 ^ 31 then Inr i else Inl ConversionUB)
    | _ \<Rightarrow> Inl ConversionUB)"

lemma deq_NaN [simp]: "\<not> deq NaN b" "\<not> deq a NaN"
  by (auto simp: deq_def)

lemma dtrunc_int [simp]: "dtrunc (of_int i) = i"
  by (simp add: dtrunc_def)

lemma int_of_dbl_of_int:
  assumes "- (2 ^ 31) \<le> i" "i < 2 ^ 31"
  shows "int_of_dbl (dbl_of_int i) = Inr i"
proof -
  have "dbl_of_int i = Fin (of_int i)" using assms by (intro dbl_of_int_exact) auto
  with assms show ?thesis by (simp add: int_of_dbl_def)
qed

subsection \<open>Text to number and back\<close>

definition is_digit :: "char \<Rightarrow> bool" where
  "is_digit c \<longleftrightarrow> 48 \<le> (of_char c :: nat) \<and> (of_char c :: nat) \<le> 57"

definition read_sign :: "string \<Rightarrow> bool \<times> string" where
  "read_sign s = (case s of [] \<Rightarrow> (False, [])
     | c # cs \<Rightarrow> if c = CHR ''-'' then (True, cs) else if c = CHR ''+'' then (False, cs) else (False, s))"

definition digits_val :: "string \<Rightarrow> nat" where
  "digits_val s = fst (read_digits 10 0 s)"

text \<open>
  \<open>is >> d\<close>: sign, digits with an optional fraction, an optional exponent; what follows is left
  in the stream. An exponent letter without digits, and a value out of range, fail the stream.
\<close>

definition read_fraction :: "string \<Rightarrow> string \<times> string" where
  "read_fraction r = (case r of [] \<Rightarrow> ([], [])
     | c # cs \<Rightarrow> if c = CHR ''.'' then (takeWhile is_digit cs, dropWhile is_digit cs) else ([], r))"

definition read_exponent :: "string \<Rightarrow> int option" where
  "read_exponent r = (case r of [] \<Rightarrow> Some 0
     | c # cs \<Rightarrow>
         if c = CHR ''e'' \<or> c = CHR ''E''
         then (let (neg, t) = read_sign cs; ds = takeWhile is_digit t in
               if ds = [] then None
               else Some (if neg then - int (digits_val ds) else int (digits_val ds)))
         else Some 0)"

definition read_double :: "string \<Rightarrow> dbl option" where
  "read_double s =
     (let (neg, u) = read_sign (skip_ws s);
          ip = takeWhile is_digit u;
          (fp, r) = read_fraction (dropWhile is_digit u);
          mant = of_nat (digits_val (ip @ fp)) / 10 ^ length fp :: rat
      in if ip @ fp = [] then None
         else (case read_exponent r of None \<Rightarrow> None
           | Some e \<Rightarrow>
               (case to_dbl ((if neg then - mant else mant) * pow_int 10 e) of
                  Fin y \<Rightarrow> Some (Fin y) | _ \<Rightarrow> None)))"

definition strip_zeros :: "string \<Rightarrow> string" where
  "strip_zeros s = rev (dropWhile (\<lambda>c. c = CHR ''0'') (rev s))"

definition with_fraction :: "string \<Rightarrow> string \<Rightarrow> string" where
  "with_fraction i f = (if strip_zeros f = [] then i else i @ ''.'' @ strip_zeros f)"

definition fmt_g :: "rat \<Rightarrow> string" where
  "fmt_g x =
     (if x = 0 then ''0''
      else let a = \<bar>x\<bar>;
               e0 = ilog 10 a;
               m0 = round_half_even (a / pow_int 10 (e0 - 5));
               (m, e) = (if m0 = 10 ^ 6 then (10 ^ 5, e0 + 1) else (m0, e0));
               ds = dec_nat (nat m);
               body =
                 (if - 4 \<le> e \<and> e < 6 then
                    (if e \<ge> 0 then with_fraction (take (nat e + 1) ds) (drop (nat e + 1) ds)
                     else with_fraction ''0'' (replicate (nat (- e) - 1) (CHR ''0'') @ ds))
                  else with_fraction (take 1 ds) (drop 1 ds) @ ''e''
                       @ (if e < 0 then ''-'' else ''+'')
                       @ (if \<bar>e\<bar> < 10 then ''0'' else []) @ dec_nat (nat \<bar>e\<bar>))
           in (if x < 0 then ''-'' else []) @ body)"

text \<open>\<open>os << d\<close> in the C locale with the default format.\<close>

definition dbl_str :: "dbl \<Rightarrow> string" where
  "dbl_str a = (case a of NaN \<Rightarrow> ''nan'' | PInf \<Rightarrow> ''inf'' | NInf \<Rightarrow> ''-inf'' | Fin x \<Rightarrow> fmt_g x)"


text \<open>
  A natural number up to \<open>2 ^ 53\<close> survives being written in decimal and read back, whatever
  follows it that is neither a digit nor a fraction nor an exponent.
\<close>

definition number_end :: "string \<Rightarrow> bool" where
  "number_end r \<longleftrightarrow> r = [] \<or> (\<not> is_digit (hd r) \<and> hd r \<notin> {CHR ''.'', CHR ''e'', CHR ''E''})"

lemma is_digit_digit_char: "d < 10 \<Longrightarrow> is_digit (digit_char d)"
  by (simp add: is_digit_def digit_char_def)

lemma dec_nat_digits: "c \<in> set (dec_nat n) \<Longrightarrow> is_digit c"
  unfolding dec_nat_def by (drule num_str_digits[rotated 2]) (auto intro: is_digit_digit_char)

lemma is_digit_not_special:
  "is_digit c \<Longrightarrow> \<not> is_space c \<and> c \<noteq> CHR ''-'' \<and> c \<noteq> CHR ''+''"
  by (auto simp: is_digit_def is_space_def)

lemma dec_nat_span:
  assumes "number_end r"
  shows "takeWhile is_digit (dec_nat n @ r) = dec_nat n" "dropWhile is_digit (dec_nat n @ r) = r"
proof -
  have "takeWhile is_digit r = []" "dropWhile is_digit r = r"
    using assms by (cases r; auto simp: number_end_def)+
  moreover have "\<forall>c \<in> set (dec_nat n). is_digit c" by (auto intro: dec_nat_digits)
  ultimately show "takeWhile is_digit (dec_nat n @ r) = dec_nat n" "dropWhile is_digit (dec_nat n @ r) = r"
    by (simp_all add: takeWhile_append2 dropWhile_append2)
qed

lemma dec_nat_start:
  "skip_ws (dec_nat n @ r) = dec_nat n @ r" "read_sign (dec_nat n @ r) = (False, dec_nat n @ r)"
proof -
  obtain c cs where d: "dec_nat n = c # cs" by (cases "dec_nat n") (auto simp: dec_nat_def)
  then have "is_digit c" using dec_nat_digits[of c n] by simp
  with d show "skip_ws (dec_nat n @ r) = dec_nat n @ r"
      "read_sign (dec_nat n @ r) = (False, dec_nat n @ r)"
    by (auto simp: skip_ws_def read_sign_def dest: is_digit_not_special)
qed

lemma digits_val_dec_nat [simp]: "digits_val (dec_nat n) = n"
  by (simp add: digits_val_def dec_nat_def num_str_read_all)

lemma read_double_dec_nat:
  assumes "number_end r" "n < 2 ^ 53"
  shows "read_double (dec_nat n @ r) = Some (Fin (of_nat n))"
proof -
  have "\<bar>int n\<bar> < 2 ^ 53" using assms(2) by (simp flip: of_nat_less_iff)
  then have v: "to_dbl (rat_of_nat n) = Fin (of_nat n)"
    using dbl_of_int_exact[of "int n"] by (simp add: dbl_of_int_def)
  have ne: "dec_nat n \<noteq> []" by (simp add: dec_nat_def)
  have f: "read_fraction r = ([], r)" "read_exponent r = Some 0"
    using assms(1) by (cases r; auto simp: number_end_def read_fraction_def read_exponent_def)+
  show ?thesis
    unfolding read_double_def dec_nat_start Let_def prod.case dec_nat_span[OF assms(1)] f
    using ne v by (simp add: pow_int_def)
qed

end
