(* ===== verification/Dictionary.thy ===== *)
theory Dictionary
  imports Floating
begin

text \<open>
  \<open>src/basic/dictionary.cpp\<close>: an ordered list of key/value pairs with linear search. The header
  fields of requests and responses, form data, HTML attributes and the PDF document information
  are all dictionaries.

  The operations are translated over the storage vector; an iterator is a position. The interface
  \<open>kv_store\<close> (what a lookup returns after an update, in which order keys are listed) is
  interpreted on them, and the facts its clients need, about a whole sequence of updates, are proved
  once inside it.
\<close>

type_synonym dictionary = "(string \<times> string) list"

subsection \<open>Operations\<close>

text \<open>The anonymous-namespace \<open>find\<close>: the position of the first entry with this key, \<open>None\<close> for \<open>end()\<close>.\<close>

fun dict_find :: "dictionary \<Rightarrow> string \<Rightarrow> nat option" where
  "dict_find [] key = None"
| "dict_find (v # vs) key = (if fst v = key then Some 0 else map_option Suc (dict_find vs key))"

definition numtostr :: "dbl \<Rightarrow> string" where
  "numtostr num = dbl_str num"

definition strtonum :: "string \<Rightarrow> dbl" where
  "strtonum s = (case read_double s of Some num \<Rightarrow> num | None \<Rightarrow> NaN)"

definition hasKey :: "dictionary \<Rightarrow> string \<Rightarrow> bool" where
  "hasKey d key = (dict_find d key \<noteq> None)"

definition eraseKey :: "dictionary \<Rightarrow> string \<Rightarrow> dictionary" where
  "eraseKey d key = (case dict_find d key of None \<Rightarrow> d | Some i \<Rightarrow> take i d @ drop (Suc i) d)"

text \<open>Both \<open>applyDefaultValue\<close> overloads return the new dictionary and the value referred to.\<close>

definition applyDefaultValue :: "dictionary \<Rightarrow> string \<Rightarrow> string \<Rightarrow> dictionary \<times> string" where
  "applyDefaultValue d key value =
     (case dict_find d key of
        None \<Rightarrow> (d @ [(key, value)], value)
      | Some i \<Rightarrow> (d, snd (d ! i)))"

definition applyDefaultNumber :: "dictionary \<Rightarrow> string \<Rightarrow> dbl \<Rightarrow> dictionary \<times> string" where
  "applyDefaultNumber d key value = applyDefaultValue d key (numtostr value)"

definition getString :: "dictionary \<Rightarrow> string \<Rightarrow> string" where
  "getString d key = (case dict_find d key of None \<Rightarrow> [] | Some i \<Rightarrow> snd (d ! i))"

definition getNumber :: "dictionary \<Rightarrow> string \<Rightarrow> dbl" where
  "getNumber d s = strtonum (getString d s)"

text \<open>
  The non-const \<open>operator[]\<close> yields a reference, here a position in the (possibly extended)
  storage; \<open>dict_set\<close> is the assignment \<open>d[key] = value\<close> through that reference.
\<close>

definition dict_ref :: "dictionary \<Rightarrow> string \<Rightarrow> dictionary \<times> nat" where
  "dict_ref d key =
     (case dict_find d key of
        None \<Rightarrow> (d @ [(key, [])], length d)
      | Some i \<Rightarrow> (d, i))"

definition dict_set :: "dictionary \<Rightarrow> string \<Rightarrow> string \<Rightarrow> dictionary" where
  "dict_set d key value = (let (d', i) = dict_ref d key in d'[i := (fst (d' ! i), value)])"

subsection \<open>Abstraction to a finite map\<close>

definition dict_lookup :: "dictionary \<Rightarrow> string \<Rightarrow> string option" where
  "dict_lookup d = map_of d"

definition dict_inv :: "dictionary \<Rightarrow> bool" where
  "dict_inv d \<longleftrightarrow> distinct (map fst d)"

lemma dict_find_None_iff: "dict_find d k = None \<longleftrightarrow> k \<notin> fst ` set d"
  by (induction d) auto

lemma dict_find_SomeD:
  "dict_find d k = Some i \<Longrightarrow> i < length d \<and> fst (d ! i) = k \<and> map_of d k = Some (snd (d ! i))"
  by (induction d arbitrary: i) (auto split: if_splits)

lemma dict_find_lookup: "dict_find d k = None \<longleftrightarrow> dict_lookup d k = None"
  by (simp add: dict_find_None_iff dict_lookup_def map_of_eq_None_iff)

lemma hasKey_iff: "hasKey d k \<longleftrightarrow> dict_lookup d k \<noteq> None"
  by (simp add: hasKey_def dict_find_lookup)

lemma getString_lookup: "getString d k = (case dict_lookup d k of None \<Rightarrow> [] | Some v \<Rightarrow> v)"
proof (cases "dict_find d k")
  case None
  then have "dict_lookup d k = None" by (simp add: dict_find_lookup)
  with None show ?thesis by (simp add: getString_def)
next
  case (Some i)
  with dict_find_SomeD[OF Some] show ?thesis by (simp add: getString_def dict_lookup_def)
qed

text \<open>Assignment replaces the value in place or appends a new entry; the other entries stay.\<close>

lemma dict_set_Nil [simp]: "dict_set [] k v = [(k, v)]"
  by (simp add: dict_set_def dict_ref_def)

lemma dict_set_Cons [simp]:
  "dict_set (e # d) k v = (if fst e = k then (k, v) # d else e # dict_set d k v)"
  by (cases "dict_find d k") (auto simp: dict_set_def dict_ref_def)

lemma dict_lookup_set: "dict_lookup (dict_set d k v) = (dict_lookup d)(k \<mapsto> v)"
  by (induction d) (auto simp: dict_lookup_def fun_eq_iff)

lemma keys_dict_set:
  "map fst (dict_set d k v) = (if k \<in> fst ` set d then map fst d else map fst d @ [k])"
  by (induction d) auto

lemma dict_inv_set [inv_intros]: "dict_inv d \<Longrightarrow> dict_inv (dict_set d k v)"
  by (auto simp: dict_inv_def keys_dict_set)

lemma eraseKey_Nil [simp]: "eraseKey [] k = []"
  by (simp add: eraseKey_def)

lemma eraseKey_Cons [simp]: "eraseKey (e # d) k = (if fst e = k then d else e # eraseKey d k)"
  by (cases "dict_find d k") (auto simp: eraseKey_def)

lemma keys_eraseKey: "set (map fst (eraseKey d k)) \<subseteq> set (map fst d)"
  by (induction d) auto

lemma dict_inv_erase [inv_intros]: "dict_inv d \<Longrightarrow> dict_inv (eraseKey d k)"
proof (induction d)
  case (Cons e d)
  then show ?case using keys_eraseKey[of d k] by (auto simp: dict_inv_def)
qed simp

lemma dict_lookup_erase: "dict_inv d \<Longrightarrow> dict_lookup (eraseKey d k) = (dict_lookup d)(k := None)"
proof (induction d)
  case (Cons e d)
  then show ?case
    by (auto simp: dict_lookup_def dict_inv_def fun_eq_iff map_of_eq_None_iff image_iff)
qed (simp add: dict_lookup_def)

lemma dict_inv_default [inv_intros]: "dict_inv d \<Longrightarrow> dict_inv (fst (applyDefaultValue d k v))"
  by (auto simp: dict_inv_def applyDefaultValue_def dict_find_None_iff split: option.splits)

lemma dict_lookup_default:
  "dict_lookup (fst (applyDefaultValue d k v)) =
     (if hasKey d k then dict_lookup d else (dict_lookup d)(k \<mapsto> v))"
proof (cases "dict_find d k")
  case None
  then have "map_of d k = None" by (simp add: dict_find_None_iff map_of_eq_None_iff)
  with None show ?thesis
    by (auto simp: applyDefaultValue_def hasKey_def dict_lookup_def fun_eq_iff map_add_def
        split: option.splits)
next
  case (Some i)
  then show ?thesis by (simp add: applyDefaultValue_def hasKey_def)
qed

subsection \<open>The interface of a key/value store\<close>

locale kv_store =
  fixes empty :: "'d"
    and upd :: "'d \<Rightarrow> 'k \<Rightarrow> 'v \<Rightarrow> 'd"
    and look :: "'d \<Rightarrow> 'k \<Rightarrow> 'v option"
    and keys :: "'d \<Rightarrow> 'k list"
    and ok :: "'d \<Rightarrow> bool"
  assumes look_empty: "look empty k = None"
    and ok_empty: "ok empty"
    and look_upd: "ok d \<Longrightarrow> look (upd d k v) = (look d)(k \<mapsto> v)"
    and ok_upd: "ok d \<Longrightarrow> ok (upd d k v)"
    and keys_look: "ok d \<Longrightarrow> k \<in> set (keys d) \<longleftrightarrow> look d k \<noteq> None"
    and keys_distinct: "ok d \<Longrightarrow> distinct (keys d)"
begin

text \<open>A sequence of updates, as the parsers of header fields and of form data perform it.\<close>

lemma ok_fold: "ok d \<Longrightarrow> ok (fold (\<lambda>(k, v) d. upd d k v) kvs d)"
  by (induction kvs arbitrary: d) (auto intro: ok_upd)

lemma look_fold:
  "ok d \<Longrightarrow> look (fold (\<lambda>(k, v) d. upd d k v) kvs d) = look d ++ map_of (rev kvs)"
proof (induction kvs arbitrary: d)
  case (Cons kv kvs)
  obtain k v where kv: "kv = (k, v)" by (cases kv)
  have "look (fold (\<lambda>(k, v) d. upd d k v) kvs (upd d k v)) = (look d)(k \<mapsto> v) ++ map_of (rev kvs)"
    by (simp only: Cons.IH[OF ok_upd[OF Cons.prems]] look_upd[OF Cons.prems])
  also have "\<dots> = look d ++ map_of (rev (kv # kvs))"
    by (auto simp: kv map_add_def fun_eq_iff split: option.splits)
  finally show ?case by (simp add: kv)
qed simp

text \<open>From the empty store: a key holds the value of its last update, and only updated keys are bound.\<close>

lemma look_fold_empty: "look (fold (\<lambda>(k, v) d. upd d k v) kvs empty) = map_of (rev kvs)"
  using look_fold[OF ok_empty, of kvs] by (simp add: fun_eq_iff map_add_def look_empty split: option.splits)

lemma keys_fold_empty:
  "set (keys (fold (\<lambda>(k, v) d. upd d k v) kvs empty)) = fst ` set kvs"
proof -
  have "k \<in> set (keys (fold (\<lambda>(k, v) d. upd d k v) kvs empty)) \<longleftrightarrow> k \<in> fst ` set kvs" for k
    using keys_look[OF ok_fold[OF ok_empty]] by (simp add: look_fold_empty map_of_eq_None_iff)
  then show ?thesis by blast
qed

end

text \<open>A store that can also forget a key.\<close>

locale kv_store_del = kv_store +
  fixes del :: "'a \<Rightarrow> 'b \<Rightarrow> 'a"
  assumes look_del: "ok d \<Longrightarrow> look (del d k) = (look d)(k := None)"
    and ok_del: "ok d \<Longrightarrow> ok (del d k)"
begin

lemma del_upd: "ok d \<Longrightarrow> look (del (upd d k v) k) = look (del d k)"
  by (simp add: look_del look_upd ok_upd fun_eq_iff)

lemma upd_del: "ok d \<Longrightarrow> look (upd (del d k) k v) = look (upd d k v)"
  by (simp add: look_del look_upd ok_del fun_eq_iff)

lemma keys_del: "ok d \<Longrightarrow> set (keys (del d k)) = set (keys d) - {k}"
  by (auto simp: keys_look ok_del look_del split: if_splits)

end

interpretation dict: kv_store_del "[]" dict_set dict_lookup "map fst" dict_inv eraseKey
proof unfold_locales
  fix d :: dictionary and k
  assume "dict_inv d"
  show "k \<in> set (map fst d) \<longleftrightarrow> dict_lookup d k \<noteq> None"
    by (simp add: dict_lookup_def map_of_eq_None_iff)
  from \<open>dict_inv d\<close> show "distinct (map fst d)" by (simp add: dict_inv_def)
qed (simp_all add: dict_lookup_set dict_lookup_erase dict_inv_set dict_inv_erase,
     simp_all add: dict_lookup_def dict_inv_def)

end
