(* ===== verification/HttpText.thy ===== *)
theory HttpText
  imports Dictionary
begin

text \<open>
  The text level of \<open>src/web/httpserver.cpp\<close>: the constants of the protocol, normalisation of header
  names and values (\<open>ctolower\<close>, \<open>ctrim\<close>), decoding of form data (\<open>hexdecode\<close>, \<open>urldecode\<close>) and the
  static helpers \<open>toRelativeUrl\<close>, \<open>statusReason\<close> and \<open>fileExtension\<close>.
\<close>

subsection \<open>Constants\<close>

definition HTTP_OK :: int where "HTTP_OK = 200"
definition HTTP_CREATED :: int where "HTTP_CREATED = 201"
definition HTTP_BAD_REQUEST :: int where "HTTP_BAD_REQUEST = 400"
definition HTTP_NOT_FOUND :: int where "HTTP_NOT_FOUND = 404"
definition HTTP_METHOD_NOT_ALLOWED :: int where "HTTP_METHOD_NOT_ALLOWED = 405"
definition HTTP_CONFLICT :: int where "HTTP_CONFLICT = 409"
definition HTTP_SERVICE_UNAVAILABLE :: int where "HTTP_SERVICE_UNAVAILABLE = 503"

lemmas http_status_defs = HTTP_OK_def HTTP_CREATED_def HTTP_BAD_REQUEST_def HTTP_NOT_FOUND_def
  HTTP_METHOD_NOT_ALLOWED_def HTTP_CONFLICT_def HTTP_SERVICE_UNAVAILABLE_def

definition HTTP_GET :: string where "HTTP_GET = ''GET''"
definition HTTP_POST :: string where "HTTP_POST = ''POST''"
definition HTTP_DELETE :: string where "HTTP_DELETE = ''DELETE''"

lemmas http_method_defs = HTTP_GET_def HTTP_POST_def HTTP_DELETE_def

definition HTTP_HEADER_CONTENT_TYPE :: string where "HTTP_HEADER_CONTENT_TYPE = ''content-type''"
definition HTTP_HEADER_CONTENT_LENGTH :: string where "HTTP_HEADER_CONTENT_LENGTH = ''content-length''"
definition HTTP_HEADER_LOCATION :: string where "HTTP_HEADER_LOCATION = ''location''"
definition HTTP_HEADER_ACCEPT :: string where "HTTP_HEADER_ACCEPT = ''accept''"
definition HTTP_HEADER_USER_AGENT :: string where "HTTP_HEADER_USER_AGENT = ''user-agent''"
definition HTTP_HEADER_REFERER :: string where "HTTP_HEADER_REFERER = ''referer''"
definition HTTP_HEADER_CONNECTION :: string where "HTTP_HEADER_CONNECTION = ''connection''"
definition HTTP_HEADER_TRANSFER_ENCODING :: string where
  "HTTP_HEADER_TRANSFER_ENCODING = ''transfer-encoding''"
definition HTTP_HEADER_CONTENT_DISPOSITION :: string where
  "HTTP_HEADER_CONTENT_DISPOSITION = ''content-disposition''"
definition HTTP_HEADER_REFRESH :: string where "HTTP_HEADER_REFRESH = ''refresh''"

lemmas http_header_defs = HTTP_HEADER_CONTENT_TYPE_def HTTP_HEADER_CONTENT_LENGTH_def
  HTTP_HEADER_LOCATION_def HTTP_HEADER_ACCEPT_def HTTP_HEADER_USER_AGENT_def HTTP_HEADER_REFERER_def
  HTTP_HEADER_CONNECTION_def HTTP_HEADER_TRANSFER_ENCODING_def HTTP_HEADER_CONTENT_DISPOSITION_def
  HTTP_HEADER_REFRESH_def

definition MIME_TYPE_JPEG :: string where "MIME_TYPE_JPEG = ''image/jpeg''"
definition MIME_TYPE_PDF :: string where "MIME_TYPE_PDF = ''application/pdf''"
definition MIME_TYPE_PNG :: string where "MIME_TYPE_PNG = ''image/png''"

lemmas mime_type_defs = MIME_TYPE_JPEG_def MIME_TYPE_PDF_def MIME_TYPE_PNG_def

subsection \<open>Normalisation\<close>

definition ctolower :: "string \<Rightarrow> string" where
  "ctolower s = map to_lower s"

text \<open>Despite its name, \<open>ctrim\<close> drops every white space character, not only the outer ones.\<close>

definition ctrim :: "string \<Rightarrow> string" where
  "ctrim s = filter (\<lambda>c. \<not> is_space c) s"

lemma ctolower_idem [simp]: "ctolower (ctolower s) = ctolower s"
  by (simp add: ctolower_def)

lemma ctrim_idem [simp]: "ctrim (ctrim s) = ctrim s"
  by (simp add: ctrim_def)

lemma ctrim_append [simp]: "ctrim (a @ b) = ctrim a @ ctrim b"
  by (simp add: ctrim_def)

lemma ctrim_no_space: "c \<in> set (ctrim s) \<Longrightarrow> \<not> is_space c"
  by (simp add: ctrim_def)

lemma ctrim_id: "(\<forall>c \<in> set s. \<not> is_space c) \<Longrightarrow> ctrim s = s"
  by (simp add: ctrim_def)

lemma is_space_to_lower [simp]: "is_space (to_lower c) \<longleftrightarrow> is_space c"
  by (auto simp: is_space_code of_char_to_lower)

lemma ctrim_ctolower: "ctrim (ctolower s) = ctolower (ctrim s)"
  by (induction s) (simp_all add: ctrim_def ctolower_def)

text \<open>A header name in the form it is stored and compared in.\<close>

definition norm_key :: "string \<Rightarrow> string" where
  "norm_key k = ctolower (ctrim k)"

lemma norm_key_idem [simp]: "norm_key (norm_key k) = norm_key k"
  by (simp add: norm_key_def ctrim_ctolower)

subsection \<open>Form data\<close>

definition hexdecode :: "string \<Rightarrow> int" where
  "hexdecode s = strtol 16 s"

definition char_of_long :: "int \<Rightarrow> char" where
  "char_of_long v = char_of (nat (v mod 256))"

fun urldecode :: "string \<Rightarrow> string" where
  "urldecode [] = []"
| "urldecode (c # cs) =
     (if c = CHR ''%'' then
        (case cs of
           a # r \<Rightarrow>
             if a = CHR ''%'' then CHR ''%'' # urldecode r
             else (case r of
                     b # r' \<Rightarrow> char_of_long (hexdecode [a, b]) # urldecode r'
                   | [] \<Rightarrow> urldecode cs)
         | [] \<Rightarrow> urldecode cs)
      else if c = CHR ''+'' then CHR '' '' # urldecode cs
      else c # urldecode cs)"

text \<open>The encoder of a client, byte by byte, as reference for the decoder.\<close>

definition percent_encode :: "string \<Rightarrow> string" where
  "percent_encode s =
     concat (map (\<lambda>c. [CHR ''%'', digit_char (of_char c div 16), digit_char (of_char c mod 16)]) s)"

lemma hexdecode_two:
  assumes "a < 16" "b < 16"
  shows "hexdecode [digit_char a, digit_char b] = int (a * 16 + b)"
proof -
  have ns: "\<not> is_space (digit_char d) \<and> digit_char d \<noteq> CHR ''-'' \<and> digit_char d \<noteq> CHR ''+''
      \<and> digit_char d \<noteq> CHR ''x'' \<and> digit_char d \<noteq> CHR ''X''" if "d < 16" for d
    using that by (simp add: digit_char_not_space digit_char_neq)
  have "int a * 16 + int b < 2 ^ 63 - 1" using assms by simp
  then show ?thesis
    using ns[OF assms(1)] ns[OF assms(2)] assms
    by (auto simp: hexdecode_def strtol_def skip_ws_def Let_def)
qed

lemma urldecode_percent_char:
  "urldecode ([CHR ''%'', digit_char (of_char c div 16), digit_char (of_char c mod 16)] @ r) = c # urldecode r"
proof -
  have b: "(of_char c :: nat) < 16 * 16" by simp
  have d: "(of_char c :: nat) div 16 < 16" "(of_char c :: nat) mod 16 < 16"
    by (rule less_mult_imp_div_less[OF b]) simp
  have ne: "digit_char (of_char c div 16) \<noteq> CHR ''%''"
    using d(1) by (simp add: digit_char_neq)
  have "char_of_long (hexdecode [digit_char (of_char c div 16), digit_char (of_char c mod 16)]) = c"
    using d by (simp add: hexdecode_two char_of_long_def)
  with ne show ?thesis by simp
qed

subsection \<open>Static helpers\<close>

text \<open>
  \<open>url.find("/", pos + 3)\<close> may return \<open>npos\<close>, for which \<open>url.substr\<close> throws: an absolute URL
  without a path is an error.
\<close>

definition toRelativeUrl :: "string \<Rightarrow> string result" where
  "toRelativeUrl url =
     (case find_str ''://'' url of
        Some pos \<Rightarrow>
          (case find_from url ''/'' (pos + 3) of
             Some p \<Rightarrow> substr_from url p
           | None \<Rightarrow> Inl OutOfRange)
      | None \<Rightarrow> Inr url)"

definition statusReason :: "int \<Rightarrow> string" where
  "statusReason status =
     (if status = HTTP_OK then ''OK''
      else if status = HTTP_CREATED then ''Created''
      else if status = HTTP_BAD_REQUEST then ''Bad Request''
      else if status = HTTP_NOT_FOUND then ''Not Found''
      else if status = HTTP_METHOD_NOT_ALLOWED then ''Method Not Allowed''
      else if status = HTTP_SERVICE_UNAVAILABLE then ''Service Unavailable''
      else ''Unknown Reason'')"

definition fileExtension :: "string \<Rightarrow> string" where
  "fileExtension mimeType =
     (if mimeType = MIME_TYPE_JPEG then ''.jpg''
      else if mimeType = MIME_TYPE_PDF then ''.pdf''
      else if mimeType = MIME_TYPE_PNG then ''.png''
      else [])"

lemma toRelativeUrl_relative: "find_str ''://'' url = None \<Longrightarrow> toRelativeUrl url = Inr url"
  by (simp add: toRelativeUrl_def)

lemma toRelativeUrl_absolute:
  assumes "CHR '':'' \<notin> set proto" "CHR ''/'' \<notin> set host"
  shows "toRelativeUrl (proto @ ''://'' @ host @ CHR ''/'' # path) = Inr (CHR ''/'' # path)"
    and "toRelativeUrl (proto @ ''://'' @ host) = Inl OutOfRange"
proof -
  have f: "find_str ''://'' (proto @ ''://'' @ r) = Some (length proto)" for r
    using find_str_append_first[OF assms(1), of "''//''" r] by simp
  have g: "find_from (proto @ ''://'' @ r) ''/'' (length proto + 3) =
      map_option (\<lambda>i. length proto + 3 + i) (find_str ''/'' r)" for r
    using find_from_length[of "proto @ ''://''" r "''/''"] by (simp add: numeral_3_eq_3)
  show "toRelativeUrl (proto @ ''://'' @ host @ CHR ''/'' # path) = Inr (CHR ''/'' # path)"
    unfolding toRelativeUrl_def f option.case g
    by (simp add: find_str_singleton_append[OF assms(2)] substr_from_def eval_nat_numeral)
  have "find_str ''/'' host = None" using assms(2) by (simp add: find_str_singleton_None_iff)
  then show "toRelativeUrl (proto @ ''://'' @ host) = Inl OutOfRange"
    unfolding toRelativeUrl_def f option.case g by simp
qed

end
