(* ===== verification/AccessFile.thy ===== *)
theory AccessFile
  imports HttpText
begin

unbundle bit_operations_syntax

text \<open>
  \<open>src/web/accessfile.cpp\<close>: the rules of the access file and the decision whether a client may connect.

  Addresses are byte lists in network order. \<open>inet_pton\<close> and \<open>getifaddrs\<close> are parameters. A network of
  which the code leaves address and mask uninitialised is \<open>None\<close>; comparing with it is the error
  \<open>Uninitialized\<close>.
\<close>

subsection \<open>Addresses and masks\<close>

datatype sockaddr = Inet "8 word list" | Inet6 "8 word list" | UnixAddr string | OtherFamily

fun same_family :: "sockaddr \<Rightarrow> sockaddr \<Rightarrow> bool" where
  "same_family (Inet _) (Inet _) = True"
| "same_family (Inet6 _) (Inet6 _) = True"
| "same_family (UnixAddr _) (UnixAddr _) = True"
| "same_family OtherFamily OtherFamily = True"
| "same_family _ _ = False"

definition mask_bytes :: "nat \<Rightarrow> int \<Rightarrow> 8 word list" where
  "mask_bytes n bits =
     fold (\<lambda>i d. d[i div 8 := (d ! (i div 8)) OR push_bit (i mod 8) 1]) [0..<nat bits] (replicate n 0)"

text \<open>\<open>SetMaskBits\<close> returns whether it changed the mask.\<close>

definition SetMaskBits :: "sockaddr \<Rightarrow> int \<Rightarrow> bool \<times> sockaddr" where
  "SetMaskBits m bits = (case m of
       Inet d \<Rightarrow> if bits > 32 then (False, m) else (True, Inet (mask_bytes 4 bits))
     | Inet6 d \<Rightarrow> if bits > 128 then (False, m) else (True, Inet6 (mask_bytes 16 bits))
     | _ \<Rightarrow> (False, m))"

definition masked_equal :: "8 word list \<Rightarrow> 8 word list \<Rightarrow> 8 word list \<Rightarrow> nat \<Rightarrow> bool" where
  "masked_equal d1 d2 m n = list_all (\<lambda>i. d1 ! i AND m ! i = d2 ! i AND m ! i) [0..<n]"

fun MatchAddresses :: "sockaddr \<Rightarrow> sockaddr \<Rightarrow> sockaddr \<Rightarrow> bool result" where
  "MatchAddresses (Inet a) (Inet b) (Inet m) = Inr (masked_equal a b m 4)"
| "MatchAddresses (Inet6 a) (Inet6 b) (Inet6 m) = Inr (masked_equal a b m 16)"
| "MatchAddresses a b m =
     (if \<not> same_family a b then Inr False
      else if \<not> same_family b m then Inl AssertFailure
      else Inr True)"

subsection \<open>Rules\<close>

datatype rule_kind = NoMatch | Allow | Deny

type_synonym network = "(sockaddr \<times> sockaddr) option"

record entry =
  en_kind :: rule_kind
  en_rule :: string
  en_networks :: "network list"

text \<open>\<open>ae_ifaddrs\<close>: name, address (unless null) and mask of each interface, or \<open>None\<close> on failure.\<close>

record access_env =
  ae_pton4 :: "string \<Rightarrow> 8 word list option"
  ae_pton6 :: "string \<Rightarrow> 8 word list option"
  ae_ifaddrs :: "(string \<times> sockaddr option \<times> sockaddr) list option"

definition interface_network :: "sockaddr \<Rightarrow> sockaddr \<Rightarrow> network" where
  "interface_network a m = (case a of Inet _ \<Rightarrow> Some (a, m) | Inet6 _ \<Rightarrow> Some (a, m) | _ \<Rightarrow> None)"

definition interface_networks :: "access_env \<Rightarrow> string \<Rightarrow> network list option" where
  "interface_networks env ifname =
     (case ae_ifaddrs env of None \<Rightarrow> None
      | Some ifs \<Rightarrow>
          let ns = concat (map (\<lambda>(name, addr, m). case addr of None \<Rightarrow> []
                | Some a \<Rightarrow> if ifname = ''*'' \<or> ifname = name then [interface_network a m] else []) ifs)
          in if ns = [] then None else Some ns)"

text \<open>An address with an optional prefix length. The result of \<open>SetMaskBits\<close> is not looked at.\<close>

definition address_network :: "access_env \<Rightarrow> string \<Rightarrow> network list option" where
  "address_network env rule =
     (let (bits, address) = (case rfind_char (CHR ''/'') rule of
             None \<Rightarrow> (- 1, rule) | Some pos \<Rightarrow> (atoi (drop (pos + 1) rule), take pos rule))
      in case ae_pton4 env address of
           Some d \<Rightarrow> Some [Some (Inet d, snd (SetMaskBits (Inet d) (if bits = - 1 then 32 else bits)))]
         | None \<Rightarrow> (case ae_pton6 env address of
             Some d \<Rightarrow> Some [Some (Inet6 d, snd (SetMaskBits (Inet6 d) (if bits = - 1 then 128 else bits)))]
           | None \<Rightarrow> None))"

definition entry_parse :: "access_env \<Rightarrow> string \<Rightarrow> entry option" where
  "entry_parse env line =
     (case extract_word line of None \<Rightarrow> None
      | Some (kind, rest) \<Rightarrow>
          let k = (if ctolower kind = ''allow'' then Allow else if ctolower kind = ''deny'' then Deny else NoMatch);
              rule = (case getline chr_nl (skip_ws rest) of None \<Rightarrow> [] | Some (r, _) \<Rightarrow> r)
          in if k = NoMatch then None
             else if prefix ''local on '' rule then
               (let ifname = drop (length ''local on '') rule in
                if ifname = [] then None
                else map_option (\<lambda>ns. \<lparr>en_kind = k, en_rule = rule, en_networks = ns\<rparr>) (interface_networks env ifname))
             else map_option (\<lambda>ns. \<lparr>en_kind = k, en_rule = rule, en_networks = ns\<rparr>) (address_network env rule))"

fun networks_match :: "sockaddr \<Rightarrow> network list \<Rightarrow> bool result" where
  "networks_match addr [] = Inr False"
| "networks_match addr (n # ns) =
     (case n of None \<Rightarrow> Inl Uninitialized
      | Some (a, m) \<Rightarrow>
          bind_result (MatchAddresses addr a m) (\<lambda>b. if b then Inr True else networks_match addr ns))"

definition entry_match :: "sockaddr \<Rightarrow> entry \<Rightarrow> rule_kind result" where
  "entry_match addr e = bind_result (networks_match addr (en_networks e)) (\<lambda>b. Inr (if b then en_kind e else NoMatch))"

subsection \<open>The access file\<close>

record access_file =
  af_entries :: "entry list"
  af_errors :: string

definition trim_line :: "string \<Rightarrow> string" where
  "trim_line s = rev (dropWhile is_space (rev (dropWhile is_space s)))"

definition access_line :: "access_env \<Rightarrow> string \<Rightarrow> access_file \<Rightarrow> access_file" where
  "access_line env raw f =
     (let line = trim_line raw in
      if line = [] \<or> hd line = CHR ''#'' then f
      else case entry_parse env line of
             None \<Rightarrow> f\<lparr>af_errors := af_errors f @ ''illegal entry in access file: '' @ line @ nl\<rparr>
           | Some e \<Rightarrow> f\<lparr>af_entries := af_entries f @ [e]\<rparr>)"

text \<open>The file's contents, or \<open>None\<close> when there is no path or no such file.\<close>

definition AccessFile_read :: "access_env \<Rightarrow> string option \<Rightarrow> access_file" where
  "AccessFile_read env contents =
     (let f = \<lparr>af_entries = [], af_errors = []\<rparr> in
      case contents of None \<Rightarrow> f | Some s \<Rightarrow> fold (access_line env) (lines_of chr_nl s) f)"

fun first_match :: "sockaddr \<Rightarrow> entry list \<Rightarrow> bool result" where
  "first_match addr [] = Inr False"
| "first_match addr (e # es) =
     bind_result (entry_match addr e) (\<lambda>k.
       if k = Allow then Inr True else if k = Deny then Inr False else first_match addr es)"

definition isAllowed :: "access_file \<Rightarrow> sockaddr \<Rightarrow> bool result" where
  "isAllowed f addr = (if af_entries f = [] then Inr True else first_match addr (af_entries f))"

subsection \<open>Masks\<close>

lemma mask_bytes_length [simp]: "length (mask_bytes n bits) = n"
proof -
  have "length (fold (\<lambda>i d. d[i div 8 := (d ! (i div 8)) OR push_bit (i mod 8) 1]) xs d) = length d"
    for xs :: "nat list" and d :: "8 word list"
    by (induction xs arbitrary: d) simp_all
  then show ?thesis by (simp add: mask_bytes_def)
qed

lemma mask_8: "mask 8 = (- 1 :: 8 word)"
  by code_simp

text \<open>Byte \<open>j\<close> of the mask has the bits of the prefix that fall into it, least significant bits first.\<close>

lemma mask_bytes_nth:
  "k \<le> 8 * n \<Longrightarrow> j < n \<Longrightarrow> mask_bytes n (int k) ! j = mask (min 8 (k - 8 * j))"
proof (induction k arbitrary: j)
  case 0
  then show ?case by (simp add: mask_bytes_def)
next
  case (Suc k)
  let ?d = "mask_bytes n (int k)"
  have step: "mask_bytes n (int (Suc k)) = ?d[k div 8 := (?d ! (k div 8)) OR push_bit (k mod 8) 1]"
    by (simp add: mask_bytes_def nat_add_distrib)
  have k: "k div 8 < n" using Suc.prems(1) by linarith
  show ?case
  proof (cases "j = k div 8")
    case True
    have "min 8 (k - 8 * (k div 8)) = k mod 8" "min 8 (Suc k - 8 * (k div 8)) = Suc (k mod 8)"
      by (simp_all add: minus_mult_div_eq_mod min_def) (use mod_less_divisor[of 8 k] minus_mult_div_eq_mod[of k 8] in linarith)+
    then show ?thesis unfolding step using Suc True k
      by (simp add: mask_Suc_exp push_bit_of_1 or.commute)
  next
    case False
    then consider "Suc j \<le> k div 8" | "k div 8 < j" by linarith
    then have "Suc j * 8 \<le> k \<or> k < j * 8"
      by cases (simp_all add: less_eq_div_iff_mult_less_eq div_less_iff_less_mult)
    then have "min 8 (Suc k - 8 * j) = min 8 (k - 8 * j)" by auto
    then show ?thesis unfolding step using Suc False k by simp
  qed
qed

lemma masked_equal_prefix:
  assumes "k \<le> 8 * n"
  shows "masked_equal a b (mask_bytes n (int k)) n \<longleftrightarrow>
    (\<forall>j < n. take_bit (min 8 (k - 8 * j)) (a ! j) = take_bit (min 8 (k - 8 * j)) (b ! j))"
  using assms by (auto simp: masked_equal_def list_all_iff mask_bytes_nth take_bit_eq_mask)

lemma take_bit_8: "take_bit 8 (x :: 8 word) = x"
  by (simp add: take_bit_eq_mask mask_8)

text \<open>A prefix of whole bytes.\<close>

lemma masked_equal_bytes:
  assumes "m \<le> n" "length a = n" "length b = n"
  shows "masked_equal a b (mask_bytes n (int (8 * m))) n \<longleftrightarrow> take m a = take m b"
proof -
  have "take_bit (min 8 (8 * m - 8 * j)) x = (if j < m then x else 0)" for j and x :: "8 word"
  proof (cases "j < m")
    case True
    then have "8 \<le> 8 * m - 8 * j" by linarith
    with True show ?thesis by (simp add: min_def take_bit_8)
  qed simp
  then have "masked_equal a b (mask_bytes n (int (8 * m))) n \<longleftrightarrow> (\<forall>j < m. a ! j = b ! j)"
    using assms(1) by (subst masked_equal_prefix) auto
  also have "\<dots> \<longleftrightarrow> take m a = take m b" using assms by (auto simp: list_eq_iff_nth_eq)
  finally show ?thesis .
qed

subsection \<open>Properties\<close>

text \<open>The rule that decides: the first one that matches.\<close>

fun deciding :: "sockaddr \<Rightarrow> entry list \<Rightarrow> entry option" where
  "deciding addr [] = None"
| "deciding addr (e # es) =
     (if \<exists>n \<in> set (en_networks e). \<exists>a m. n = Some (a, m) \<and> MatchAddresses addr a m = Inr True
      then Some e else deciding addr es)"

definition rules_ok :: "sockaddr \<Rightarrow> entry list \<Rightarrow> bool" where
  "rules_ok addr es \<longleftrightarrow> (\<forall>e \<in> set es. en_kind e \<noteq> NoMatch \<and>
     (\<forall>n \<in> set (en_networks e). \<exists>a m. n = Some (a, m) \<and> same_family a m))"

lemma MatchAddresses_defined: "same_family a m \<Longrightarrow> \<exists>b. MatchAddresses addr a m = Inr b"
  by (cases "(addr, a, m)" rule: MatchAddresses.cases) auto

lemma networks_match_iff:
  "\<forall>n \<in> set ns. \<exists>a m. n = Some (a, m) \<and> same_family a m \<Longrightarrow>
     networks_match addr ns = Inr (\<exists>n \<in> set ns. \<exists>a m. n = Some (a, m) \<and> MatchAddresses addr a m = Inr True)"
proof (induction ns)
  case (Cons n ns)
  then obtain a m where n: "n = Some (a, m)" "same_family a m" by auto
  obtain b where b: "MatchAddresses addr a m = Inr b" using MatchAddresses_defined[OF n(2)] by blast
  with n Cons show ?case by (cases b) auto
qed simp

lemma first_match_deciding:
  "rules_ok addr es \<Longrightarrow>
     first_match addr es = Inr (case deciding addr es of None \<Rightarrow> False | Some e \<Rightarrow> en_kind e = Allow)"
proof (induction es)
  case (Cons e es)
  then have ok: "\<forall>n \<in> set (en_networks e). \<exists>a m. n = Some (a, m) \<and> same_family a m" "en_kind e \<noteq> NoMatch"
    "rules_ok addr es"
    by (auto simp: rules_ok_def)
  with Cons.IH show ?case
    by (cases "en_kind e") (auto simp: entry_match_def networks_match_iff[OF ok(1)])
qed simp


definition lan_rules :: "entry list" where
  "lan_rules =
     [\<lparr>en_kind = Deny, en_rule = ''192.168.1.7'', en_networks = [Some (Inet [192, 168, 1, 7], Inet (mask_bytes 4 32))]\<rparr>,
      \<lparr>en_kind = Allow, en_rule = ''192.168.0.0/16'', en_networks = [Some (Inet [192, 168, 0, 0], Inet (mask_bytes 4 16))]\<rparr>]"


lemma atoi_dec_nat: "n < 2 ^ 31 \<Longrightarrow> atoi (dec_nat n) = int n"
proof -
  assume n: "n < 2 ^ 31"
  have r: "fst (read_digits 10 0 (dec_nat n)) = n" using digits_val_dec_nat by (simp add: digits_val_def)
  have s: "skip_ws (dec_nat n) = dec_nat n" using dec_nat_start(1)[of n "[]"] by simp
  have m: "(case dec_nat n of [] \<Rightarrow> (False, []) | c # cs \<Rightarrow> if c = CHR ''-'' then (True, cs)
      else if c = CHR ''+'' then (False, cs) else (False, dec_nat n)) = (False, dec_nat n)"
    using dec_nat_start(2)[of n "[]"] by (simp add: read_sign_def split: list.splits if_splits)
  have "int n < 2 ^ 31" using n by (simp flip: of_nat_less_iff)
  then show ?thesis unfolding atoi_def strtol_def Let_def s m prod.case using r by (simp add: wrap32_def)
qed

lemma dec_nat_no_slash: "CHR ''/'' \<notin> set (dec_nat n)"
  using dec_nat_digits[of "CHR ''/''" n] by (auto simp: is_digit_def)

lemma address_network_prefix:
  assumes "ae_pton4 env address = Some net" "k < 2 ^ 31"
  shows "address_network env (address @ ''/'' @ dec_nat k) =
    Some [Some (Inet net, snd (SetMaskBits (Inet net) (int k)))]"
  using assms rfind_char_last[OF dec_nat_no_slash[of k], of address]
  by (simp add: address_network_def atoi_dec_nat)

text \<open>A prefix length that is a multiple of eight selects the network that CIDR notation names: an
  IPv4 address matches the rule \<open>a.b.c.d/8m\<close> exactly when its first \<open>m\<close> bytes are those of the rule.\<close>

theorem access_prefix_bytes:
  assumes "ae_pton4 env address = Some net" and "length net = 4" and "length addr = 4" and "m \<le> 4"
  shows "\<exists>msk. address_network env (address @ ''/'' @ dec_nat (8 * m)) = Some [Some (Inet net, msk)] \<and>
    MatchAddresses (Inet addr) (Inet net) msk = Inr (take m addr = take m net)"
proof -
  have "address_network env (address @ ''/'' @ dec_nat (8 * m)) =
      Some [Some (Inet net, Inet (mask_bytes 4 (int (8 * m))))]"
    using address_network_prefix[OF assms(1), of "8 * m"] assms(4) by (simp add: SetMaskBits_def)
  then show ?thesis using masked_equal_bytes[of m 4 addr net] assms(2-4) by simp
qed

definition test_env :: access_env where
  "test_env = \<lparr>ae_pton4 = (\<lambda>s. if s = ''192.168.0.0'' then Some [192, 168, 0, 0] else None),
     ae_pton6 = (\<lambda>s. if s = ''fe80::'' then Some [0xfe, 0x80, 0, 0, 0, 0, 0, 0, 0, 0, 0, 0, 0, 0, 0, 0] else None),
     ae_ifaddrs = Some [(''lo'', Some OtherFamily, OtherFamily)]\<rparr>"

theorem access_prefix_bytes_witness:
  "\<exists>msk. address_network test_env (''192.168.0.0'' @ ''/'' @ dec_nat (8 * 2)) = Some [Some (Inet [192, 168, 0, 0], msk)] \<and>
     MatchAddresses (Inet [192, 168, 7, 9]) (Inet [192, 168, 0, 0]) msk = Inr True"
  using access_prefix_bytes[of test_env "''192.168.0.0''" "[192, 168, 0, 0]" "[192, 168, 7, 9]" 2]
  by (simp add: test_env_def)

text \<open>A prefix length that is not a multiple of eight selects another network than CIDR notation
  names, because the bits of a byte are taken from the least significant one on. The rule \<open>fe80::/10\<close> does
  not match the link-local address \<open>febf::\<close>, which is in that network, and matches \<open>fe04::\<close>, which is not.\<close>

theorem access_link_local:
  "\<exists>msk. address_network test_env ''fe80::/10'' = Some [Some (Inet6 ([0xfe, 0x80] @ replicate 14 0), msk)] \<and>
     MatchAddresses (Inet6 ([0xfe, 0xbf] @ replicate 14 0)) (Inet6 ([0xfe, 0x80] @ replicate 14 0)) msk = Inr False \<and>
     MatchAddresses (Inet6 ([0xfe, 0x04] @ replicate 14 0)) (Inet6 ([0xfe, 0x80] @ replicate 14 0)) msk = Inr True"
proof -
  have "address_network test_env ''fe80::/10'' =
      Some [Some (Inet6 ([0xfe, 0x80] @ replicate 14 0), Inet6 (mask_bytes 16 10))]"
    by code_simp
  moreover have "masked_equal ([0xfe, 0xbf] @ replicate 14 0) ([0xfe, 0x80] @ replicate 14 0) (mask_bytes 16 10) 16 = False"
    "masked_equal ([0xfe, 0x04] @ replicate 14 0) ([0xfe, 0x80] @ replicate 14 0) (mask_bytes 16 10) 16 = True"
    by code_simp+
  ultimately show ?thesis by simp
qed

text \<open>A prefix length that is too large is accepted, and opens the rule instead of closing it: the
  mask then is the address itself, so every client matches whose address has at least the bits of the
  rule's address set.\<close>

theorem access_prefix_too_long:
  assumes "ae_pton4 env address = Some net" and "32 < k" and "k < 2 ^ 31"
  shows "address_network env (address @ ''/'' @ dec_nat k) = Some [Some (Inet net, Inet net)] \<and>
    (MatchAddresses (Inet addr) (Inet net) (Inet net) = Inr True \<longleftrightarrow> (\<forall>i < 4. addr ! i AND net ! i = net ! i))"
  using address_network_prefix[OF assms(1,3)] assms(2)
  by (auto simp: SetMaskBits_def masked_equal_def list_all_iff)

theorem access_prefix_too_long_witness:
  "address_network test_env (''192.168.0.0'' @ ''/'' @ dec_nat 33) =
     Some [Some (Inet [192, 168, 0, 0], Inet [192, 168, 0, 0])]"
  using access_prefix_too_long[of test_env "''192.168.0.0''" "[192, 168, 0, 0]" 33] by (simp add: test_env_def)

text \<open>A rule for a network interface reads an uninitialised address when the interface has an entry
  that is neither IPv4 nor IPv6: such an entry makes a network whose address and mask are never set. If
  the system lists it first, as Linux does, judging a client by that rule is undefined, whoever it is.\<close>

theorem access_interface_uninitialised:
  assumes "ae_ifaddrs env = Some ((''eth0'', Some OtherFamily, m) # ifs)"
  shows "\<exists>e. entry_parse env ''allow local on eth0'' = Some e \<and>
    isAllowed \<lparr>af_entries = [e], af_errors = []\<rparr> addr = Inl Uninitialized"
proof -
  have "extract_word ''allow local on eth0'' = Some (''allow'', '' local on eth0'')"
    "getline chr_nl (skip_ws '' local on eth0'') = Some (''local on eth0'', [])"
    "ctolower ''allow'' = ''allow''" by code_simp+
  then show ?thesis using assms
    by (simp add: entry_parse_def interface_networks_def interface_network_def Let_def isAllowed_def entry_match_def)
qed

theorem access_interface_uninitialised_witness:
  "\<exists>e. entry_parse (test_env\<lparr>ae_ifaddrs := Some [(''eth0'', Some OtherFamily, OtherFamily)]\<rparr>) ''allow local on eth0'' = Some e \<and>
     isAllowed \<lparr>af_entries = [e], af_errors = []\<rparr> (Inet [10, 0, 0, 1]) = Inl Uninitialized"
  by (rule access_interface_uninitialised[where m = OtherFamily and ifs = "[]"]) simp

end
