(* ===== verification/HttpMessage.thy ===== *)
theory HttpMessage
  imports HttpText
begin

text \<open>
  Requests and responses of \<open>src/web/httpserver.cpp\<close>: the parser \<open>Request::Request\<close> with its lazily
  read content and form data, \<open>Response\<close> with its header dictionary, and the chunked transfer encoding
  of \<open>Response::Chunkstream\<close>.

  An output stream is modelled by what was handed to it (\<open>os_data\<close>), its failure state (\<open>os_fail\<close>),
  the outcomes of its future flushes that have something to write (\<open>os_flushes\<close>, all successful when the
  list is used up) and the positions at which it was flushed (\<open>os_cuts\<close>): the
  environment decides when the peer stops accepting data. A failed stream ignores output.
\<close>

subsection \<open>Output streams\<close>

record ostream =
  os_data :: string
  os_fail :: bool
  os_flushes :: "bool list"
  os_cuts :: "nat list"

definition os_put :: "string \<Rightarrow> ostream \<Rightarrow> ostream" where
  "os_put s os = (if os_fail os then os else os\<lparr>os_data := os_data os @ s\<rparr>)"

definition os_flush :: "ostream \<Rightarrow> ostream" where
  "os_flush os =
     (if os_fail os \<or> last (0 # os_cuts os) = length (os_data os) then os
      else let os' = os\<lparr>os_cuts := os_cuts os @ [length (os_data os)]\<rparr> in
           case os_flushes os of
             [] \<Rightarrow> os'
           | ok # oks \<Rightarrow> os'\<lparr>os_fail := \<not> ok, os_flushes := oks\<rparr>)"

text \<open>\<open>os.tellp()\<close> is \<open>-1\<close> on a failed stream; \<open>fdbuf::seekoff\<close> reports all bytes put so far.\<close>

definition os_tellp :: "ostream \<Rightarrow> int" where
  "os_tellp os = (if os_fail os then - 1 else int (length (os_data os)))"

text \<open>A stream whose flushes all succeed.\<close>

definition os_reliable :: "ostream \<Rightarrow> bool" where
  "os_reliable os \<longleftrightarrow> \<not> os_fail os \<and> (\<forall>ok \<in> set (os_flushes os). ok)"

lemma os_put_reliable [simp]:
  "os_reliable os \<Longrightarrow> os_reliable (os_put s os)"
  "os_reliable os \<Longrightarrow> os_data (os_put s os) = os_data os @ s"
  by (auto simp: os_reliable_def os_put_def)

lemma os_flush_cases:
  obtains "os_flush os = os"
  | c where "os_flush os = os\<lparr>os_cuts := c\<rparr>"
  | c ok oks where "os_flushes os = ok # oks" "os_flush os = os\<lparr>os_cuts := c, os_fail := \<not> ok, os_flushes := oks\<rparr>"
proof (cases "os_fail os \<or> last (0 # os_cuts os) = length (os_data os)")
  case True
  then have "os_flush os = os" unfolding os_flush_def by (simp only: if_True)
  with that(1) show ?thesis .
next
  case False
  then show ?thesis using that(2,3) unfolding os_flush_def Let_def by (cases "os_flushes os") simp_all
qed

lemma os_flush_reliable [simp]:
  "os_reliable os \<Longrightarrow> os_reliable (os_flush os)"
  "os_reliable os \<Longrightarrow> os_data (os_flush os) = os_data os"
proof -
  have keep: "os_reliable (os'\<lparr>os_cuts := c\<rparr>) = os_reliable os'" for os' :: ostream and c
    by (simp add: os_reliable_def)
  show "os_reliable os \<Longrightarrow> os_reliable (os_flush os)"
    by (cases os rule: os_flush_cases) (auto simp: keep os_reliable_def)
  show "os_reliable os \<Longrightarrow> os_data (os_flush os) = os_data os"
    by (cases os rule: os_flush_cases) simp_all
qed

lemma os_reliable_not_fail [simp]: "os_reliable os \<Longrightarrow> \<not> os_fail os"
  by (simp add: os_reliable_def)

lemma os_data_put_prefix: "prefix (os_data os) (os_data (os_put s os))"
  by (simp add: os_put_def)

lemma os_data_flush [simp]: "os_data (os_flush os) = os_data os"
  by (simp add: os_flush_def Let_def split: list.split)

subsection \<open>Chunked transfer encoding\<close>

text \<open>
  \<open>chunkbuf\<close>: a string buffer, the number of bytes already sent as chunks, and the failure state of the
  \<open>Chunkstream\<close> wrapped around it. The stream below it is passed along.
\<close>

record chunkbuf =
  cb_str :: string
  cb_total :: nat
  cb_fail :: bool

definition chunk_init :: chunkbuf where
  "chunk_init = \<lparr>cb_str = [], cb_total = 0, cb_fail = False\<rparr>"

text \<open>\<open>chunkbuf::sync\<close>; the boolean is its result \<open>0\<close> (\<open>True\<close>) or \<open>-1\<close>.\<close>

definition chunk_sync :: "chunkbuf \<Rightarrow> ostream \<Rightarrow> chunkbuf \<times> ostream \<times> bool" where
  "chunk_sync cb os =
     (let s = cb_str cb;
          (cb', os') =
            (if s = [] then (cb, os)
             else (cb\<lparr>cb_total := cb_total cb + length s, cb_str := []\<rparr>,
                   os_flush (os_put crlf (os_put s (os_put crlf (os_put (hex_nat (length s)) os))))))
      in (cb', os', \<not> os_fail os'))"

definition chunk_put :: "string \<Rightarrow> chunkbuf \<Rightarrow> chunkbuf" where
  "chunk_put s cb = (if cb_fail cb then cb else cb\<lparr>cb_str := cb_str cb @ s\<rparr>)"

definition chunk_flush :: "chunkbuf \<Rightarrow> ostream \<Rightarrow> chunkbuf \<times> ostream" where
  "chunk_flush cb os =
     (if cb_fail cb then (cb, os)
      else let (cb', os', ok) = chunk_sync cb os in (cb'\<lparr>cb_fail := \<not> ok\<rparr>, os'))"

definition chunk_tellp :: "chunkbuf \<Rightarrow> int" where
  "chunk_tellp cb = (if cb_fail cb then - 1 else int (cb_total cb + length (cb_str cb)))"

text \<open>\<open>chunkbuf::~chunkbuf\<close>: what is left is sent, then the last chunk.\<close>

definition chunk_close :: "chunkbuf \<Rightarrow> ostream \<Rightarrow> ostream" where
  "chunk_close cb os =
     (let (cb', os', ok) = chunk_sync cb os
      in os_flush (os_put (''0'' @ crlf @ crlf) os'))"

text \<open>A decoder for the chunked encoding of RFC 7230 (no extensions, no trailers), as reference.\<close>

fun unchunk :: "nat \<Rightarrow> string \<Rightarrow> string option" where
  "unchunk 0 s = None"
| "unchunk (Suc fuel) s =
     (let (n, r) = read_digits 16 0 s in
      if take 2 r \<noteq> crlf then None
      else if n = 0 then (if drop 2 r = crlf then Some [] else None)
      else if length r < n + 4 \<or> take 2 (drop (n + 2) r) \<noteq> crlf then None
      else map_option (\<lambda>x. take n (drop 2 r) @ x) (unchunk fuel (drop (n + 4) r)))"

text \<open>Every chunk takes at least one byte of input, so its length is fuel enough.\<close>

definition unchunk_all :: "string \<Rightarrow> string option" where
  "unchunk_all s = unchunk (length s) s"

definition chunk_of :: "string \<Rightarrow> string" where
  "chunk_of s = (if s = [] then [] else hex_nat (length s) @ crlf @ s @ crlf)"

lemma chunk_sync_reliable:
  assumes "os_reliable os"
  shows "chunk_sync cb os = (cb', os', ok) \<Longrightarrow>
    os_reliable os' \<and> ok \<and> os_data os' = os_data os @ chunk_of (cb_str cb) \<and> cb_str cb' = []
      \<and> cb_fail cb' = cb_fail cb \<and> cb_total cb' = cb_total cb + length (cb_str cb)"
  using assms by (auto simp: chunk_sync_def chunk_of_def Let_def split: if_splits)

lemma digit_val_cr [simp]: "digit_val chr_cr = None"
  by (simp add: digit_val_def)

lemma unchunk_chunk:
  assumes "s \<noteq> []"
  shows "unchunk (Suc fuel) (hex_nat (length s) @ crlf @ s @ crlf @ r) =
    map_option (\<lambda>x. s @ x) (unchunk fuel r)"
proof -
  have "read_digits 16 0 (hex_nat (length s) @ crlf @ s @ crlf @ r) =
      (length s, crlf @ s @ crlf @ r)"
    unfolding hex_nat_def by (rule num_str_read) (simp_all add: crlf_def)
  then show ?thesis using assms by (simp add: Let_def crlf_def eval_nat_numeral)
qed

lemma unchunk_last: "unchunk (Suc fuel) (''0'' @ crlf @ crlf) = Some []"
  by (simp add: Let_def crlf_def digit_val_def)

lemma unchunk_chunks:
  "length cs < fuel \<Longrightarrow>
     unchunk fuel (concat (map chunk_of cs) @ ''0'' @ crlf @ crlf) = Some (concat cs)"
proof (induction cs arbitrary: fuel)
  case Nil
  then obtain f where "fuel = Suc f" by (cases fuel) auto
  then show ?case using unchunk_last[of f] by simp
next
  case (Cons c cs)
  then obtain f where f: "fuel = Suc f" by (cases fuel) auto
  let ?rest = "concat (map chunk_of cs) @ ''0'' @ crlf @ crlf"
  show ?case
  proof (cases "c = []")
    case True
    with Cons.IH[of fuel] Cons.prems show ?thesis by (simp add: chunk_of_def del: unchunk.simps)
  next
    case False
    have "unchunk f ?rest = Some (concat cs)" using Cons.IH[of f] Cons.prems f by simp
    with False unchunk_chunk[OF False, of f ?rest] show ?thesis
      by (simp add: f chunk_of_def[of c] del: unchunk.simps)
  qed
qed

lemma chunk_of_ne_length: "[] \<notin> set cs \<Longrightarrow> length cs \<le> length (concat (map chunk_of cs))"
proof (induction cs)
  case (Cons c cs)
  then have "chunk_of c \<noteq> []" by (auto simp: chunk_of_def hex_nat_def)
  then have "1 \<le> length (chunk_of c)" by (cases "chunk_of c") auto
  with Cons show ?case by auto
qed simp

lemma unchunk_all_chunks:
  assumes "[] \<notin> set cs"
  shows "unchunk_all (concat (map chunk_of cs) @ ''0'' @ crlf @ crlf) = Some (concat cs)"
  unfolding unchunk_all_def using chunk_of_ne_length[OF assms]
  by (intro unchunk_chunks) (simp add: crlf_def)

text \<open>A sequence of writes and flushes on a \<open>Chunkstream\<close>.\<close>

datatype stream_op = Put string | Flush

fun chunk_run :: "stream_op list \<Rightarrow> chunkbuf \<Rightarrow> ostream \<Rightarrow> chunkbuf \<times> ostream" where
  "chunk_run [] cb os = (cb, os)"
| "chunk_run (Put s # ops) cb os = chunk_run ops (chunk_put s cb) os"
| "chunk_run (Flush # ops) cb os = (let (cb', os') = chunk_flush cb os in chunk_run ops cb' os')"

fun op_data :: "stream_op \<Rightarrow> string" where
  "op_data (Put s) = s" | "op_data Flush = []"

definition chunk_inv :: "string \<Rightarrow> string \<Rightarrow> chunkbuf \<Rightarrow> ostream \<Rightarrow> bool" where
  "chunk_inv base payload cb os \<longleftrightarrow>
     os_reliable os \<and> \<not> cb_fail cb \<and>
     (\<exists>cs. [] \<notin> set cs \<and> os_data os = base @ concat (map chunk_of cs) \<and>
           payload = concat cs @ cb_str cb \<and> cb_total cb = length (concat cs))"

lemma chunk_inv_put [inv_intros]:
  "chunk_inv base p cb os \<Longrightarrow> chunk_inv base (p @ s) (chunk_put s cb) os"
  by (auto simp: chunk_inv_def chunk_put_def)

lemma chunk_inv_sync:
  assumes "chunk_inv base p cb os" "chunk_sync cb os = (cb', os', ok)"
  shows "chunk_inv base p cb' os' \<and> ok \<and> cb_str cb' = []"
proof -
  from assms(1) obtain cs where cs: "os_reliable os" "\<not> cb_fail cb" "[] \<notin> set cs"
      "os_data os = base @ concat (map chunk_of cs)" "p = concat cs @ cb_str cb"
      "cb_total cb = length (concat cs)"
    by (auto simp: chunk_inv_def)
  let ?cs = "if cb_str cb = [] then cs else cs @ [cb_str cb]"
  from chunk_sync_reliable[OF cs(1) assms(2)] cs show ?thesis
    unfolding chunk_inv_def by (intro conjI exI[of _ ?cs]) (auto simp: chunk_of_def)
qed

lemma chunk_inv_flush [inv_intros]:
  assumes "chunk_inv base p cb os" "chunk_flush cb os = (cb', os')"
  shows "chunk_inv base p cb' os'"
proof -
  obtain cb1 os1 ok where s: "chunk_sync cb os = (cb1, os1, ok)" by (cases "chunk_sync cb os")
  have "\<not> cb_fail cb" using assms(1) by (simp add: chunk_inv_def)
  with assms(2) s have "cb' = cb1\<lparr>cb_fail := \<not> ok\<rparr>" "os' = os1" by (auto simp: chunk_flush_def)
  with chunk_inv_sync[OF assms(1) s] show ?thesis by (auto simp: chunk_inv_def)
qed

lemma chunk_inv_run:
  "chunk_inv base p cb os \<Longrightarrow> chunk_run ops cb os = (cb', os') \<Longrightarrow>
     chunk_inv base (p @ concat (map op_data ops)) cb' os'"
proof (induction ops cb os arbitrary: p rule: chunk_run.induct)
  case (2 s ops cb os)
  from "2.IH"[OF chunk_inv_put[OF "2.prems"(1)]] "2.prems"(2) show ?case by simp
next
  case (3 ops cb os)
  obtain cb1 os1 where f: "chunk_flush cb os = (cb1, os1)" by (cases "chunk_flush cb os")
  from "3.IH"[OF f[symmetric] refl chunk_inv_flush[OF "3.prems"(1) f]] "3.prems"(2) f show ?case by simp
qed simp

lemma chunk_inv_init: "os_reliable os \<Longrightarrow> chunk_inv (os_data os) [] chunk_init os"
  by (auto simp: chunk_inv_def chunk_init_def intro: exI[of _ "[]"])

lemma chunk_inv_close:
  assumes "chunk_inv base p cb os"
  shows "\<exists>enc. os_data (chunk_close cb os) = base @ enc \<and> unchunk_all enc = Some p"
proof -
  obtain cb1 os1 ok where s: "chunk_sync cb os = (cb1, os1, ok)" by (cases "chunk_sync cb os")
  from chunk_inv_sync[OF assms s] obtain cs where cs: "os_reliable os1" "[] \<notin> set cs"
      "os_data os1 = base @ concat (map chunk_of cs)" "p = concat cs"
    by (auto simp: chunk_inv_def)
  have "os_data (chunk_close cb os) = base @ (concat (map chunk_of cs) @ ''0'' @ crlf @ crlf)"
    using cs by (simp add: chunk_close_def s)
  with unchunk_all_chunks[OF cs(2)] cs(4) show ?thesis by blast
qed

text \<open>The position reported by \<open>tellp\<close> counts the payload, not the chunk framing.\<close>

lemma chunk_inv_tellp: "chunk_inv base p cb os \<Longrightarrow> chunk_tellp cb = int (length p)"
  by (auto simp: chunk_inv_def chunk_tellp_def)

end
