(* ===== verification/HttpRequest.thy ===== *)
theory HttpRequest
  imports HttpMessage
begin

text \<open>
  \<open>HttpServer::Request\<close> of \<open>src/web/httpserver.cpp\<close>: the constructor that parses the request line and
  the header fields, and the accessors that read the content from the stream on first use.
\<close>

record request =
  rq_stream :: string        \<comment> \<open>what is left in \<open>mStream\<close>\<close>
  rq_valid :: bool
  rq_method :: string
  rq_uri :: string
  rq_protocol :: string
  rq_logInfo :: string
  rq_headers :: dictionary
  rq_content :: string
  rq_formData :: dictionary

subsection \<open>Parsing\<close>

text \<open>
  \<open>std::istringstream(line) >> mMethod >> mUri >> mProtocol\<close>: the fields read so far keep their value
  when a later extraction fails.
\<close>

definition parse_request_line :: "string \<Rightarrow> bool \<times> string \<times> string \<times> string" where
  "parse_request_line line =
     (case extract_word line of
        None \<Rightarrow> (False, [], [], [])
      | Some (m, r1) \<Rightarrow>
          (case extract_word r1 of
             None \<Rightarrow> (False, m, [], [])
           | Some (u, r2) \<Rightarrow>
               (case extract_word r2 of
                  None \<Rightarrow> (False, m, u, [])
                | Some (p, _) \<Rightarrow> (True, m, u, p))))"

text \<open>The loop over the header lines: validity, headers and the rest of the stream.\<close>

function request_headers :: "string \<Rightarrow> dictionary \<Rightarrow> bool \<times> dictionary \<times> string" where
  "request_headers s d =
     (case getline chr_nl s of
        None \<Rightarrow> (True, d, [])
      | Some (line, r) \<Rightarrow>
          if line = [chr_cr] then (True, d, r)
          else if line = [] then (False, d, r)
          else if last line \<noteq> chr_cr then (False, d, r)
          else (case find_str '':'' line of
                  None \<Rightarrow> (False, d, r)
                | Some pos \<Rightarrow>
                    request_headers r
                      (dict_set d (ctolower (ctrim (take pos line))) (ctrim (drop (pos + 1) line)))))"
  by pat_completeness auto
termination
  by (relation "measure (\<lambda>(s, d). length s)") (auto dest: getline_SomeD)

declare request_headers.simps [simp del]

text \<open>A connection that is closed before it sent anything leaves the request valid and empty.\<close>

definition parse_request :: "string \<Rightarrow> request" where
  "parse_request s =
     (let (ok, m, u, p, s1) =
            (case getline chr_nl s of
               None \<Rightarrow> (True, [], [], [], [])
             | Some (line, r) \<Rightarrow> (let (ok, m, u, p) = parse_request_line line in (ok, m, u, p, r)));
          (valid, hs, s2) = (if ok then request_headers s1 [] else (False, [], s1))
      in \<lparr>rq_stream = s2, rq_valid = valid, rq_method = m, rq_uri = u, rq_protocol = p,
          rq_logInfo = [], rq_headers = hs, rq_content = [], rq_formData = []\<rparr>)"

subsection \<open>Accessors\<close>

definition request_header :: "request \<Rightarrow> string \<Rightarrow> string" where
  "request_header rq key = getString (rq_headers rq) (ctolower (ctrim key))"

definition contentLength :: "request \<Rightarrow> int result" where
  "contentLength rq =
     (if hasKey (rq_headers rq) HTTP_HEADER_CONTENT_LENGTH
      then int_of_dbl (getNumber (rq_headers rq) HTTP_HEADER_CONTENT_LENGTH)
      else Inr (- 1))"

text \<open>
  \<open>Request::content\<close>: the content is resized to the announced length (with zero bytes) before it is
  read, so a short stream leaves zero bytes at its end.
\<close>

definition request_content :: "request \<Rightarrow> (request \<times> string) result" where
  "request_content rq =
     bind_result (contentLength rq) (\<lambda>len.
       if rq_content rq = [] \<and> len \<ge> 0
       then (let n = nat len; got = take n (rq_stream rq);
                 c = got @ replicate (n - length got) (CHR 0x00);
                 rq' = rq\<lparr>rq_content := c, rq_stream := drop n (rq_stream rq)\<rparr>
             in Inr (rq', c))
       else Inr (rq, rq_content rq))"

definition hasFormData :: "request \<Rightarrow> bool result" where
  "hasFormData rq =
     (if request_header rq HTTP_HEADER_CONTENT_TYPE = ''application/x-www-form-urlencoded''
      then bind_result (contentLength rq) (\<lambda>len. Inr (len > 0))
      else Inr False)"

text \<open>One \<open>key=value\<close> entry; an entry without \<open>=\<close> is a key with an empty value.\<close>

definition form_entry :: "string \<Rightarrow> string \<times> string" where
  "form_entry entry =
     (case find_str ''='' entry of
        Some pos \<Rightarrow> (urldecode (take pos entry), urldecode (drop (pos + 1) entry))
      | None \<Rightarrow> (urldecode entry, urldecode []))"

definition request_formData :: "request \<Rightarrow> (request \<times> dictionary) result" where
  "request_formData rq =
     bind_result (hasFormData rq) (\<lambda>has.
       if has \<and> rq_formData rq = []
       then bind_result (request_content rq) (\<lambda>(rq', c).
              let d = fold (\<lambda>e d. let (k, v) = form_entry e in dict_set d k v)
                        (lines_of (CHR ''&'') c) (rq_formData rq')
              in Inr (rq'\<lparr>rq_formData := d\<rparr>, d))
       else Inr (rq, rq_formData rq))"

definition request_print :: "request \<Rightarrow> string" where
  "request_print rq =
     rq_method rq @ '' '' @ rq_uri rq @ '' '' @ rq_protocol rq @ nl @
     concat (map (\<lambda>(k, v). k @ '': '' @ v @ nl) (rq_headers rq))"

subsection \<open>What the parser accepts\<close>

text \<open>A header line as a client sends it, without its line end.\<close>

definition header_line :: "string \<times> string \<Rightarrow> string" where
  "header_line kv = fst kv @ '':'' @ snd kv @ [chr_cr]"

definition clean_field :: "string \<times> string \<Rightarrow> bool" where
  "clean_field kv \<longleftrightarrow> CHR '':'' \<notin> set (fst kv) \<and> chr_nl \<notin> set (fst kv) \<and> chr_nl \<notin> set (snd kv)"

lemma request_headers_blank:
  "request_headers (crlf @ body) d = (True, d, body)"
  by (subst request_headers.simps) (simp add: crlf_def getline_def)

lemma request_headers_line:
  assumes "clean_field kv"
  shows "request_headers (header_line kv @ chr_nl # r) d =
    request_headers r (dict_set d (norm_key (fst kv)) (ctrim (snd kv)))"
proof -
  let ?l = "header_line kv"
  have g: "getline chr_nl (?l @ chr_nl # r) = Some (?l, r)"
    using assms by (intro getline_append) (auto simp: header_line_def clean_field_def)
  have f: "find_str '':'' ?l = Some (length (fst kv))"
    using assms find_str_singleton_append[of "CHR '':''" "fst kv" "snd kv @ [chr_cr]"]
    by (simp add: header_line_def clean_field_def)
  have l: "?l \<noteq> [chr_cr]" "?l \<noteq> []" "last ?l = chr_cr"
    by (auto simp: header_line_def)
  have "ctrim [chr_cr] = []" by (simp add: ctrim_def is_space_def)
  then have v: "ctrim (drop (length (fst kv) + 1) ?l) = ctrim (snd kv)" "take (length (fst kv)) ?l = fst kv"
    by (simp_all add: header_line_def)
  show ?thesis
    by (subst request_headers.simps) (simp add: g l f v[simplified] norm_key_def)
qed

lemma request_headers_lines:
  "\<forall>kv \<in> set kvs. clean_field kv \<Longrightarrow>
     request_headers (concat (map (\<lambda>kv. header_line kv @ nl) kvs) @ crlf @ body) d =
       (True, fold (\<lambda>(k, v) d. dict_set d k v) (map (\<lambda>(k, v). (norm_key k, ctrim v)) kvs) d, body)"
proof (induction kvs arbitrary: d)
  case Nil
  then show ?case by (simp add: request_headers_blank)
next
  case (Cons kv kvs)
  then show ?case
    using request_headers_line[of kv "concat (map (\<lambda>kv. header_line kv @ nl) kvs) @ crlf @ body" d]
    by (cases kv) (simp add: nl_def)
qed

definition token :: "string \<Rightarrow> bool" where
  "token w \<longleftrightarrow> w \<noteq> [] \<and> (\<forall>c \<in> set w. \<not> is_space c)"

lemma is_space_sp [simp]: "is_space (CHR '' '')" "is_space chr_cr" "is_space chr_nl"
  by (simp_all add: is_space_def)

lemma parse_request_line_tokens:
  assumes "token m" "token u" "token p"
  shows "parse_request_line (m @ '' '' @ u @ '' '' @ p @ [chr_cr]) = (True, m, u, p)"
proof -
  have t: "extract_word (w @ b # r) = Some (w, b # r)" if "token w" "is_space b" for w b r
    using that by (auto simp: token_def intro: extract_word_append)
  show ?thesis
    using t[OF assms(1), of "CHR '' ''" "u @ '' '' @ p @ [chr_cr]"]
      t[OF assms(2), of "CHR '' ''" "p @ [chr_cr]"] t[OF assms(3), of chr_cr "[]"]
    by (simp add: parse_request_line_def extract_word_skip)
qed

lemma token_no_nl: "token w \<Longrightarrow> chr_nl \<notin> set w"
  by (auto simp: token_def)

text \<open>The full message of a client.\<close>

definition request_text ::
  "string \<Rightarrow> string \<Rightarrow> string \<Rightarrow> (string \<times> string) list \<Rightarrow> string \<Rightarrow> string" where
  "request_text m u p kvs body =
     m @ '' '' @ u @ '' '' @ p @ crlf @ concat (map (\<lambda>kv. header_line kv @ nl) kvs) @ crlf @ body"

lemma parse_request_text:
  assumes "token m" "token u" "token p" "\<forall>kv \<in> set kvs. clean_field kv"
  shows "parse_request (request_text m u p kvs body) =
    \<lparr>rq_stream = body, rq_valid = True, rq_method = m, rq_uri = u, rq_protocol = p, rq_logInfo = [],
     rq_headers = fold (\<lambda>(k, v) d. dict_set d k v) (map (\<lambda>(k, v). (norm_key k, ctrim v)) kvs) [],
     rq_content = [], rq_formData = []\<rparr>"
proof -
  let ?l = "m @ '' '' @ u @ '' '' @ p @ [chr_cr]"
  let ?r = "concat (map (\<lambda>kv. header_line kv @ nl) kvs) @ crlf @ body"
  have t: "request_text m u p kvs body = ?l @ chr_nl # ?r"
    by (simp add: request_text_def crlf_def)
  have "chr_nl \<notin> set ?l" using assms(1-3) by (auto dest: token_no_nl)
  then have "getline chr_nl (request_text m u p kvs body) = Some (?l, ?r)"
    unfolding t by (rule getline_append)
  then show ?thesis
    using parse_request_line_tokens[OF assms(1-3)] request_headers_lines[OF assms(4), of body "[]"]
    by (simp add: parse_request_def)
qed

text \<open>Lookup of a header: the last line with this name counts, letter case and white space do not.\<close>

lemma request_header_parsed:
  assumes "rq_headers rq = fold (\<lambda>(k, v) d. dict_set d k v) (map (\<lambda>(k, v). (norm_key k, ctrim v)) kvs) []"
  shows "request_header rq key =
    (case map_of (rev (map (\<lambda>(k, v). (norm_key k, ctrim v)) kvs)) (norm_key key) of
       None \<Rightarrow> [] | Some v \<Rightarrow> v)"
  by (simp add: request_header_def getString_lookup assms dict.look_fold_empty flip: norm_key_def)

text \<open>Every dictionary the parser builds keeps its keys distinct, on any input.\<close>

lemma request_headers_inv: "dict_inv d \<Longrightarrow> dict_inv (fst (snd (request_headers s d)))"
proof (induction s d rule: request_headers.induct)
  case (1 s d)
  have "dict_inv (dict_set d k v)" for k v using "1.prems" by (rule dict_inv_set)
  with 1 show ?case
    by (subst request_headers.simps) (auto split: option.splits prod.splits)
qed

lemma parse_request_inv: "dict_inv (rq_headers (parse_request s))"
proof -
  have e: "dict_inv []" by (simp add: dict_inv_def)
  have h: "dict_inv hs" if "request_headers s1 [] = (v, hs, s2)" for s1 v hs s2
    using request_headers_inv[OF e, of s1] that by simp
  show ?thesis
    by (auto simp: parse_request_def Let_def e split: option.splits prod.splits if_splits intro: h)
qed

text \<open>The content is read once: a second call returns the same bytes and reads nothing.\<close>

lemma request_content_stable:
  assumes "request_content rq = Inr (rq', c)" "c \<noteq> []"
  shows "request_content rq' = Inr (rq', c)"
proof -
  from assms(1) obtain len where len: "contentLength rq = Inr len"
    by (auto simp: request_content_def bind_result_Inr_iff)
  have "contentLength rq' = contentLength rq"
    using assms(1) len by (auto simp: request_content_def contentLength_def Let_def split: if_splits)
  with assms len show ?thesis
    by (auto simp: request_content_def Let_def split: if_splits)
qed

lemma request_content_length:
  assumes "contentLength rq = Inr (int n)" "rq_content rq = []"
  shows "\<exists>rq'. request_content rq = Inr (rq', take n (rq_stream rq) @ replicate (n - length (rq_stream rq)) (CHR 0x00))
    \<and> rq_stream rq' = drop n (rq_stream rq)"
  using assms by (cases "n \<le> length (rq_stream rq)") (auto simp: request_content_def Let_def)

end
