(* ===== verification/HttpResponse.thy ===== *)
theory HttpResponse
  imports HttpRequest
begin

text \<open>
  \<open>HttpServer::Response\<close> of \<open>src/web/httpserver.cpp\<close>. The stream returned by \<open>send\<close> is the chunk stream
  when there is one and the connection's stream otherwise; \<open>resp_put\<close>, \<open>resp_flush\<close>, \<open>resp_tellp\<close> and
  \<open>resp_good\<close> are the operations on it. The destructor is \<open>response_end\<close>.
\<close>

record response =
  rs_stream :: ostream
  rs_sent :: bool
  rs_contentBegin :: int
  rs_status :: int
  rs_headers :: dictionary
  rs_chunk :: "chunkbuf option"

definition response_init :: "ostream \<Rightarrow> response" where
  "response_init os =
     \<lparr>rs_stream = os, rs_sent = False, rs_contentBegin = 0, rs_status = HTTP_OK, rs_headers = [],
      rs_chunk = None\<rparr>"

definition setStatus :: "int \<Rightarrow> response \<Rightarrow> response" where
  "setStatus st r = r\<lparr>rs_status := st\<rparr>"

text \<open>An empty value erases the entry, but under the key as given, not under the normalised one.\<close>

definition setHeader :: "string \<Rightarrow> string \<Rightarrow> response \<Rightarrow> response" where
  "setHeader key value r =
     (let nkey = ctolower (ctrim key); nvalue = ctrim value in
      if nvalue = [] then r\<lparr>rs_headers := eraseKey (rs_headers r) key\<rparr>
      else r\<lparr>rs_headers := dict_set (rs_headers r) nkey nvalue\<rparr>)"

definition setHeaderInt :: "string \<Rightarrow> int \<Rightarrow> response \<Rightarrow> response" where
  "setHeaderInt key value r = setHeader key (dec_int value) r"

definition response_header :: "response \<Rightarrow> string \<Rightarrow> string" where
  "response_header r key = getString (rs_headers r) (ctolower (ctrim key))"

definition print_headers :: "dictionary \<Rightarrow> string" where
  "print_headers d = concat (map (\<lambda>(k, v). if v = [] then [] else k @ '': '' @ v @ crlf) d)"

definition status_line :: "int \<Rightarrow> string" where
  "status_line st = ''HTTP/1.1 '' @ dec_int st @ '' '' @ statusReason st @ crlf"

definition sendHeaders :: "response \<Rightarrow> response result" where
  "sendHeaders r0 =
     (let r1 = setHeader HTTP_HEADER_CONNECTION ''close'' r0;
          encoding = ctolower (response_header r1 HTTP_HEADER_TRANSFER_ENCODING);
          r2 = (if encoding = ''identity'' then Inr (setHeader HTTP_HEADER_TRANSFER_ENCODING [] r1)
                else if encoding = ''chunked'' then
                  Inr (setHeader HTTP_HEADER_CONTENT_LENGTH []
                    (r1\<lparr>rs_stream := (case rs_chunk r1 of None \<Rightarrow> rs_stream r1
                                     | Some cb \<Rightarrow> chunk_close cb (rs_stream r1)),
                        rs_chunk := Some chunk_init\<rparr>))
                else if encoding \<noteq> [] then Inl (RuntimeError (''unknown transfer-encoding: '' @ encoding))
                else Inr r1)
      in bind_result r2 (\<lambda>r.
           let os1 = os_put (status_line (rs_status r)) (rs_stream r);
               os2 = os_put (print_headers (rs_headers r)) os1;
               os3 = os_flush (os_put crlf os2)
           in Inr (r\<lparr>rs_stream := os3, rs_sent := True, rs_contentBegin := os_tellp os3\<rparr>)))"

definition resp_put :: "string \<Rightarrow> response \<Rightarrow> response" where
  "resp_put s r = (case rs_chunk r of
      None \<Rightarrow> r\<lparr>rs_stream := os_put s (rs_stream r)\<rparr>
    | Some cb \<Rightarrow> r\<lparr>rs_chunk := Some (chunk_put s cb)\<rparr>)"

definition resp_flush :: "response \<Rightarrow> response" where
  "resp_flush r = (case rs_chunk r of
      None \<Rightarrow> r\<lparr>rs_stream := os_flush (rs_stream r)\<rparr>
    | Some cb \<Rightarrow> (let (cb', os') = chunk_flush cb (rs_stream r)
                 in r\<lparr>rs_chunk := Some cb', rs_stream := os'\<rparr>))"

definition resp_tellp :: "response \<Rightarrow> int" where
  "resp_tellp r = (case rs_chunk r of None \<Rightarrow> os_tellp (rs_stream r) | Some cb \<Rightarrow> chunk_tellp cb)"

definition resp_good :: "response \<Rightarrow> bool" where
  "resp_good r = (case rs_chunk r of None \<Rightarrow> \<not> os_fail (rs_stream r) | Some cb \<Rightarrow> \<not> cb_fail cb)"

definition response_send :: "response \<Rightarrow> response result" where
  "response_send r = sendHeaders (setHeader HTTP_HEADER_CONTENT_LENGTH [] r)"

text \<open>The length is passed through an \<open>int\<close> parameter.\<close>

definition sendWithContent :: "string \<Rightarrow> response \<Rightarrow> response result" where
  "sendWithContent s r =
     bind_result (sendHeaders (setHeaderInt HTTP_HEADER_CONTENT_LENGTH (wrap32 (int (length s))) r))
       (\<lambda>r'. Inr (resp_flush (resp_put s r')))"

definition response_end :: "response \<Rightarrow> ostream" where
  "response_end r = (case rs_chunk r of None \<Rightarrow> rs_stream r | Some cb \<Rightarrow> chunk_close cb (rs_stream r))"

subsection \<open>The header dictionary\<close>

text \<open>
  What every response's headers satisfy: distinct names, names and values without white space (hence
  without line ends), no empty value.
\<close>

definition clean_header :: "string \<times> string \<Rightarrow> bool" where
  "clean_header kv \<longleftrightarrow> snd kv \<noteq> [] \<and> (\<forall>c \<in> set (fst kv) \<union> set (snd kv). \<not> is_space c)"

definition headers_inv :: "dictionary \<Rightarrow> bool" where
  "headers_inv d \<longleftrightarrow> dict_inv d \<and> (\<forall>kv \<in> set d. clean_header kv)"

lemma clean_header_no_nl: "clean_header kv \<Longrightarrow> chr_nl \<notin> set (fst kv) \<and> chr_nl \<notin> set (snd kv)"
  unfolding clean_header_def by (metis UnCI is_space_sp(3))

lemma set_dict_set: "set (dict_set d k v) \<subseteq> insert (k, v) (set d)"
  by (induction d) auto

lemma set_eraseKey: "set (eraseKey d k) \<subseteq> set d"
  by (induction d) auto

lemma headers_inv_init [inv_intros]: "headers_inv (rs_headers (response_init os))"
  by (simp add: headers_inv_def response_init_def dict_inv_def)

lemma norm_key_no_space: "c \<in> set (ctolower (ctrim k)) \<Longrightarrow> \<not> is_space c"
  by (auto simp: ctolower_def dest: ctrim_no_space)

lemma headers_inv_setHeader [inv_intros]:
  assumes "headers_inv (rs_headers r)"
  shows "headers_inv (rs_headers (setHeader k v r))"
proof (cases "ctrim v = []")
  case True
  with assms set_eraseKey[of "rs_headers r" k] show ?thesis
    by (auto simp: setHeader_def headers_inv_def Let_def intro: dict_inv_erase)
next
  case False
  then have "clean_header (ctolower (ctrim k), ctrim v)"
    by (auto simp: clean_header_def dest: norm_key_no_space ctrim_no_space)
  with assms False set_dict_set[of "rs_headers r" "ctolower (ctrim k)" "ctrim v"] show ?thesis
    by (auto simp: setHeader_def headers_inv_def Let_def intro: dict_inv_set)
qed

lemma response_header_setHeader:
  assumes "ctrim v \<noteq> []"
  shows "response_header (setHeader k v r) k' =
    (if norm_key k' = norm_key k then ctrim v else response_header r k')"
  using assms
  by (auto simp: response_header_def setHeader_def Let_def getString_lookup dict_lookup_set norm_key_def)

text \<open>Erasing works for a name given in its normalised form, as all the constants are.\<close>

lemma response_header_erase:
  assumes "dict_inv (rs_headers r)" "norm_key k = k" "ctrim v = []"
  shows "response_header (setHeader k v r) k' = (if norm_key k' = k then [] else response_header r k')"
  using assms dict_lookup_erase[OF assms(1), of k]
  by (auto simp: response_header_def setHeader_def Let_def getString_lookup norm_key_def)

lemma norm_key_constants [simp]:
  "norm_key HTTP_HEADER_CONTENT_LENGTH = HTTP_HEADER_CONTENT_LENGTH"
  "norm_key HTTP_HEADER_CONNECTION = HTTP_HEADER_CONNECTION"
  "norm_key HTTP_HEADER_TRANSFER_ENCODING = HTTP_HEADER_TRANSFER_ENCODING"
  "norm_key HTTP_HEADER_CONTENT_TYPE = HTTP_HEADER_CONTENT_TYPE"
  "norm_key HTTP_HEADER_LOCATION = HTTP_HEADER_LOCATION"
  by (simp_all add: http_header_defs norm_key_def ctolower_def ctrim_def is_space_def to_lower_def)

lemma header_names_distinct [simp]:
  "HTTP_HEADER_TRANSFER_ENCODING \<noteq> HTTP_HEADER_CONNECTION"
  "HTTP_HEADER_TRANSFER_ENCODING \<noteq> HTTP_HEADER_CONTENT_LENGTH"
  "HTTP_HEADER_CONTENT_LENGTH \<noteq> HTTP_HEADER_CONNECTION"
  "HTTP_HEADER_CONTENT_LENGTH \<noteq> HTTP_HEADER_CONTENT_TYPE"
  "HTTP_HEADER_TRANSFER_ENCODING \<noteq> HTTP_HEADER_CONTENT_TYPE"
  by (simp_all add: http_header_defs)

lemma ctrim_close [simp]: "ctrim ''close'' = ''close''"
  by (simp add: ctrim_def is_space_def)

lemma ctrim_dec_nat [simp]: "ctrim (dec_nat n) = dec_nat n"
  using dec_nat_digits is_digit_not_special by (intro ctrim_id) blast

lemma dec_nat_ne [simp]: "dec_nat n \<noteq> []"
  by (simp add: dec_nat_def)

subsection \<open>Reading a printed head back\<close>

text \<open>The header block a response prints, read by the parser for requests, gives the same dictionary.\<close>

lemma print_headers_lines:
  assumes "headers_inv d"
  shows "print_headers d = concat (map (\<lambda>kv. header_line kv @ nl) (map (\<lambda>(k, v). (k, '' '' @ v)) d))"
proof -
  have "\<forall>kv \<in> set d. snd kv \<noteq> []" using assms by (simp add: headers_inv_def clean_header_def)
  then show ?thesis
    by (induction d) (auto simp: print_headers_def header_line_def crlf_def nl_def)
qed

lemma fold_dict_set_distinct:
  "distinct (map fst (acc @ d)) \<Longrightarrow> fold (\<lambda>(k, v) d. dict_set d k v) d acc = acc @ d"
proof (induction d arbitrary: acc)
  case (Cons kv d)
  obtain k v where kv: "kv = (k, v)" by (cases kv)
  have "k \<notin> fst ` set acc" using Cons.prems kv by auto
  then have "dict_set acc k v = acc @ [(k, v)]" by (induction acc) auto
  with Cons kv show ?case by simp
qed simp

lemma request_headers_print:
  assumes "headers_inv d" "\<forall>kv \<in> set d. norm_key (fst kv) = fst kv \<and> CHR '':'' \<notin> set (fst kv)"
  shows "request_headers (print_headers d @ crlf @ body) [] = (True, d, body)"
proof -
  let ?kvs = "map (\<lambda>(k, v). (k, '' '' @ v)) d"
  have ok: "clean_header kv \<and> norm_key (fst kv) = fst kv \<and> CHR '':'' \<notin> set (fst kv)" if "kv \<in> set d" for kv
    using assms that by (simp add: headers_inv_def)
  have "clean_field (fst kv, '' '' @ snd kv)" if "kv \<in> set d" for kv
    using ok[OF that] clean_header_no_nl[of kv] by (auto simp: clean_field_def)
  then have "\<forall>kv \<in> set ?kvs. clean_field kv" by (auto split: prod.splits)
  moreover have "(norm_key (fst kv), ctrim ('' '' @ snd kv)) = kv" if "kv \<in> set d" for kv
    using ok[OF that] ctrim_id[of "snd kv"]
    by (cases kv) (simp add: clean_header_def ctrim_def)
  then have "map (\<lambda>(k, v). (norm_key k, ctrim v)) ?kvs = d"
    by (auto intro!: map_idI split: prod.splits)
  moreover have "fold (\<lambda>(k, v) d. dict_set d k v) d [] = d"
    using fold_dict_set_distinct[of "[]" d] assms(1) by (simp add: headers_inv_def dict_inv_def)
  ultimately show ?thesis
    using request_headers_lines[of ?kvs body "[]"] print_headers_lines[OF assms(1)] by simp
qed

subsection \<open>What is on the wire\<close>

lemma setHeader_frame [simp]:
  "rs_headers (setHeader k v (r\<lparr>rs_stream := a\<rparr>)) = rs_headers (setHeader k v r)"
  "rs_headers (setHeader k v (r\<lparr>rs_chunk := c\<rparr>)) = rs_headers (setHeader k v r)"
  by (simp_all add: setHeader_def Let_def)

lemma headers_after_setHeader [simp]:
  "rs_stream (setHeader k v r) = rs_stream r" "rs_chunk (setHeader k v r) = rs_chunk r"
  "rs_status (setHeader k v r) = rs_status r" "rs_sent (setHeader k v r) = rs_sent r"
  by (simp_all add: setHeader_def Let_def)

text \<open>Without a transfer encoding: head, then the content, with its length announced.\<close>

lemma sendHeaders_plain:
  assumes "response_header r HTTP_HEADER_TRANSFER_ENCODING = []" "os_reliable (rs_stream r)"
    "rs_chunk r = None"
  shows "\<exists>r'. sendHeaders r = Inr r' \<and> rs_sent r' \<and> rs_chunk r' = None \<and> os_reliable (rs_stream r')
    \<and> rs_headers r' = rs_headers (setHeader HTTP_HEADER_CONNECTION ''close'' r)
    \<and> os_data (rs_stream r') = os_data (rs_stream r) @ status_line (rs_status r)
        @ print_headers (rs_headers r') @ crlf
    \<and> rs_contentBegin r' = int (length (os_data (rs_stream r')))"
proof -
  let ?r1 = "setHeader HTTP_HEADER_CONNECTION ''close'' r"
  have "response_header ?r1 HTTP_HEADER_TRANSFER_ENCODING = []"
    using assms(1) by (simp add: response_header_setHeader)
  then show ?thesis
    using assms(2,3)
    by (simp add: sendHeaders_def Let_def ctolower_def os_tellp_def)
qed

lemma sendWithContent_plain:
  assumes "response_header r HTTP_HEADER_TRANSFER_ENCODING = []" "os_reliable (rs_stream r)"
    "rs_chunk r = None" "headers_inv (rs_headers r)" "int (length s) < 2 ^ 31"
  shows "\<exists>r'. sendWithContent s r = Inr r' \<and> rs_sent r'
    \<and> os_data (response_end r') = os_data (rs_stream r) @ status_line (rs_status r)
        @ print_headers (rs_headers r') @ crlf @ s
    \<and> response_header r' HTTP_HEADER_CONTENT_LENGTH = dec_nat (length s)"
proof -
  have w: "wrap32 (int (length s)) = int (length s)" using assms(5) by (simp add: wrap32_def)
  let ?r = "setHeader HTTP_HEADER_CONTENT_LENGTH (dec_nat (length s)) r"
  have "response_header ?r HTTP_HEADER_TRANSFER_ENCODING = []"
    using assms(1) by (simp add: response_header_setHeader)
  then obtain r' where r': "sendHeaders ?r = Inr r'" "rs_sent r'" "rs_chunk r' = None"
      "os_reliable (rs_stream r')" "rs_headers r' = rs_headers (setHeader HTTP_HEADER_CONNECTION ''close'' ?r)"
      "os_data (rs_stream r') = os_data (rs_stream r) @ status_line (rs_status r)
        @ print_headers (rs_headers r') @ crlf"
    using sendHeaders_plain[of ?r] assms(2,3) by auto
  have "response_header r' k = response_header (setHeader HTTP_HEADER_CONNECTION ''close'' ?r) k" for k
    by (simp only: response_header_def r'(5))
  then have "response_header r' HTTP_HEADER_CONTENT_LENGTH = dec_nat (length s)"
    by (simp add: response_header_setHeader)
  moreover have "sendWithContent s r = Inr (resp_flush (resp_put s r'))"
    by (simp add: sendWithContent_def setHeaderInt_def w dec_int_def r'(1))
  ultimately show ?thesis
    using r' by (intro exI[of _ "resp_flush (resp_put s r')"])
      (simp add: resp_put_def resp_flush_def response_end_def response_header_def)
qed

text \<open>With the chunked encoding: head without a length, then whatever is written, as chunks.\<close>

lemma sendHeaders_chunked:
  assumes "response_header r HTTP_HEADER_TRANSFER_ENCODING = ''chunked''" "os_reliable (rs_stream r)"
    "rs_chunk r = None" "headers_inv (rs_headers r)"
  shows "\<exists>r'. sendHeaders r = Inr r' \<and> rs_sent r' \<and> rs_chunk r' = Some chunk_init
    \<and> os_reliable (rs_stream r')
    \<and> os_data (rs_stream r') = os_data (rs_stream r) @ status_line (rs_status r)
        @ print_headers (rs_headers r') @ crlf
    \<and> response_header r' HTTP_HEADER_CONTENT_LENGTH = []
    \<and> response_header r' HTTP_HEADER_TRANSFER_ENCODING = ''chunked''"
proof -
  let ?r1 = "setHeader HTTP_HEADER_CONNECTION ''close'' r"
  let ?r2 = "setHeader HTTP_HEADER_CONTENT_LENGTH [] (?r1\<lparr>rs_chunk := Some chunk_init\<rparr>)"
  have te: "response_header ?r1 HTTP_HEADER_TRANSFER_ENCODING = ''chunked''"
    using assms(1) by (simp add: response_header_setHeader)
  have low: "ctolower ''chunked'' = ''chunked''" by (simp add: ctolower_def to_lower_def)
  have inv: "dict_inv (rs_headers ?r1)"
    using headers_inv_setHeader[OF assms(4)] by (simp add: headers_inv_def)
  have upd: "response_header (x\<lparr>rs_chunk := c\<rparr>) k = response_header x k" for x c k
    by (simp add: response_header_def)
  have h: "response_header ?r2 HTTP_HEADER_CONTENT_LENGTH = []"
      "response_header ?r2 HTTP_HEADER_TRANSFER_ENCODING = ''chunked''"
    using inv te by (simp_all add: response_header_erase ctrim_def upd)
  show ?thesis
    using assms(2,3) te low h by (simp add: sendHeaders_def Let_def response_header_def)
qed

end
