(* ===== verification/HttpProtocol.thy ===== *)
theory HttpProtocol
  imports HttpResponse
begin

text \<open>
  The protocol of \<open>src/web/httpserver.cpp\<close> seen from the client: what is sent is what a reader of the
  protocol decodes, whatever strings the handlers put into header fields.
\<close>

subsection \<open>Writing through the stream of a response\<close>

fun resp_op :: "stream_op \<Rightarrow> response \<Rightarrow> response" where
  "resp_op (Put s) r = resp_put s r"
| "resp_op Flush r = resp_flush r"

text \<open>Header fields set one after the other.\<close>

definition set_headers :: "(string \<times> string) list \<Rightarrow> response \<Rightarrow> response" where
  "set_headers kvs r = fold (\<lambda>(k, v). setHeader k v) kvs r"

text \<open>The body of a form, as a client encodes it.\<close>

fun form_text :: "(string \<times> string) list \<Rightarrow> string" where
  "form_text [] = []"
| "form_text [(k, v)] = percent_encode k @ ''='' @ percent_encode v"
| "form_text ((k, v) # kvs) = percent_encode k @ ''='' @ percent_encode v @ ''&'' @ form_text kvs"

lemma resp_ops_chunked:
  "rs_chunk r = Some cb \<Longrightarrow> chunk_run ops cb (rs_stream r) = (cb', os') \<Longrightarrow>
     rs_chunk (fold resp_op ops r) = Some cb' \<and> rs_stream (fold resp_op ops r) = os'"
proof (induction ops arbitrary: r cb)
  case (Cons x ops)
  show ?case
  proof (cases x)
    case (Put s)
    with Cons show ?thesis by (simp add: resp_put_def)
  next
    case Flush
    obtain cb1 os1 where f: "chunk_flush cb (rs_stream r) = (cb1, os1)" by (cases "chunk_flush cb (rs_stream r)")
    with Flush Cons show ?thesis by (simp add: resp_flush_def)
  qed
qed simp

lemma resp_ops_plain:
  "rs_chunk r = None \<Longrightarrow> os_reliable (rs_stream r) \<Longrightarrow>
     rs_chunk (fold resp_op ops r) = None \<and> os_reliable (rs_stream (fold resp_op ops r)) \<and>
     os_data (rs_stream (fold resp_op ops r)) = os_data (rs_stream r) @ concat (map op_data ops)"
proof (induction ops arbitrary: r)
  case (Cons x ops)
  then show ?case by (cases x) (simp_all add: resp_put_def resp_flush_def)
qed simp

lemma headers_inv_erase_send:
  "headers_inv (rs_headers r) \<Longrightarrow> headers_inv (rs_headers (setHeader HTTP_HEADER_CONTENT_LENGTH [] r))"
  by (rule headers_inv_setHeader)

subsection \<open>Names of header fields\<close>

definition names_ok :: "dictionary \<Rightarrow> bool" where
  "names_ok d \<longleftrightarrow> (\<forall>kv \<in> set d. norm_key (fst kv) = fst kv \<and> CHR '':'' \<notin> set (fst kv))"

lemma to_lower_colon [simp]: "to_lower c = CHR '':'' \<longleftrightarrow> c = CHR '':''"
proof
  assume "to_lower c = CHR '':''"
  then have "(of_char (to_lower c) :: nat) = of_char (CHR '':'')" by simp
  then have "(of_char c :: nat) = of_char (CHR '':'')" by (simp add: of_char_to_lower split: if_splits)
  then show "c = CHR '':''" by (simp only: of_char_eq_iff)
qed (simp add: to_lower_def)

lemma norm_key_colon: "CHR '':'' \<in> set (norm_key k) \<longleftrightarrow> CHR '':'' \<in> set k"
proof -
  have "\<not> is_space (CHR '':'')" by (simp add: is_space_def)
  then show ?thesis
    by (auto simp: norm_key_def ctolower_def ctrim_def image_iff eq_commute[of "CHR '':''"])
qed

lemma names_ok_setHeader [inv_intros]:
  assumes "names_ok (rs_headers r)" "CHR '':'' \<notin> set k"
  shows "names_ok (rs_headers (setHeader k v r))"
  using assms set_eraseKey[of "rs_headers r" k] norm_key_idem[of k] norm_key_colon[of k]
    set_dict_set[of "rs_headers r" "norm_key k" "ctrim v"]
  by (auto simp: names_ok_def setHeader_def Let_def simp flip: norm_key_def)

lemma set_headers_ok:
  assumes "headers_inv (rs_headers r)" "names_ok (rs_headers r)" "\<forall>kv \<in> set kvs. CHR '':'' \<notin> set (fst kv)"
  shows "headers_inv (rs_headers (set_headers kvs r)) \<and> names_ok (rs_headers (set_headers kvs r)) \<and>
    rs_stream (set_headers kvs r) = rs_stream r \<and> rs_chunk (set_headers kvs r) = rs_chunk r \<and>
    rs_status (set_headers kvs r) = rs_status r"
  using assms
proof (induction kvs arbitrary: r)
  case (Cons kv kvs)
  obtain k v where kv: "kv = (k, v)" by (cases kv)
  have "headers_inv (rs_headers (setHeader k v r))" "names_ok (rs_headers (setHeader k v r))"
    using Cons.prems kv by (auto intro: inv_intros)
  with Cons.IH[of "setHeader k v r"] Cons.prems(3) kv show ?case by (simp add: set_headers_def)
qed (simp add: set_headers_def)

lemma set_headers_other:
  assumes "\<forall>kv \<in> set kvs. norm_key (fst kv) \<noteq> norm_key key"
  shows "response_header (set_headers kvs r) key = response_header r key"
  using assms
proof (induction kvs arbitrary: r)
  case (Cons kv kvs)
  obtain k v where kv: "kv = (k, v)" by (cases kv)
  have ne: "norm_key key \<noteq> norm_key k" "k \<noteq> norm_key key" using Cons.prems kv by force+
  have "response_header (setHeader k v r) key = response_header r key"
  proof (cases "ctrim v = []")
    case True
    have "dict_lookup (eraseKey d k) (norm_key key) = dict_lookup d (norm_key key)" for d
      using ne(2) by (induction d) (auto simp: dict_lookup_def)
    with True show ?thesis
      by (simp add: response_header_def setHeader_def getString_lookup Let_def flip: norm_key_def)
  next
    case False
    with ne show ?thesis by (simp add: response_header_setHeader)
  qed
  with Cons.IH[of "setHeader k v r"] Cons.prems kv show ?case by (simp add: set_headers_def)
qed (simp add: set_headers_def)

lemma sendHeaders_headers:
  assumes "response_header r HTTP_HEADER_TRANSFER_ENCODING = []" "sendHeaders r = Inr r'"
  shows "rs_headers r' = rs_headers (setHeader HTTP_HEADER_CONNECTION ''close'' r)"
proof -
  have "response_header (setHeader HTTP_HEADER_CONNECTION ''close'' r) HTTP_HEADER_TRANSFER_ENCODING = []"
    using assms(1) by (simp add: response_header_setHeader)
  with assms(2) show ?thesis by (auto simp: sendHeaders_def Let_def ctolower_def)
qed

lemma resp_put_flush_headers [simp]: "rs_headers (resp_flush (resp_put s r)) = rs_headers r"
  by (simp add: resp_put_def resp_flush_def split: option.split prod.split)

lemma sendWithContent_headers:
  assumes "response_header r HTTP_HEADER_TRANSFER_ENCODING = []" "sendWithContent s r = Inr r'"
  shows "rs_headers r' = rs_headers (setHeader HTTP_HEADER_CONNECTION ''close''
    (setHeader HTTP_HEADER_CONTENT_LENGTH (dec_int (wrap32 (int (length s)))) r))"
proof -
  let ?r = "setHeader HTTP_HEADER_CONTENT_LENGTH (dec_int (wrap32 (int (length s)))) r"
  have "ctrim (dec_int i) \<noteq> []" for i
    using ctrim_dec_nat[of "nat i"] by (cases "i < 0") (simp_all add: dec_int_def ctrim_def is_space_def)
  then have "response_header ?r HTTP_HEADER_TRANSFER_ENCODING = []"
    using assms(1) by (simp add: response_header_setHeader)
  with assms(2) sendHeaders_headers[of ?r] show ?thesis
    by (auto simp: sendWithContent_def setHeaderInt_def bind_result_Inr_iff)
qed

lemma header_names_colon [simp]:
  "CHR '':'' \<notin> set HTTP_HEADER_CONNECTION" "CHR '':'' \<notin> set HTTP_HEADER_CONTENT_LENGTH"
  by (simp_all add: http_header_defs)

subsection \<open>Content and form data of a request\<close>

lemma getNumber_dec_nat:
  assumes "dict_lookup d k = Some (dec_nat n)" "n < 2 ^ 31"
  shows "hasKey d k \<and> int_of_dbl (getNumber d k) = Inr (int n)"
proof -
  have "getString d k = dec_nat n" using assms(1) by (simp add: getString_lookup)
  moreover have "hasKey d k" using assms(1) by (simp add: hasKey_iff)
  moreover have "number_end []" by (simp add: number_end_def)
  ultimately show ?thesis
    using read_double_dec_nat[of "[]" n] assms(2) dtrunc_int[of "int n"]
    by (simp add: getNumber_def strtonum_def int_of_dbl_def)
qed

lemma percent_encode_clean:
  "c \<in> set (percent_encode s) \<Longrightarrow> c \<noteq> CHR ''='' \<and> c \<noteq> CHR ''&''"
proof -
  assume "c \<in> set (percent_encode s)"
  then obtain x :: char where "c = CHR ''%'' \<or> c = digit_char (of_char x div 16) \<or> c = digit_char (of_char x mod 16)"
    by (auto simp: percent_encode_def split: if_splits)
  moreover have "(of_char x :: nat) div 16 < 16" "(of_char x :: nat) mod 16 < 16"
    by (rule less_mult_imp_div_less) simp_all
  ultimately obtain d where "c = CHR ''%'' \<or> c = digit_char d \<and> d < (16::nat)" by blast
  then show ?thesis
  proof (elim disjE conjE)
    assume c: "c = digit_char d" and d: "d < 16"
    then have "(of_char c :: nat) = (if d < 10 then 48 + d else 87 + d)" by (simp add: of_char_digit_char)
    with d show ?thesis by (auto split: if_splits)
  qed simp
qed

lemma urldecode_percent_encode: "urldecode (percent_encode s) = s"
proof (induction s)
  case (Cons c s)
  have "percent_encode (c # s) = [CHR ''%'', digit_char (of_char c div 16), digit_char (of_char c mod 16)] @ percent_encode s"
    by (simp add: percent_encode_def)
  with Cons urldecode_percent_char[of c "percent_encode s"] show ?case by (simp del: urldecode.simps)
qed (simp add: percent_encode_def)

lemma form_entry_encoded: "form_entry (percent_encode k @ CHR ''='' # percent_encode v) = (k, v)"
proof -
  have "CHR ''='' \<notin> set (percent_encode k)" using percent_encode_clean by blast
  then have "find_str ''='' (percent_encode k @ CHR ''='' # percent_encode v) = Some (length (percent_encode k))"
    by (rule find_str_singleton_append)
  then show ?thesis by (simp add: form_entry_def urldecode_percent_encode)
qed

lemma lines_of_last: "d \<notin> set a \<Longrightarrow> a \<noteq> [] \<Longrightarrow> lines_of d a = [a]"
  by (subst lines_of.simps) (simp add: getline_last)

lemma form_text_entries: "map form_entry (lines_of (CHR ''&'') (form_text kvs)) = kvs"
proof (induction kvs rule: form_text.induct)
  case (2 k v)
  have "CHR ''&'' \<notin> set (percent_encode k @ CHR ''='' # percent_encode v)"
    using percent_encode_clean by fastforce
  then show ?case
    using form_entry_encoded[of k v] lines_of_last[of "CHR ''&''" "percent_encode k @ CHR ''='' # percent_encode v"]
    by simp
next
  case (3 k v kv kvs)
  have "CHR ''&'' \<notin> set (percent_encode k @ CHR ''='' # percent_encode v)"
    using percent_encode_clean by fastforce
  from lines_of_append[OF this, of "form_text (kv # kvs)"] 3 form_entry_encoded[of k v]
  show ?case by simp
qed simp

lemma chunked_send_ops:
  assumes "response_header r HTTP_HEADER_TRANSFER_ENCODING = ''chunked''" "os_reliable (rs_stream r)"
    "rs_chunk r = None" "headers_inv (rs_headers r)"
  shows "\<exists>r' enc. response_send r = Inr r' \<and> rs_chunk r' = Some chunk_init \<and> os_reliable (rs_stream r') \<and>
    response_header r' HTTP_HEADER_CONTENT_LENGTH = [] \<and>
    resp_tellp (fold resp_op ops r') = int (length (concat (map op_data ops))) \<and>
    os_data (response_end (fold resp_op ops r')) = os_data (rs_stream r) @ status_line (rs_status r)
      @ print_headers (rs_headers r') @ crlf @ enc \<and>
    unchunk_all enc = Some (concat (map op_data ops))"
proof -
  let ?r = "setHeader HTTP_HEADER_CONTENT_LENGTH [] r"
  have "response_header ?r HTTP_HEADER_TRANSFER_ENCODING = ''chunked''"
    using assms(1,4) by (simp add: response_header_erase headers_inv_def ctrim_def)
  with sendHeaders_chunked[of ?r] assms obtain r' where r': "response_send r = Inr r'" "rs_chunk r' = Some chunk_init"
      "os_reliable (rs_stream r')" "response_header r' HTTP_HEADER_CONTENT_LENGTH = []"
      "os_data (rs_stream r') = os_data (rs_stream r) @ status_line (rs_status r) @ print_headers (rs_headers r') @ crlf"
    by (auto simp: response_send_def headers_inv_erase_send)
  obtain cb os where run: "chunk_run ops chunk_init (rs_stream r') = (cb, os)"
    by (cases "chunk_run ops chunk_init (rs_stream r')")
  from resp_ops_chunked[OF r'(2) run]
  have f: "rs_chunk (fold resp_op ops r') = Some cb" "rs_stream (fold resp_op ops r') = os" by simp_all
  have inv: "chunk_inv (os_data (rs_stream r')) (concat (map op_data ops)) cb os"
    using chunk_inv_run[OF chunk_inv_init[OF r'(3)] run] by simp
  from chunk_inv_close[OF inv] obtain enc where
    "os_data (chunk_close cb os) = os_data (rs_stream r') @ enc" "unchunk_all enc = Some (concat (map op_data ops))"
    by blast
  with r' f chunk_inv_tellp[OF inv] show ?thesis
    by (auto simp: resp_tellp_def response_end_def)
qed

subsection \<open>Properties\<close>

text \<open>C31: A chunked response is decoded to what was written. The head carries no content length, the
  position reported while writing counts the payload and not the framing, and once the response is
  finished what follows the head is a chunked message whose payload is everything that was written,
  however writes and flushes were interleaved.\<close>

theorem chunked_response_roundtrip:
  assumes "response_header r HTTP_HEADER_TRANSFER_ENCODING = ''chunked''" "os_reliable (rs_stream r)"
    "rs_chunk r = None" "headers_inv (rs_headers r)"
  shows "\<exists>r' enc. response_send r = Inr r' \<and> response_header r' HTTP_HEADER_CONTENT_LENGTH = [] \<and>
    resp_tellp (fold resp_op ops r') = int (length (concat (map op_data ops))) \<and>
    os_data (response_end (fold resp_op ops r')) = os_data (rs_stream r) @ status_line (rs_status r)
      @ print_headers (rs_headers r') @ crlf @ enc \<and>
    unchunk_all enc = Some (concat (map op_data ops))"
  using chunked_send_ops[OF assms, of ops] by blast

definition quiet_stream :: ostream where
  "quiet_stream = \<lparr>os_data = [], os_fail = False, os_flushes = [], os_cuts = []\<rparr>"

theorem chunked_response_roundtrip_witness:
  "\<exists>r' enc. response_send (setHeader HTTP_HEADER_TRANSFER_ENCODING ''chunked'' (response_init quiet_stream)) = Inr r' \<and>
     os_data (response_end (fold resp_op [Put ''ab'', Flush, Put ''c''] r')) =
       status_line 200 @ print_headers (rs_headers r') @ crlf @ enc \<and>
     unchunk_all enc = Some ''abc''"
proof -
  let ?r = "setHeader HTTP_HEADER_TRANSFER_ENCODING ''chunked'' (response_init quiet_stream)"
  have c: "ctrim ''chunked'' = ''chunked''" by (simp add: ctrim_def is_space_def)
  have 1: "response_header ?r HTTP_HEADER_TRANSFER_ENCODING = ''chunked''"
    by (simp add: response_header_setHeader c)
  have 2: "os_reliable (rs_stream ?r)" "rs_chunk ?r = None" "os_data (rs_stream ?r) = []" "rs_status ?r = 200"
    by (simp_all add: response_init_def quiet_stream_def os_reliable_def HTTP_OK_def)
  have 3: "headers_inv (rs_headers ?r)" by (intro inv_intros)
  show ?thesis
    using chunked_response_roundtrip[OF 1 2(1,2) 3, of "[Put ''ab'', Flush, Put ''c'']"] 2(3,4) by auto
qed

text \<open>C30: No header value can forge a response. After any header fields were set, with arbitrary strings as
  values, line ends included, a reader of the protocol who takes the status line off gets exactly the
  headers of the response, every one of them under its own name, the length of the content, and then the
  content, byte by byte.\<close>

theorem response_roundtrip:
  assumes "os_reliable os" "\<forall>kv \<in> set kvs. CHR '':'' \<notin> set (fst kv) \<and> norm_key (fst kv) \<noteq> HTTP_HEADER_TRANSFER_ENCODING"
    "int (length content) < 2 ^ 31"
  shows "\<exists>r' rest. sendWithContent content (set_headers kvs (setStatus st (response_init os))) = Inr r' \<and>
    os_data (response_end r') = os_data os @ status_line st @ rest \<and>
    request_headers rest [] = (True, rs_headers r', content) \<and>
    getString (rs_headers r') HTTP_HEADER_CONTENT_LENGTH = dec_nat (length content)"
proof -
  let ?i = "setStatus st (response_init os)" and ?r = "set_headers kvs (setStatus st (response_init os))"
  have i: "headers_inv (rs_headers ?i)" "names_ok (rs_headers ?i)" "response_header ?i k = []"
      "rs_chunk ?i = None" "rs_stream ?i = os" "rs_status ?i = st" for k
    by (simp_all add: setStatus_def response_init_def headers_inv_def dict_inv_def names_ok_def
        response_header_def getString_def)
  have ok: "headers_inv (rs_headers ?r)" "names_ok (rs_headers ?r)" "rs_stream ?r = os" "rs_chunk ?r = None"
      "rs_status ?r = st"
    using set_headers_ok[OF i(1,2), of kvs] assms(2) i(4-6) by auto
  have te: "response_header ?r HTTP_HEADER_TRANSFER_ENCODING = []"
    using set_headers_other[of kvs HTTP_HEADER_TRANSFER_ENCODING ?i] assms(2) i(3) by auto
  from sendWithContent_plain[OF te _ ok(4,1) assms(3)] assms(1) ok(3,5) obtain r' where
    r': "sendWithContent content ?r = Inr r'"
      "os_data (response_end r') = os_data os @ status_line st @ print_headers (rs_headers r') @ crlf @ content"
      "response_header r' HTTP_HEADER_CONTENT_LENGTH = dec_nat (length content)"
    by auto
  have hd: "headers_inv (rs_headers r') \<and> names_ok (rs_headers r')"
    using sendWithContent_headers[OF te r'(1)] ok(1,2)
    by (simp add: headers_inv_setHeader names_ok_setHeader)
  then have "request_headers (print_headers (rs_headers r') @ crlf @ content) [] = (True, rs_headers r', content)"
    by (intro request_headers_print) (auto simp: names_ok_def)
  with r' show ?thesis
    by (auto simp: response_header_def simp flip: norm_key_def)
qed

theorem response_roundtrip_witness:
  "\<exists>r' rest. sendWithContent ''<html/>'' (set_headers [(''X-Name'', ''a'' @ crlf @ ''Set-Cookie: b'')]
      (setStatus 404 (response_init quiet_stream))) = Inr r' \<and>
    os_data (response_end r') = status_line 404 @ rest \<and>
    request_headers rest [] = (True, rs_headers r', ''<html/>'')"
proof -
  have 1: "os_reliable quiet_stream" "os_data quiet_stream = []" by (simp_all add: quiet_stream_def os_reliable_def)
  have "norm_key ''X-Name'' \<noteq> HTTP_HEADER_TRANSFER_ENCODING" by code_simp
  then have 2: "\<forall>kv \<in> set [(''X-Name'', ''a'' @ crlf @ ''Set-Cookie: b'')].
      CHR '':'' \<notin> set (fst kv) \<and> norm_key (fst kv) \<noteq> HTTP_HEADER_TRANSFER_ENCODING"
    by simp
  show ?thesis using response_roundtrip[OF 1(1) 2, of "''<html/>''" 404] 1(2) by auto
qed

text \<open>C32: Requests are understood. A request line of three words, header lines in any number with any
  spelling of their names, and a body of the announced length are read back: method, target and
  protocol, for every header name the value of its last line without its white space, and as content
  exactly the announced number of bytes; what follows them stays unread.\<close>

theorem request_understood:
  assumes "token m" "token u" "token p" "\<forall>kv \<in> set kvs. clean_field kv"
    "map_of (rev (map (\<lambda>(k, v). (norm_key k, ctrim v)) kvs)) HTTP_HEADER_CONTENT_LENGTH = Some (dec_nat (length body))"
    "length body < 2 ^ 31"
  shows "\<exists>rq rq'. parse_request (request_text m u p kvs (body @ rest)) = rq \<and> rq_valid rq \<and>
    rq_method rq = m \<and> rq_uri rq = u \<and> rq_protocol rq = p \<and>
    (\<forall>key. request_header rq key =
      (case map_of (rev (map (\<lambda>(k, v). (norm_key k, ctrim v)) kvs)) (norm_key key) of None \<Rightarrow> [] | Some v \<Rightarrow> v)) \<and>
    request_content rq = Inr (rq', body) \<and> rq_stream rq' = rest \<and> (body \<noteq> [] \<longrightarrow> request_content rq' = Inr (rq', body))"
proof -
  let ?rq = "parse_request (request_text m u p kvs (body @ rest))"
  note rq = parse_request_text[OF assms(1-4), of "body @ rest"]
  have hdr: "request_header ?rq key =
      (case map_of (rev (map (\<lambda>(k, v). (norm_key k, ctrim v)) kvs)) (norm_key key) of None \<Rightarrow> [] | Some v \<Rightarrow> v)" for key
    by (rule request_header_parsed) (simp add: rq)
  have "dict_lookup (rq_headers ?rq) HTTP_HEADER_CONTENT_LENGTH = Some (dec_nat (length body))"
    using assms(5) by (simp add: rq dict.look_fold_empty)
  then have "contentLength ?rq = Inr (int (length body))"
    using getNumber_dec_nat assms(6) by (simp add: contentLength_def)
  from request_content_length[OF this] obtain rq' where
    c: "request_content ?rq = Inr (rq', body)" "rq_stream rq' = rest"
    by (auto simp: rq)
  with request_content_stable[OF c(1)] hdr show ?thesis by (auto simp: rq)
qed

theorem request_understood_witness:
  "\<exists>rq rq'. parse_request (request_text ''POST'' ''/eSCL'' ''HTTP/1.1'' [(''Content-Length'', '' 2'')] (''ab'' @ ''c'')) = rq \<and>
    rq_valid rq \<and> rq_method rq = ''POST'' \<and> request_content rq = Inr (rq', ''ab'') \<and> rq_stream rq' = ''c''"
proof -
  have t: "token ''POST''" "token ''/eSCL''" "token ''HTTP/1.1''" by (simp_all add: token_def is_space_def)
  have f: "\<forall>kv \<in> set [(''Content-Length'', '' 2'')]. clean_field kv" by (simp add: clean_field_def)
  have l: "map_of (rev (map (\<lambda>(k, v). (norm_key k, ctrim v)) [(''Content-Length'', '' 2'')])) HTTP_HEADER_CONTENT_LENGTH
      = Some (dec_nat (length ''ab''))" "length ''ab'' < 2 ^ 31"
    by code_simp+
  show ?thesis using request_understood[OF t f l, of "''c''"] by auto
qed

text \<open>C34: Form data is understood. Whatever keys and values a client sends, percent encoded, the server
  looks up for every key the last value given for it.\<close>

theorem form_data_roundtrip:
  assumes "kvs \<noteq> []" "length (form_text kvs) < 2 ^ 31" "rq_stream rq = form_text kvs @ rest"
    "rq_content rq = []" "rq_formData rq = []"
    "request_header rq HTTP_HEADER_CONTENT_TYPE = ''application/x-www-form-urlencoded''"
    "dict_lookup (rq_headers rq) HTTP_HEADER_CONTENT_LENGTH = Some (dec_nat (length (form_text kvs)))"
  shows "\<exists>rq' d. request_formData rq = Inr (rq', d) \<and> dict_inv d \<and>
    (\<forall>k. getString d k = (case map_of (rev kvs) k of None \<Rightarrow> [] | Some v \<Rightarrow> v))"
proof -
  have len: "contentLength rq = Inr (int (length (form_text kvs)))"
    using getNumber_dec_nat[OF assms(7,2)] by (simp add: contentLength_def)
  from request_content_length[OF this assms(4)] assms(3) obtain rq' where
    c: "request_content rq = Inr (rq', form_text kvs)" by auto
  then have fd: "rq_formData rq' = []"
    using assms(5) by (auto simp: request_content_def bind_result_Inr_iff Let_def split: if_splits)
  have "form_text kvs \<noteq> []" using assms(1) by (cases kvs rule: form_text.cases) auto
  then have has: "hasFormData rq = Inr True" using assms(6) len by (simp add: hasFormData_def)
  let ?es = "lines_of (CHR ''&'') (form_text kvs)"
  let ?d = "fold (\<lambda>e d. let (k, v) = form_entry e in dict_set d k v) ?es []"
  have "?d = fold (\<lambda>(k, v) d. dict_set d k v) (map form_entry ?es) []" by (simp add: fold_map comp_def case_prod_beta)
  then have d: "?d = fold (\<lambda>(k, v) d. dict_set d k v) kvs []" by (simp only: form_text_entries)
  have "dict_inv ?d \<and> dict_lookup ?d = map_of (rev kvs)"
    unfolding d using dict.ok_fold[OF dict.ok_empty, of kvs] by (simp add: dict.look_fold_empty)
  moreover have "request_formData rq = Inr (rq'\<lparr>rq_formData := ?d\<rparr>, ?d)"
    by (simp add: request_formData_def has assms(5) c fd Let_def)
  ultimately show ?thesis by (auto simp: getString_lookup)
qed

definition form_request :: request where
  "form_request =
     \<lparr>rq_stream = form_text [(''a'', ''&''), (''a'', ''='')], rq_valid = True, rq_method = ''POST'', rq_uri = ''/'',
      rq_protocol = ''HTTP/1.1'', rq_logInfo = [],
      rq_headers = [(HTTP_HEADER_CONTENT_TYPE, ''application/x-www-form-urlencoded''),
        (HTTP_HEADER_CONTENT_LENGTH, dec_nat (length (form_text [(''a'', ''&''), (''a'', ''='')])))],
      rq_content = [], rq_formData = []\<rparr>"

theorem form_data_roundtrip_witness:
  "\<exists>rq' d. request_formData form_request = Inr (rq', d) \<and> getString d ''a'' = ''=''"
proof -
  have a: "length (form_text [(''a'', ''&''), (''a'', ''='')]) < 2 ^ 31"
    "request_header form_request HTTP_HEADER_CONTENT_TYPE = ''application/x-www-form-urlencoded''"
    "dict_lookup (rq_headers form_request) HTTP_HEADER_CONTENT_LENGTH =
       Some (dec_nat (length (form_text [(''a'', ''&''), (''a'', ''='')])))"
    by code_simp+
  from form_data_roundtrip[OF _ a(1) _ _ _ a(2,3), of "[]"] show ?thesis
    by (force simp: form_request_def)
qed

text \<open>A content length that is not a number is undefined behaviour: the conversion of the header to
  a number yields NaN, which \<open>contentLength\<close> converts to an \<open>int\<close>.\<close>

theorem content_length_not_a_number:
  assumes "dict_lookup (rq_headers rq) HTTP_HEADER_CONTENT_LENGTH = Some s" "read_double s = None"
  shows "request_content rq = Inl ConversionUB"
proof -
  have "hasKey (rq_headers rq) HTTP_HEADER_CONTENT_LENGTH" using assms(1) by (simp add: hasKey_iff)
  with assms show ?thesis
    by (simp add: request_content_def contentLength_def getNumber_def getString_lookup strtonum_def int_of_dbl_def)
qed

theorem content_length_not_a_number_witness:
  "request_content (form_request\<lparr>rq_headers := [(HTTP_HEADER_CONTENT_LENGTH, ''abc'')]\<rparr>) = Inl ConversionUB"
proof -
  have "read_double ''abc'' = None" by code_simp
  then show ?thesis
    by (intro content_length_not_a_number) (simp_all add: dict_lookup_def)
qed

text \<open>The path of an absolute URL is found, and one without a path after the host throws out of
  \<open>toRelativeUrl\<close>.\<close>

theorem relative_url_cases:
  assumes "CHR '':'' \<notin> set proto" "CHR ''/'' \<notin> set host"
  shows "toRelativeUrl (proto @ ''://'' @ host @ CHR ''/'' # path) = Inr (CHR ''/'' # path) \<and>
    toRelativeUrl (proto @ ''://'' @ host) = Inl OutOfRange"
  using toRelativeUrl_absolute[OF assms] by blast

theorem relative_url_cases_witness:
  "toRelativeUrl ''http://host/eSCL'' = Inr ''/eSCL'' \<and> toRelativeUrl ''http://host'' = Inl OutOfRange"
  using relative_url_cases[of "''http''" "''host''" "''eSCL''"] by simp

end
