(* ===== verification/WebPage.thy ===== *)
theory WebPage
  imports HttpProtocol
begin

text \<open>
  \<open>src/web/webpage.cpp\<close> and \<open>src/web/errorpage.cpp\<close>: HTML elements, pages and the page for errors.

  The derived classes of \<open>WebPage::element\<close> that override \<open>toString\<close> are the constructors of
  \<open>element_kind\<close>. A page's \<open>onRender\<close> is an argument of \<open>render\<close>: it receives the page, the request and the
  response and returns them, with what was written to \<open>out()\<close>.
\<close>

definition quoted :: "string \<Rightarrow> string" where
  "quoted s = squote @ s @ squote"

subsection \<open>Text\<close>

definition html_char :: "char \<Rightarrow> string" where
  "html_char c =
     (if c = CHR ''&'' then ''&amp;''
      else if c = CHR ''<'' then ''&lt;''
      else if c = CHR ''>'' then ''&gt;''
      else if c = chr_squote then ''&apos;''
      else if c = chr_dquote then ''&quot;''
      else if c = chr_nl then ''<br>'' @ nl
      else [c])"

definition htmlEscape :: "string \<Rightarrow> string" where
  "htmlEscape s = concat (map html_char s)"

definition wp_numtostr :: "dbl \<Rightarrow> string" where
  "wp_numtostr d = dbl_str d"

subsection \<open>Elements\<close>

datatype element_kind = PlainElement | LineElement | FieldElement string | SelectElement string dictionary

record element =
  el_tag :: string
  el_text :: string
  el_attributes :: dictionary
  el_kind :: element_kind

definition new_element :: "string \<Rightarrow> element" where
  "new_element t = \<lparr>el_tag = t, el_text = [], el_attributes = [], el_kind = PlainElement\<rparr>"

definition addContent :: "string \<Rightarrow> element \<Rightarrow> element" where
  "addContent s e = e\<lparr>el_text := el_text e @ s\<rparr>"

definition addText :: "string \<Rightarrow> element \<Rightarrow> element" where
  "addText s e = addContent (htmlEscape s) e"

definition setAttribute :: "string \<Rightarrow> string \<Rightarrow> element \<Rightarrow> element" where
  "setAttribute k v e = e\<lparr>el_attributes := dict_set (el_attributes e) k v\<rparr>"

definition setAttributeNum :: "string \<Rightarrow> dbl \<Rightarrow> element \<Rightarrow> element" where
  "setAttributeNum k d e = setAttribute k (wp_numtostr d) e"

definition br :: element where
  "br = (new_element ''br'')\<lparr>el_kind := LineElement\<rparr>"

definition heading :: "nat \<Rightarrow> element" where
  "heading level = new_element (''h'' @ wp_numtostr (Fin (of_nat level)))"

definition paragraph_el :: element where
  "paragraph_el = (new_element ''p'')\<lparr>el_kind := LineElement\<rparr>"

definition html_list :: element where
  "html_list = new_element ''ul''"

definition anchor :: "string \<Rightarrow> element" where
  "anchor href = setAttribute ''href'' href (new_element ''a'')"

definition formInput :: "string \<Rightarrow> element" where
  "formInput type = setAttribute ''type'' type ((new_element ''input'')\<lparr>el_kind := FieldElement []\<rparr>)"

definition formSelect :: element where
  "formSelect = (new_element ''select'')\<lparr>el_kind := SelectElement [] []\<rparr>"

definition setName :: "string \<Rightarrow> element \<Rightarrow> element" where
  "setName s e = setAttribute ''name'' s e"

definition setValue :: "string \<Rightarrow> element \<Rightarrow> element" where
  "setValue s e = setAttribute ''value'' s e"

definition setLabel :: "string \<Rightarrow> element \<Rightarrow> element" where
  "setLabel l e = e\<lparr>el_kind := (case el_kind e of SelectElement _ opts \<Rightarrow> SelectElement l opts
     | FieldElement _ \<Rightarrow> FieldElement l | k \<Rightarrow> k)\<rparr>"

definition addOption :: "string \<Rightarrow> string \<Rightarrow> element \<Rightarrow> element" where
  "addOption v t e = e\<lparr>el_kind := (case el_kind e of
       SelectElement l opts \<Rightarrow> SelectElement l (dict_set opts v (if t = [] then v else t)) | k \<Rightarrow> k)\<rparr>"

definition addOptions :: "string list \<Rightarrow> element \<Rightarrow> element" where
  "addOptions vs e = fold (\<lambda>v. addOption v []) vs e"

definition attribute_text :: "(string \<Rightarrow> string) \<Rightarrow> string \<times> string \<Rightarrow> string" where
  "attribute_text esc a = '' '' @ fst a @ ''='' @ quoted (esc (snd a))"

definition base_toString :: "element \<Rightarrow> string" where
  "base_toString e =
     ''<'' @ el_tag e @ concat (map (attribute_text htmlEscape) (el_attributes e)) @ ''>'' @
     (if el_text e \<noteq> [] then el_text e @ ''</'' @ el_tag e @ ''>'' else [])"

definition labelHtml :: "string \<Rightarrow> element \<Rightarrow> string" where
  "labelHtml l e =
     (if l = [] then []
      else let label = (if l = ''*'' then getString (el_attributes e) ''name'' else l)
           in ''<label for='' @ quoted (getString (el_attributes e) ''name'') @ ''>'' @ label @ ''</label>'' @ nl)"

text \<open>In a selection field neither the attributes nor the options are escaped.\<close>

definition select_toString :: "string \<Rightarrow> dictionary \<Rightarrow> element \<Rightarrow> string" where
  "select_toString l opts e =
     labelHtml l e @ ''<select autocomplete='' @ quoted ''off'' @
     concat (map (\<lambda>a. if fst a = ''value'' then [] else attribute_text id a) (el_attributes e)) @ ''>'' @ nl @
     concat (map (\<lambda>opt. ''<option value='' @ quoted (fst opt) @
        (if fst opt = getString (el_attributes e) ''value'' then '' selected'' else []) @
        ''>'' @ snd opt @ ''</option>'' @ nl) opts) @
     ''</select>'' @ nl"

definition element_toString :: "element \<Rightarrow> string" where
  "element_toString e = (case el_kind e of
      PlainElement \<Rightarrow> base_toString e
    | LineElement \<Rightarrow> base_toString e @ nl
    | FieldElement l \<Rightarrow> labelHtml l e @ base_toString e
    | SelectElement l opts \<Rightarrow> select_toString l opts e)"

definition addItem :: "string \<Rightarrow> element \<Rightarrow> element" where
  "addItem s e = addContent (''<li>'' @ s @ ''</li>'') e"

definition addItemElement :: "element \<Rightarrow> element \<Rightarrow> element" where
  "addItemElement i e = addItem (element_toString i) e"

subsection \<open>Pages\<close>

record page =
  pg_title :: string
  pg_style :: string
  pg_faviconType :: string
  pg_faviconUrl :: string

definition addStyle :: "string \<Rightarrow> page \<Rightarrow> page" where
  "addStyle s p = p\<lparr>pg_style := pg_style p @ s @ nl\<rparr>"

definition page_init :: page where
  "page_init = addStyle ''body { font-family:sans-serif }''
     \<lparr>pg_title = [], pg_style = [], pg_faviconType = [], pg_faviconUrl = []\<rparr>"

definition setTitle :: "string \<Rightarrow> page \<Rightarrow> page" where
  "setTitle s p = p\<lparr>pg_title := s\<rparr>"

definition setFavicon :: "string \<Rightarrow> string \<Rightarrow> page \<Rightarrow> page" where
  "setFavicon t u p = p\<lparr>pg_faviconType := t, pg_faviconUrl := u\<rparr>"

definition clearFavicon :: "page \<Rightarrow> page" where
  "clearFavicon p = p\<lparr>pg_faviconType := [], pg_faviconUrl := []\<rparr>"

definition clearStyle :: "page \<Rightarrow> page" where
  "clearStyle p = p\<lparr>pg_style := []\<rparr>"

definition page_html :: "page \<Rightarrow> string \<Rightarrow> string" where
  "page_html p body =
     ''<!DOCTYPE HTML>'' @ nl @ ''<html>'' @ nl @ ''<head>'' @ nl @
     ''<meta charset='' @ quoted ''utf-8'' @ ''/>'' @ nl @
     ''<title>'' @ htmlEscape (pg_title p) @ ''</title>'' @ nl @
     ''<style>'' @ pg_style p @ ''</style>'' @ nl @
     (if pg_faviconType p \<noteq> [] \<and> pg_faviconUrl p \<noteq> []
      then ''<link rel='' @ quoted ''icon'' @ '' type='' @ quoted (pg_faviconType p) @ '' href='' @
           quoted (pg_faviconUrl p) @ ''>'' @ nl
      else []) @
     ''</head>'' @ nl @ ''<body>'' @ nl @ body @ ''</body>'' @ nl @ ''</html>'' @ nl"

type_synonym 'w renderer = "page \<Rightarrow> request \<Rightarrow> response \<Rightarrow> 'w \<Rightarrow> (page \<times> string \<times> request \<times> response \<times> 'w) result option"

definition render ::
  "'w renderer \<Rightarrow> page \<Rightarrow> request \<Rightarrow> response \<Rightarrow> 'w \<Rightarrow> (page \<times> request \<times> response \<times> 'w) result option" where
  "render onRender p rq r w =
     map_option (\<lambda>res. bind_result res (\<lambda>(p', body, rq', r', w').
       if rs_sent r' then Inr (p', rq', r', w')
       else bind_result (sendWithContent (page_html p' body) (setHeader HTTP_HEADER_CONTENT_TYPE ''text/html'' r'))
              (\<lambda>r''. Inr (p', rq', r'', w'))))
       (onRender p rq r w)"

subsection \<open>The error page\<close>

definition ErrorPage :: "int \<Rightarrow> page" where
  "ErrorPage code = setTitle (''Error '' @ dec_int code @ '': '' @ statusReason code) page_init"

definition error_body :: "page \<Rightarrow> request \<Rightarrow> string" where
  "error_body p rq =
     element_toString (addText (pg_title p) (heading 1)) @ nl @
     element_toString (addText ''when processing request: '' paragraph_el) @ nl @
     element_toString (addText (request_print rq) paragraph_el)"

definition error_onRender :: "'w renderer" where
  "error_onRender p rq r w = Some (Inr (p, error_body p rq, rq, r, w))"

subsection \<open>Escaping\<close>

text \<open>An HTML reader for text: the five character references, and \<open><br>\<close> with the line end that follows.\<close>

fun html_unescape :: "string \<Rightarrow> string" where
  "html_unescape [] = []"
| "html_unescape (c # cs) =
     (if prefix ''amp;'' cs \<and> c = CHR ''&'' then CHR ''&'' # html_unescape (drop 4 cs)
      else if prefix ''lt;'' cs \<and> c = CHR ''&'' then CHR ''<'' # html_unescape (drop 3 cs)
      else if prefix ''gt;'' cs \<and> c = CHR ''&'' then CHR ''>'' # html_unescape (drop 3 cs)
      else if prefix ''apos;'' cs \<and> c = CHR ''&'' then chr_squote # html_unescape (drop 5 cs)
      else if prefix ''quot;'' cs \<and> c = CHR ''&'' then chr_dquote # html_unescape (drop 5 cs)
      else if prefix (''br>'' @ nl) cs \<and> c = CHR ''<'' then chr_nl # html_unescape (drop 4 cs)
      else c # html_unescape cs)"

declare html_unescape.simps(2) [simp del]

lemma html_unescape_char: "html_unescape (html_char c @ s) = c # html_unescape s"
proof -
  consider "c = CHR ''&''" | "c = CHR ''<''" | "c = CHR ''>''" | "c = chr_squote" | "c = chr_dquote" | "c = chr_nl"
    | "c \<notin> {CHR ''&'', CHR ''<'', CHR ''>'', chr_squote, chr_dquote, chr_nl}" by blast
  then show ?thesis
    by cases (simp_all add: html_char_def html_unescape.simps(2) nl_def)
qed

text \<open>
  Text that cannot be mistaken for markup: no quote, no \<open>>\<close> or \<open><\<close> other than those of the line breaks.
\<close>

definition harmless :: "string \<Rightarrow> bool" where
  "harmless s \<longleftrightarrow> (\<exists>lines. s = concat (map (\<lambda>l. l @ ''<br>'' @ nl) (butlast lines)) @ last lines \<and> lines \<noteq> [] \<and>
     (\<forall>l \<in> set lines. set l \<inter> {CHR ''<'', CHR ''>'', chr_squote, chr_dquote} = {}))"

lemma harmless_Cons:
  assumes "harmless s" "set x \<inter> {CHR ''<'', CHR ''>'', chr_squote, chr_dquote} = {}"
  shows "harmless (x @ s)"
proof -
  from assms(1) obtain lines where l: "s = concat (map (\<lambda>l. l @ ''<br>'' @ nl) (butlast lines)) @ last lines" "lines \<noteq> []"
      "\<forall>l \<in> set lines. set l \<inter> {CHR ''<'', CHR ''>'', chr_squote, chr_dquote} = {}"
    unfolding harmless_def by blast
  show ?thesis
    unfolding harmless_def
    using l assms(2)
    by (intro exI[of _ "(x @ hd lines) # tl lines"]) (cases lines; auto)
qed

lemma harmless_break:
  assumes "harmless s"
  shows "harmless (''<br>'' @ nl @ s)"
proof -
  from assms obtain lines where l: "s = concat (map (\<lambda>l. l @ ''<br>'' @ nl) (butlast lines)) @ last lines" "lines \<noteq> []"
      "\<forall>l \<in> set lines. set l \<inter> {CHR ''<'', CHR ''>'', chr_squote, chr_dquote} = {}"
    unfolding harmless_def by blast
  then show ?thesis unfolding harmless_def by (intro exI[of _ "[] # lines"]) auto
qed

lemma htmlEscape_harmless: "harmless (htmlEscape s)"
proof (induction s)
  case Nil
  show ?case by (simp add: htmlEscape_def harmless_def exI[of _ "[[]]"])
next
  case (Cons c s)
  show ?case
  proof (cases "c = chr_nl")
    case True
    then show ?thesis using harmless_break[OF Cons] by (simp add: htmlEscape_def html_char_def)
  next
    case False
    then have "set (html_char c) \<inter> {CHR ''<'', CHR ''>'', chr_squote, chr_dquote} = {}"
      by (simp add: html_char_def)
    from harmless_Cons[OF Cons this] show ?thesis by (simp add: htmlEscape_def)
  qed
qed

subsection \<open>Properties\<close>

text \<open>Escaped text is read back by an HTML reader as it was, and holds no markup but line breaks, and no
  quotes, so it can stand in a text and in a quoted attribute.\<close>

theorem html_escape_roundtrip: "html_unescape (htmlEscape s) = s \<and> harmless (htmlEscape s)"
proof
  show "html_unescape (htmlEscape s) = s"
    by (induction s) (simp_all add: htmlEscape_def html_unescape_char)
qed (rule htmlEscape_harmless)

text \<open>The error page is safe. Whatever request caused it, header fields and target included, what comes
  from the client appears in the page once, as harmless text between markup that does not depend on the
  request, and reading this text yields the request as the server printed it.\<close>

theorem error_page_safe:
  "\<exists>before. \<forall>rq. error_body (ErrorPage code) rq = before @ ''<p>'' @ htmlEscape (request_print rq) @ ''</p>'' @ nl \<and>
     harmless (htmlEscape (request_print rq)) \<and> html_unescape (htmlEscape (request_print rq)) = request_print rq"
proof -
  have ne: "htmlEscape (request_print rq) \<noteq> []" for rq
  proof -
    have "request_print rq \<noteq> []" by (simp add: request_print_def)
    moreover have "html_char c \<noteq> []" for c by (simp add: html_char_def)
    ultimately show ?thesis by (cases "request_print rq") (simp_all add: htmlEscape_def)
  qed
  have un: "html_unescape (htmlEscape t) = t" for t
    by (induction t) (simp_all add: htmlEscape_def html_unescape_char)
  have p: "element_toString (addText (request_print rq) paragraph_el) =
      ''<p>'' @ htmlEscape (request_print rq) @ ''</p>'' @ nl" for rq
    by (simp add: element_toString_def base_toString_def addText_def addContent_def paragraph_el_def
        new_element_def ne)
  show ?thesis
    by (rule exI[of _ "element_toString (addText (pg_title (ErrorPage code)) (heading 1)) @ nl @
          element_toString (addText ''when processing request: '' paragraph_el) @ nl"])
      (simp add: error_body_def p un htmlEscape_harmless)
qed

end
