(* ===== verification/HttpServer.thy ===== *)
theory HttpServer
  imports AccessFile WebPage
begin

text \<open>
  The server object of \<open>src/web/httpserver.cpp\<close>: its settings, the loop that accepts connections until it is told to
  terminate, and the handling of one connection.

  Connections are handled by threads of their own; a run yields the connections it accepted, in order, and
  \<open>handleRequest\<close> is what each thread does. The system is an argument: the addresses of the interfaces, whether a socket
  can be opened, and what \<open>poll\<close> reports, one event after the other. \<open>None\<close> means that the loop goes on.
\<close>

subsection \<open>Settings\<close>

definition anyInterface :: int where "anyInterface = - 1"
definition invalidInterface :: int where "invalidInterface = 0"

record http_server =
  hs_terminationStatus :: int
  hs_lastError :: int
  hs_port :: int
  hs_interfaceName :: string
  hs_unixSocket :: string
  hs_interfaceIndex :: int
  hs_backlog :: int
  hs_accessFile :: access_file
  hs_running :: bool

definition setInterfaceIndex :: "(int \<Rightarrow> string option) \<Rightarrow> int \<Rightarrow> http_server \<Rightarrow> http_server" where
  "setInterfaceIndex indextoname i hs =
     (if i = anyInterface then hs\<lparr>hs_interfaceName := ''*'', hs_interfaceIndex := anyInterface\<rparr>
      else if i = invalidInterface then hs\<lparr>hs_interfaceName := ''<invalid>'', hs_interfaceIndex := invalidInterface\<rparr>
      else case indextoname i of
             Some n \<Rightarrow> hs\<lparr>hs_interfaceName := n, hs_interfaceIndex := i\<rparr>
           | None \<Rightarrow> hs\<lparr>hs_interfaceName := ''<invalid>'', hs_interfaceIndex := invalidInterface\<rparr>)"

text \<open>\<open>if_nametoindex\<close> returns zero for an unknown name.\<close>

definition setInterfaceName :: "(string \<Rightarrow> int) \<Rightarrow> string \<Rightarrow> http_server \<Rightarrow> http_server" where
  "setInterfaceName nametoindex s hs =
     (if s = ''*'' then hs\<lparr>hs_interfaceName := ''*'', hs_interfaceIndex := anyInterface\<rparr>
      else let i = nametoindex s in
           if i = 0 then hs\<lparr>hs_interfaceName := ''<invalid>'', hs_interfaceIndex := invalidInterface\<rparr>
           else hs\<lparr>hs_interfaceName := s, hs_interfaceIndex := i\<rparr>)"

definition setPort :: "int \<Rightarrow> http_server \<Rightarrow> http_server" where
  "setPort p hs = hs\<lparr>hs_port := p mod 65536\<rparr>"

definition setUnixSocket :: "string \<Rightarrow> http_server \<Rightarrow> http_server" where
  "setUnixSocket s hs = hs\<lparr>hs_unixSocket := s\<rparr>"

definition setBacklog :: "int \<Rightarrow> http_server \<Rightarrow> http_server" where
  "setBacklog b hs = hs\<lparr>hs_backlog := b\<rparr>"

definition applyAccessFile :: "access_file \<Rightarrow> http_server \<Rightarrow> http_server" where
  "applyAccessFile f hs = hs\<lparr>hs_accessFile := f\<rparr>"

definition HttpServer_init :: "(int \<Rightarrow> string option) \<Rightarrow> int \<Rightarrow> http_server" where
  "HttpServer_init indextoname somaxconn =
     setPort 8080 (setInterfaceIndex indextoname anyInterface
       \<lparr>hs_terminationStatus = 0, hs_lastError = 0, hs_port = 0, hs_interfaceName = [], hs_unixSocket = [],
        hs_interfaceIndex = invalidInterface, hs_backlog = somaxconn,
        hs_accessFile = \<lparr>af_entries = [], af_errors = []\<rparr>, hs_running = False\<rparr>)"

subsection \<open>Listening\<close>

definition EINTR :: int where "EINTR = 4"
definition ENXIO :: int where "ENXIO = 6"
definition EINVAL :: int where "EINVAL = 22"
definition ENAMETOOLONG :: int where "ENAMETOOLONG = 36"
definition EBADMSG :: int where "EBADMSG = 74"
definition EADDRNOTAVAIL :: int where "EADDRNOTAVAIL = 99"

text \<open>\<open>getifaddrs\<close>: names and addresses, or \<open>None\<close> on failure. An interface may have no address.\<close>

type_synonym ifaddrs = "(string \<times> sockaddr option) list option"

definition interfaceAddresses :: "ifaddrs \<Rightarrow> string option \<Rightarrow> sockaddr list" where
  "interfaceAddresses ifs if_name = (case ifs of None \<Rightarrow> []
     | Some l \<Rightarrow> concat (map (\<lambda>(name, addr). case addr of None \<Rightarrow> []
         | Some a \<Rightarrow> if if_name = None \<or> if_name = Some name
             then (case a of Inet _ \<Rightarrow> [a] | Inet6 _ \<Rightarrow> [a] | _ \<Rightarrow> []) else []) l))"

definition sun_path_size :: nat where "sun_path_size = 108"

definition determineAddresses :: "ifaddrs \<Rightarrow> http_server \<Rightarrow> int \<times> sockaddr list" where
  "determineAddresses ifs hs =
     (let (err, addrs) =
        (if hs_unixSocket hs \<noteq> [] then
           (if length (hs_unixSocket hs) \<ge> sun_path_size then (ENAMETOOLONG, []) else (0, [UnixAddr (hs_unixSocket hs)]))
         else if hs_interfaceIndex hs = invalidInterface then (ENXIO, [])
         else (0, interfaceAddresses ifs (if hs_interfaceIndex hs = anyInterface then None else Some (hs_interfaceName hs))))
      in (if err = 0 \<and> addrs = [] then EINVAL else err, addrs))"

text \<open>
  The system calls that set up a socket; each yields a value or an \<open>errno\<close>. A sequence of calls stops at the first
  failure of a call whose result is checked. Closing the socket leaves \<open>errno\<close> alone. (The mode is 0660 in octal.)
\<close>

datatype socket_call =
    Socket sockaddr | Unlink string | SetReuse int | Bind int sockaddr int | Chmod string int | Listen int int | CloseFd int

fun call_seq :: "(socket_call \<Rightarrow> int + int) \<Rightarrow> (socket_call \<times> bool) list \<Rightarrow> socket_call list \<times> int option" where
  "call_seq sys [] = ([], None)"
| "call_seq sys ((c, checked) # cs) =
     (case (sys c, checked) of
        (Inl e, True) \<Rightarrow> ([c], Some e)
      | _ \<Rightarrow> (let (done, err) = call_seq sys cs in (c # done, err)))"

definition socket_setup :: "http_server \<Rightarrow> int \<Rightarrow> sockaddr \<Rightarrow> (socket_call \<times> bool) list" where
  "socket_setup hs fd addr = (case addr of
       UnixAddr path \<Rightarrow> [(Unlink path, False), (Bind fd addr (hs_port hs), True), (Chmod path 432, False), (Listen fd (hs_backlog hs), True)]
     | _ \<Rightarrow> [(SetReuse fd, True), (Bind fd addr (hs_port hs), True), (Listen fd (hs_backlog hs), True)])"

definition createListeningSocket ::
  "(socket_call \<Rightarrow> int + int) \<Rightarrow> http_server \<Rightarrow> sockaddr \<Rightarrow> socket_call list \<times> (int + int)" where
  "createListeningSocket sys hs addr =
     (case sys (Socket addr) of Inl e \<Rightarrow> ([Socket addr], Inl e)
      | Inr fd \<Rightarrow>
          (case call_seq sys (socket_setup hs fd addr) of
             (done, None) \<Rightarrow> (Socket addr # done, Inr fd)
           | (done, Some e) \<Rightarrow> (Socket addr # done @ [CloseFd fd], Inl e)))"

text \<open>
  A socket per address. An address that is not available is taken as if it were listening, with a negative descriptor.
\<close>

fun open_sockets :: "(socket_call \<Rightarrow> int + int) \<Rightarrow> http_server \<Rightarrow> sockaddr list \<Rightarrow> int \<times> int list" where
  "open_sockets sys hs [] = (0, [])"
| "open_sockets sys hs (a # as) =
     (let (err, fds) = open_sockets sys hs as in
      case snd (createListeningSocket sys hs a) of
        Inl e \<Rightarrow> if e \<noteq> EADDRNOTAVAIL then (if err = 0 then e else err, fds) else (err, - 1 # fds)
      | Inr fd \<Rightarrow> (err, fd # fds))"

subsection \<open>The loop\<close>

type_synonym connection = "int \<times> sockaddr"

datatype poll_event =
    PipeValue int                \<comment> \<open>the pipe is readable and holds a value\<close>
  | PipeError int                \<comment> \<open>the pipe is readable, but reading fails with this \<open>errno\<close>\<close>
  | Incoming "connection list"   \<comment> \<open>connections that were accepted\<close>
  | PollFailed int               \<comment> \<open>\<open>poll\<close> fails with this \<open>errno\<close>\<close>

fun serve :: "poll_event list \<Rightarrow> int \<Rightarrow> (connection list \<times> int \<times> int) option" where
  "serve [] status = None"
| "serve (PipeValue v # evs) status = Some ([], 0, v)"
| "serve (PipeError e # evs) status = Some ([], if e \<noteq> 0 then e else EBADMSG, status)"
| "serve (Incoming cs # evs) status = map_option (\<lambda>(cs', r). (cs @ cs', r)) (serve evs status)"
| "serve (PollFailed e # evs) status = (if e = EINTR then serve evs status else Some ([], e, status))"

definition http_run ::
  "int option \<Rightarrow> ifaddrs \<Rightarrow> (socket_call \<Rightarrow> int + int) \<Rightarrow> poll_event list \<Rightarrow> http_server \<Rightarrow> (bool \<times> connection list \<times> http_server) option" where
  "http_run pipe_error ifs sys evs hs =
     (if hs_running hs then Some (False, [], hs\<lparr>hs_terminationStatus := - 1\<rparr>)
      else case pipe_error of
        Some e \<Rightarrow> Some (False, [], hs\<lparr>hs_running := True, hs_lastError := e, hs_terminationStatus := - 1\<rparr>)
      | None \<Rightarrow>
          let (err0, addrs) = determineAddresses ifs hs;
              err1 = (if err0 \<noteq> 0 then err0 else fst (open_sockets sys hs addrs))
          in map_option (\<lambda>(cs, err, status).
               (err = 0, cs, hs\<lparr>hs_running := False, hs_lastError := err,
                  hs_terminationStatus := (if err \<noteq> 0 \<and> status = 0 then - 1 else status)\<rparr>))
             (if err1 \<noteq> 0 then Some ([], err1, 0) else serve evs 0))"

text \<open>\<open>terminate\<close>: the flag tells whether the value was written to the pipe, and the pipe is the list of values in it.\<close>

definition terminate :: "bool \<Rightarrow> int \<Rightarrow> int list \<Rightarrow> http_server \<Rightarrow> bool \<times> int list \<times> http_server" where
  "terminate written status pipe hs =
     (if \<not> hs_running hs then (True, pipe, hs\<lparr>hs_terminationStatus := status\<rparr>)
      else (written, if written then pipe @ [status] else pipe, hs))"

subsection \<open>One connection\<close>

text \<open>
  A handler is what a derived class does in \<open>onRequest\<close>, with its own state. The stream is flushed, then the response is
  destroyed, which ends a chunked message, and then the buffer of the connection, which writes what is left.
\<close>

type_synonym 'w handler = "request \<Rightarrow> response \<Rightarrow> 'w \<Rightarrow> (request \<times> response \<times> 'w) result option"

definition close_connection :: "response \<Rightarrow> ostream" where
  "close_connection r = os_flush (response_end (r\<lparr>rs_stream := os_flush (rs_stream r)\<rparr>))"

definition error_response :: "int \<Rightarrow> request \<Rightarrow> response \<Rightarrow> 'w \<Rightarrow> (response \<times> 'w) result option" where
  "error_response status rq r w =
     map_option (\<lambda>x. bind_result x (\<lambda>(p, rq', r', w'). Inr (r', w')))
       (render error_onRender (ErrorPage status) rq (setStatus status r) w)"

definition respond :: "'w handler \<Rightarrow> request \<Rightarrow> response \<Rightarrow> 'w \<Rightarrow> (response \<times> 'w) result option" where
  "respond onRequest rq r w =
     (if \<not> rq_valid rq then error_response HTTP_BAD_REQUEST rq r w
      else case onRequest rq r w of None \<Rightarrow> None | Some (Inl e) \<Rightarrow> Some (Inl e)
         | Some (Inr (rq', r', w')) \<Rightarrow>
             if rs_sent r' then Some (Inr (r', w')) else error_response HTTP_NOT_FOUND rq' r' w')"

definition handleRequest ::
  "'w handler \<Rightarrow> access_file \<Rightarrow> sockaddr \<Rightarrow> string \<Rightarrow> ostream \<Rightarrow> 'w \<Rightarrow> (ostream \<times> 'w) result option" where
  "handleRequest onRequest access address input os w =
     (case isAllowed access address of Inl e \<Rightarrow> Some (Inl e)
      | Inr allowed \<Rightarrow>
          if \<not> allowed then Some (Inr (os, w))
          else map_option (\<lambda>x. bind_result x (\<lambda>(r, w'). Inr (close_connection r, w')))
                 (respond onRequest (parse_request input) (response_init os) w))"

subsection \<open>What a handler owes its client\<close>

text \<open>
  A response that can be sent: the connection works, and nothing but the default encoding was asked for. An
  answer starts with a status line. A handler may leave a request unanswered, but then it leaves the
  connection alone.
\<close>

definition open_response :: "response \<Rightarrow> bool" where
  "open_response r \<longleftrightarrow> rs_chunk r = None \<and> os_reliable (rs_stream r) \<and> headers_inv (rs_headers r) \<and>
     response_header r HTTP_HEADER_TRANSFER_ENCODING = []"

definition answered :: "response \<Rightarrow> response \<Rightarrow> bool" where
  "answered r r' \<longleftrightarrow> rs_sent r' \<and> (\<exists>status. prefix (os_data (rs_stream r) @ status_line status) (os_data (rs_stream r')))"

definition untouched :: "response \<Rightarrow> response \<Rightarrow> bool" where
  "untouched r r' \<longleftrightarrow> open_response r' \<and> rs_stream r' = rs_stream r \<and> rs_sent r' = rs_sent r"

lemma open_response_setStatus [simp]: "open_response (setStatus st r) = open_response r"
  by (simp add: open_response_def setStatus_def response_header_def)

lemma open_response_setHeader:
  assumes "open_response r" "norm_key k \<noteq> HTTP_HEADER_TRANSFER_ENCODING"
  shows "open_response (setHeader k v r)"
proof -
  have "response_header (setHeader k v r) HTTP_HEADER_TRANSFER_ENCODING = response_header r HTTP_HEADER_TRANSFER_ENCODING"
    using set_headers_other[of "[(k, v)]" HTTP_HEADER_TRANSFER_ENCODING r] assms(2) by (simp add: set_headers_def)
  with assms(1) show ?thesis by (simp add: open_response_def headers_inv_setHeader)
qed

lemma setStatus_frame [simp]:
  "rs_stream (setStatus st r) = rs_stream r" "rs_sent (setStatus st r) = rs_sent r" "rs_chunk (setStatus st r) = rs_chunk r"
  "rs_headers (setStatus st r) = rs_headers r" "rs_status (setStatus st r) = st"
  by (simp_all add: setStatus_def)

lemma answered_setHeader [simp]: "answered (setHeader k v r) r' = answered r r'" "answered (setStatus st r) r' = answered r r'"
  by (simp_all add: answered_def)

lemma sendHeaders_answers:
  assumes "open_response r"
  obtains r' where "sendHeaders r = Inr r'" "open_response r'" "answered r r'"
proof -
  let ?r = "setHeader HTTP_HEADER_CONNECTION ''close'' r"
  have o: "open_response ?r" using assms by (intro open_response_setHeader) (simp_all add: norm_key_constants header_names_distinct(1)[symmetric])
  obtain r' where r': "sendHeaders r = Inr r'" "rs_sent r'" "rs_chunk r' = None" "os_reliable (rs_stream r')"
      "rs_headers r' = rs_headers ?r"
      "os_data (rs_stream r') = os_data (rs_stream r) @ status_line (rs_status r) @ print_headers (rs_headers r') @ crlf"
    using sendHeaders_plain[of r] assms by (auto simp: open_response_def)
  have "open_response r'" using o r' by (simp add: open_response_def response_header_def)
  moreover have "answered r r'" using r' by (auto simp: answered_def intro!: exI[of _ "rs_status r"])
  ultimately show thesis using that r'(1) by blast
qed

lemma response_send_answers:
  assumes "open_response r"
  obtains r' where "response_send r = Inr r'" "open_response r'" "answered r r'"
proof -
  have "open_response (setHeader HTTP_HEADER_CONTENT_LENGTH [] r)"
    using assms by (intro open_response_setHeader) (simp_all add: header_names_distinct(2)[symmetric])
  then obtain r' where "sendHeaders (setHeader HTTP_HEADER_CONTENT_LENGTH [] r) = Inr r'" "open_response r'"
      "answered (setHeader HTTP_HEADER_CONTENT_LENGTH [] r) r'"
    by (rule sendHeaders_answers)
  with that show thesis by (simp add: response_send_def)
qed

text \<open>Writing to a response that was sent.\<close>

lemma answered_put:
  assumes "open_response r'" "answered r r'"
  shows "open_response (resp_put s r') \<and> answered r (resp_put s r')"
proof -
  have "rs_headers (resp_put s r') = rs_headers r'" using assms(1) by (simp add: open_response_def resp_put_def)
  with assms show ?thesis
    by (auto simp: open_response_def answered_def resp_put_def response_header_def intro: exI prefix_prefix)
qed

lemma answered_flush:
  assumes "open_response r'" "answered r r'"
  shows "open_response (resp_flush r') \<and> answered r (resp_flush r')"
  using assms by (auto simp: open_response_def answered_def resp_flush_def response_header_def)

lemma sendWithContent_answers:
  assumes "open_response r"
  obtains r' where "sendWithContent s r = Inr r'" "open_response r'" "answered r r'"
proof -
  let ?r = "setHeaderInt HTTP_HEADER_CONTENT_LENGTH (wrap32 (int (length s))) r"
  have "open_response ?r"
    unfolding setHeaderInt_def using assms by (intro open_response_setHeader) (simp_all add: header_names_distinct(2)[symmetric])
  then obtain r1 where r1: "sendHeaders ?r = Inr r1" "open_response r1" "answered ?r r1" by (rule sendHeaders_answers)
  then have "answered r r1" by (simp add: setHeaderInt_def)
  with r1(2) have "open_response (resp_flush (resp_put s r1)) \<and> answered r (resp_flush (resp_put s r1))"
    using answered_put answered_flush by blast
  with r1(1) that show thesis by (simp add: sendWithContent_def)
qed

text \<open>A page that did not send its response is sent.\<close>

lemma render_answers:
  assumes "render onR p rq r w = Some (Inr (p', rq', r', w'))"
    and "\<And>p1 body rq1 r1 w1. onR p rq r w = Some (Inr (p1, body, rq1, r1, w1)) \<Longrightarrow> rs_sent r1 \<and> answered r r1 \<or> untouched r r1"
    and "\<not> rs_sent r"
  shows "answered r r'"
proof -
  from assms(1) obtain p1 body rq1 r1 w1 where o: "onR p rq r w = Some (Inr (p1, body, rq1, r1, w1))"
    and s: "(if rs_sent r1 then Inr (p1, rq1, r1, w1)
       else bind_result (sendWithContent (page_html p1 body) (setHeader HTTP_HEADER_CONTENT_TYPE ''text/html'' r1))
              (\<lambda>r''. Inr (p1, rq1, r'', w1))) = Inr (p', rq', r', w')"
    by (auto simp: render_def bind_result_Inr_iff)
  show ?thesis
  proof (cases "rs_sent r1")
    case True
    with s assms(2)[OF o] assms(3) show ?thesis by (auto simp: untouched_def)
  next
    case False
    with assms(2)[OF o] have u: "untouched r r1" by simp
    then have "open_response (setHeader HTTP_HEADER_CONTENT_TYPE ''text/html'' r1)"
      by (intro open_response_setHeader) (simp_all add: untouched_def header_names_distinct(5)[symmetric])
    then obtain r2 where r2: "sendWithContent (page_html p1 body) (setHeader HTTP_HEADER_CONTENT_TYPE ''text/html'' r1) = Inr r2"
        "answered (setHeader HTTP_HEADER_CONTENT_TYPE ''text/html'' r1) r2"
      by (rule sendWithContent_answers)
    with s False u show ?thesis by (auto simp: answered_def untouched_def)
  qed
qed

lemma error_response_answers:
  assumes "open_response r" "\<not> rs_sent r" "error_response status rq r w = Some (Inr (r', w'))"
  shows "answered r r' \<and> w' = w"
proof -
  from assms(3) obtain p rq1 where rd: "render error_onRender (ErrorPage status) rq (setStatus status r) w = Some (Inr (p, rq1, r', w'))"
    by (auto simp: error_response_def bind_result_Inr_iff)
  have "answered (setStatus status r) r'"
    by (rule render_answers[OF rd]) (use assms in \<open>auto simp: error_onRender_def untouched_def\<close>)
  moreover have "w' = w" using rd by (auto simp: render_def error_onRender_def bind_result_Inr_iff split: if_splits)
  ultimately show ?thesis by simp
qed

lemma error_response_returns:
  assumes "open_response r" "\<not> rs_sent r"
  shows "\<exists>r'. error_response status rq r w = Some (Inr (r', w))"
proof -
  have "open_response (setHeader HTTP_HEADER_CONTENT_TYPE ''text/html'' (setStatus status r))"
    using assms(1) by (intro open_response_setHeader) (simp_all add: header_names_distinct(5)[symmetric])
  then obtain r1 where "sendWithContent (page_html (ErrorPage status) (error_body (ErrorPage status) rq))
      (setHeader HTTP_HEADER_CONTENT_TYPE ''text/html'' (setStatus status r)) = Inr r1"
    by (rule sendWithContent_answers)
  with assms(2) show ?thesis by (simp add: error_response_def render_def error_onRender_def)
qed

text \<open>The contract of \<open>onRequest\<close>, and what the server makes of it.\<close>

locale request_handler =
  fixes handler :: "'w handler"
  assumes answers: "handler rq r w = Some (Inr (rq', r', w')) \<Longrightarrow> open_response r \<Longrightarrow> \<not> rs_sent r \<Longrightarrow>
    answered r r' \<or> untouched r r'"
begin

lemma respond_answers:
  assumes "respond handler rq r w = Some (Inr (r', w'))" "open_response r" "\<not> rs_sent r"
  shows "answered r r'"
proof (cases "rq_valid rq")
  case False
  with assms(1) have "error_response HTTP_BAD_REQUEST rq r w = Some (Inr (r', w'))" by (simp add: respond_def)
  from error_response_answers[OF assms(2,3) this] show ?thesis by simp
next
  case True
  with assms(1) obtain rq1 r1 w1 where h: "handler rq r w = Some (Inr (rq1, r1, w1))"
    and s: "(if rs_sent r1 then Some (Inr (r1, w1)) else error_response HTTP_NOT_FOUND rq1 r1 w1) = Some (Inr (r', w'))"
    by (auto simp: respond_def split: option.splits sum.splits)
  note a = answers[OF h assms(2,3)]
  show ?thesis
  proof (cases "rs_sent r1")
    case True
    with s a assms(3) show ?thesis by (auto simp: untouched_def)
  next
    case False
    with a have u: "untouched r r1" by (auto simp: answered_def)
    with s False error_response_answers[of r1 HTTP_NOT_FOUND rq1 w1 r' w'] have "answered r1 r'" by (auto simp: untouched_def)
    with u show ?thesis by (simp add: answered_def untouched_def)
  qed
qed

end

lemma open_response_init: "os_reliable os \<Longrightarrow> open_response (response_init os) \<and> \<not> rs_sent (response_init os)"
  by (simp add: open_response_def response_init_def headers_inv_init[unfolded response_init_def, simplified] response_header_def getString_def)

lemma chunk_sync_prefix:
  assumes "chunk_sync cb os = (cb1, os1, ok)"
  shows "prefix (os_data os) (os_data os1)"
proof -
  have p: "prefix (os_data os) (os_data (os_put s os))" for os s by (simp add: os_put_def)
  have "os1 = os \<or> os1 = os_flush (os_put crlf (os_put (cb_str cb) (os_put crlf (os_put (hex_nat (length (cb_str cb))) os))))"
    using assms by (auto simp: chunk_sync_def Let_def split: if_splits)
  moreover have "prefix (os_data os) (os_data (os_put d (os_put c (os_put b (os_put a os)))))" for a b c d
    using p prefix_order.trans by meson
  ultimately show ?thesis by auto
qed

lemma chunk_close_prefix: "prefix (os_data os) (os_data (chunk_close cb os))"
proof -
  obtain cb1 os1 ok where s: "chunk_sync cb os = (cb1, os1, ok)" by (cases "chunk_sync cb os")
  have "prefix (os_data os) (os_data os1)" by (rule chunk_sync_prefix[OF s])
  also have "prefix (os_data os1) (os_data (os_put (''0'' @ crlf @ crlf) os1))" by (simp add: os_put_def)
  finally show ?thesis by (simp add: chunk_close_def s)
qed

lemma resp_op_prefix: "rs_sent (resp_op x r) = rs_sent r \<and> prefix (os_data (rs_stream r)) (os_data (rs_stream (resp_op x r)))"
proof (cases x)
  case (Put s)
  then show ?thesis by (simp add: resp_put_def os_put_def split: option.split)
next
  case Flush
  show ?thesis
  proof (cases "rs_chunk r")
    case (Some cb)
    obtain cb1 os1 ok where s: "chunk_sync cb (rs_stream r) = (cb1, os1, ok)" by (cases "chunk_sync cb (rs_stream r)")
    with Some Flush chunk_sync_prefix[OF s] show ?thesis by (auto simp: resp_flush_def chunk_flush_def)
  qed (simp add: Flush resp_flush_def)
qed

lemma resp_ops_prefix:
  "rs_sent (fold resp_op ops r) = rs_sent r \<and> prefix (os_data (rs_stream r)) (os_data (rs_stream (fold resp_op ops r)))"
proof (induction ops arbitrary: r)
  case (Cons x ops)
  then show ?case using resp_op_prefix[of x r] by (auto intro: prefix_order.trans)
qed simp

lemma close_connection_prefix: "prefix (os_data (rs_stream r)) (os_data (close_connection r))"
  using chunk_close_prefix[of "os_flush (rs_stream r)"]
  by (auto simp: close_connection_def response_end_def split: option.split)

context request_handler
begin

text \<open>A client that may connect and whose handler returns gets an answer; another one gets nothing.\<close>

lemma connection_answered:
  assumes "handleRequest handler access address input os w = Some (Inr (os', w'))" "os_reliable os"
  shows "(isAllowed access address = Inr True \<longrightarrow> (\<exists>status. prefix (os_data os @ status_line status) (os_data os'))) \<and>
    (isAllowed access address = Inr False \<longrightarrow> os' = os \<and> w' = w)"
proof (cases "isAllowed access address = Inr True")
  case True
  with assms(1) obtain r where r: "respond handler (parse_request input) (response_init os) w = Some (Inr (r, w'))"
    "os' = close_connection r"
    by (auto simp: handleRequest_def bind_result_Inr_iff)
  have "answered (response_init os) r"
    using respond_answers[OF r(1)] open_response_init[OF assms(2)] by blast
  with r(2) close_connection_prefix[of r] True show ?thesis
    by (auto simp: answered_def response_init_def intro: prefix_order.trans)
qed (use assms(1) in \<open>auto simp: handleRequest_def\<close>)

end

end
