(* ===== verification/SaneCpp.thy ===== *)
theory SaneCpp
  imports Floating "HOL-Library.Word"
begin

unbundle bit_operations_syntax

text \<open>
  \<open>src/sanecpp/sanecpp.cpp\<close>: the C++ wrapper of the SANE API. The SANE library itself (\<open>sane_open\<close>,
  \<open>sane_read\<close>, ...) is not part of the repository: it is the parameter \<open>sane_lib\<close>, a record of functions
  on a state of an arbitrary type, which is the state of the backends and of their devices, and also of
  the clock of the system, since time passes while a backend works.

  The wrapper's own global state is the reference count of \<open>sane_init\<close> and \<open>sane_exit\<close>. A device handle
  is a number or null; calling the library with a null handle is the error \<open>NullDeref\<close>. An option keeps a
  pointer to a descriptor that the backend owns and may change, so a descriptor is read at its address
  in the library's state each time. Output to \<open>sanecpp::log\<close> is not modelled.
\<close>

subsection \<open>Data of the SANE API\<close>

datatype sane_status = GOOD | UNSUPPORTED | CANCELLED | DEVICE_BUSY | INVAL | EOF | JAMMED | NO_DOCS
  | COVER_OPEN | IO_ERROR | NO_MEM | ACCESS_DENIED

datatype sane_type = T_BOOL | T_INT | T_FIXED | T_STRING | T_BUTTON | T_GROUP

datatype sane_unit = U_NONE | U_PIXEL | U_BIT | U_MM | U_DPI | U_PERCENT | U_MICROSECOND

datatype sane_constraint =
    C_NONE
  | C_RANGE (range_min: int) (range_max: int) (range_quant: int)
  | C_WORD_LIST "int list"
  | C_STRING_LIST "string list"

record option_descriptor =
  od_name :: "string option"
  od_type :: sane_type
  od_unit :: sane_unit
  od_size :: int
  od_cap :: "32 word"
  od_constraint :: sane_constraint

record sane_parameters =
  sp_lines :: int
  sp_pixels_per_line :: int
  sp_bytes_per_line :: int
  sp_depth :: int

record device_info =
  di_name :: string
  di_vendor :: string
  di_model :: string
  di_type :: string

type_synonym handle = nat

text \<open>
  \<open>sl_descriptors h\<close> lists the addresses that \<open>sane_get_option_descriptor\<close> returns for the indices
  1, 2, ... until null. \<open>sl_read h n\<close> returns the bytes that \<open>sane_read\<close> stores into a buffer of \<open>n\<close>
  bytes. Words are the 32-bit integers of SANE.
\<close>

record 's sane_lib =
  sl_init :: "'s \<Rightarrow> 's"
  sl_exit :: "'s \<Rightarrow> 's"
  sl_get_devices :: "bool \<Rightarrow> 's \<Rightarrow> 's \<times> sane_status \<times> device_info list"
  sl_open :: "string \<Rightarrow> 's \<Rightarrow> 's \<times> sane_status \<times> handle"
  sl_close :: "handle \<Rightarrow> 's \<Rightarrow> 's"
  sl_descriptors :: "handle \<Rightarrow> 's \<Rightarrow> nat list"
  sl_deref :: "nat \<Rightarrow> 's \<Rightarrow> option_descriptor"
  sl_set_string :: "handle \<Rightarrow> nat \<Rightarrow> string \<Rightarrow> 's \<Rightarrow> 's \<times> sane_status \<times> 32 word"
  sl_get_string :: "handle \<Rightarrow> nat \<Rightarrow> 's \<Rightarrow> sane_status \<times> string"
  sl_set_words :: "handle \<Rightarrow> nat \<Rightarrow> int list \<Rightarrow> 's \<Rightarrow> 's \<times> sane_status \<times> 32 word"
  sl_get_words :: "handle \<Rightarrow> nat \<Rightarrow> 's \<Rightarrow> sane_status \<times> 32 word \<times> int list"
  sl_start :: "handle \<Rightarrow> 's \<Rightarrow> 's \<times> sane_status"
  sl_get_parameters :: "handle \<Rightarrow> 's \<Rightarrow> sane_status \<times> sane_parameters"
  sl_read :: "handle \<Rightarrow> nat \<Rightarrow> 's \<Rightarrow> 's \<times> sane_status \<times> string"
  sl_cancel :: "handle \<Rightarrow> 's \<Rightarrow> 's"
  sl_time :: "'s \<Rightarrow> int"

record 's world =
  w_sane :: 's
  w_refcount :: int

definition sane :: "('s \<Rightarrow> 's) \<Rightarrow> 's world \<Rightarrow> 's world" where
  "sane f w = w\<lparr>w_sane := f (w_sane w)\<rparr>"

definition SANE_OPTION_IS_ACTIVE :: "32 word \<Rightarrow> bool" where
  "SANE_OPTION_IS_ACTIVE cap = (cap AND 32 = 0)"

definition SANE_OPTION_IS_SETTABLE :: "32 word \<Rightarrow> bool" where
  "SANE_OPTION_IS_SETTABLE cap = (cap AND 1 \<noteq> 0)"

definition SANE_INFO_RELOAD_OPTIONS :: "32 word" where
  "SANE_INFO_RELOAD_OPTIONS = 2"

definition SANE_FIX :: "dbl \<Rightarrow> int result" where
  "SANE_FIX v = int_of_dbl (dmul v (Fin 65536))"

definition SANE_UNFIX :: "dbl \<Rightarrow> dbl" where
  "SANE_UNFIX v = ddiv v (Fin 65536)"

subsection \<open>Conversions and the reference count\<close>

definition strtod_c :: "string \<Rightarrow> dbl" where
  "strtod_c s = (case read_double s of Some d \<Rightarrow> d
     | None \<Rightarrow> if s = ''yes'' \<or> s = ''true'' then Fin 1
               else if s = ''no'' \<or> s = ''false'' then Fin 0 else NaN)"

definition dtostr_c :: "dbl \<Rightarrow> string" where
  "dtostr_c d = dbl_str d"

definition sane_init_addref :: "'s sane_lib \<Rightarrow> 's world \<Rightarrow> 's world" where
  "sane_init_addref lib w =
     (let w1 = w\<lparr>w_refcount := w_refcount w + 1\<rparr>
      in if w_refcount w1 = 1 then sane (sl_init lib) w1 else w1)"

definition sane_init_release :: "'s sane_lib \<Rightarrow> 's world \<Rightarrow> 's world result" where
  "sane_init_release lib w =
     (if w_refcount w \<le> 0 then Inl AssertFailure
      else let w1 = w\<lparr>w_refcount := w_refcount w - 1\<rparr>
           in Inr (if w_refcount w1 = 0 then sane (sl_exit lib) w1 else w1))"

definition print_unit :: "sane_unit \<Rightarrow> string" where
  "print_unit u = (case u of U_NONE \<Rightarrow> [] | U_BIT \<Rightarrow> ''bit'' | U_DPI \<Rightarrow> ''dpi''
     | U_MICROSECOND \<Rightarrow> [CHR 0xC2, CHR 0xB5, CHR ''s''] | U_MM \<Rightarrow> ''mm''
     | U_PERCENT \<Rightarrow> ''%'' | U_PIXEL \<Rightarrow> ''px'')"

subsection \<open>Options and option sets\<close>

text \<open>\<open>op_set\<close> tells whether \<open>m_set\<close> points to the set that holds the option or is null.\<close>

record soption =
  op_set :: bool
  op_desc :: "nat option"
  op_index :: nat

definition s_nulloption :: soption where
  "s_nulloption = \<lparr>op_set = False, op_desc = None, op_index = 0\<rparr>"

record option_set =
  os_device :: "handle option"
  os_options :: "string \<rightharpoonup> soption"

definition named :: "option_descriptor \<Rightarrow> bool" where
  "named d = (case od_name d of None \<Rightarrow> False | Some n \<Rightarrow> n \<noteq> [])"

text \<open>The loops of \<open>init\<close> and \<open>reload\<close> over the descriptors, from index \<open>i\<close> on.\<close>

fun init_options ::
  "'s sane_lib \<Rightarrow> 's \<Rightarrow> nat list \<Rightarrow> nat \<Rightarrow> (string \<rightharpoonup> soption) \<Rightarrow> (string \<rightharpoonup> soption)" where
  "init_options lib s [] i m = m"
| "init_options lib s (a # as) i m =
     init_options lib s as (i + 1)
       (if named (sl_deref lib a s)
        then m(the (od_name (sl_deref lib a s)) \<mapsto> \<lparr>op_set = True, op_desc = Some a, op_index = i\<rparr>)
        else m)"

definition option_set_init :: "'s sane_lib \<Rightarrow> handle option \<Rightarrow> 's world \<Rightarrow> option_set" where
  "option_set_init lib h w =
     \<lparr>os_device = h,
      os_options = (case h of None \<Rightarrow> Map.empty
                    | Some d \<Rightarrow> init_options lib (w_sane w) (sl_descriptors lib d (w_sane w)) 1 Map.empty)\<rparr>"

fun reload_options ::
  "'s sane_lib \<Rightarrow> 's \<Rightarrow> nat list \<Rightarrow> nat \<Rightarrow> (string \<rightharpoonup> soption) \<Rightarrow> (string \<rightharpoonup> soption)" where
  "reload_options lib s [] i m = m"
| "reload_options lib s (a # as) i m =
     reload_options lib s as (i + 1)
       (if named (sl_deref lib a s)
        then let n = the (od_name (sl_deref lib a s)) in
             case m n of None \<Rightarrow> m(n \<mapsto> \<lparr>op_set = True, op_desc = Some a, op_index = i\<rparr>)
             | Some o1 \<Rightarrow> m(n \<mapsto> o1\<lparr>op_desc := Some a, op_index := i\<rparr>)
        else m)"

definition option_set_reload :: "'s sane_lib \<Rightarrow> 's world \<Rightarrow> option_set \<Rightarrow> option_set result" where
  "option_set_reload lib w os = (case os_device os of None \<Rightarrow> Inl NullDeref
     | Some d \<Rightarrow> Inr (os\<lparr>os_options :=
         reload_options lib (w_sane w) (sl_descriptors lib d (w_sane w)) 1 (os_options os)\<rparr>))"

definition option_ref :: "option_set \<Rightarrow> string \<Rightarrow> soption" where
  "option_ref os s = (case os_options os s of None \<Rightarrow> s_nulloption | Some opt \<Rightarrow> opt)"

definition option_handle :: "option_set \<Rightarrow> soption \<Rightarrow> handle option" where
  "option_handle os opt = (if op_set opt then os_device os else None)"

definition option_desc :: "'s sane_lib \<Rightarrow> 's world \<Rightarrow> soption \<Rightarrow> option_descriptor option" where
  "option_desc lib w opt = map_option (\<lambda>a. sl_deref lib a (w_sane w)) (op_desc opt)"

definition is_null :: "soption \<Rightarrow> bool" where
  "is_null opt = (op_desc opt = None)"

definition array_size :: "'s sane_lib \<Rightarrow> 's world \<Rightarrow> soption \<Rightarrow> int" where
  "array_size lib w opt = (case option_desc lib w opt of None \<Rightarrow> 0
     | Some d \<Rightarrow> (case od_type d of T_BUTTON \<Rightarrow> 0 | T_GROUP \<Rightarrow> 0 | T_STRING \<Rightarrow> 1
                  | T_INT \<Rightarrow> od_size d div 4 | T_FIXED \<Rightarrow> od_size d div 4 | T_BOOL \<Rightarrow> od_size d div 4))"

definition is_active :: "'s sane_lib \<Rightarrow> 's world \<Rightarrow> soption \<Rightarrow> bool" where
  "is_active lib w opt = (case option_desc lib w opt of None \<Rightarrow> False
     | Some d \<Rightarrow> SANE_OPTION_IS_ACTIVE (od_cap d))"

definition is_settable :: "'s sane_lib \<Rightarrow> 's world \<Rightarrow> soption \<Rightarrow> bool" where
  "is_settable lib w opt = (case option_desc lib w opt of None \<Rightarrow> False
     | Some d \<Rightarrow> SANE_OPTION_IS_SETTABLE (od_cap d))"

definition is_string :: "'s sane_lib \<Rightarrow> 's world \<Rightarrow> soption \<Rightarrow> bool" where
  "is_string lib w opt = (case option_desc lib w opt of None \<Rightarrow> False | Some d \<Rightarrow> od_type d = T_STRING)"

definition is_numeric :: "'s sane_lib \<Rightarrow> 's world \<Rightarrow> soption \<Rightarrow> bool" where
  "is_numeric lib w opt = (case option_desc lib w opt of None \<Rightarrow> False
     | Some d \<Rightarrow> (case od_type d of T_INT \<Rightarrow> True | T_FIXED \<Rightarrow> True | T_BOOL \<Rightarrow> True | _ \<Rightarrow> False))"

subsection \<open>Values of options\<close>

text \<open>
  Setting a value returns whether it succeeded, the option set, which the backend may ask to be reloaded,
  and the world. A value out of the range of \<open>SANE_Word\<close> is undefined behaviour.
\<close>

definition reload_if ::
  "'s sane_lib \<Rightarrow> 32 word \<Rightarrow> bool \<Rightarrow> option_set \<Rightarrow> 's world \<Rightarrow> (bool \<times> option_set \<times> 's world) result" where
  "reload_if lib info ok os w =
     (if info AND SANE_INFO_RELOAD_OPTIONS \<noteq> 0
      then bind_result (option_set_reload lib w os) (\<lambda>os'. Inr (ok, os', w))
      else Inr (ok, os, w))"

definition set_string_value ::
  "'s sane_lib \<Rightarrow> soption \<Rightarrow> int \<Rightarrow> string \<Rightarrow> option_set \<Rightarrow> 's world \<Rightarrow> (bool \<times> option_set \<times> 's world) result" where
  "set_string_value lib opt index v os w =
     (case option_handle os opt of None \<Rightarrow> Inr (False, os, w)
      | Some h \<Rightarrow>
          if \<not> is_string lib w opt \<or> index \<noteq> 0 \<or> \<not> is_settable lib w opt \<or> \<not> is_active lib w opt
          then Inr (False, os, w)
          else let (s, status, info) = sl_set_string lib h (op_index opt) v (w_sane w)
               in reload_if lib info (status = GOOD) os (w\<lparr>w_sane := s\<rparr>))"

definition string_value :: "'s sane_lib \<Rightarrow> soption \<Rightarrow> int \<Rightarrow> option_set \<Rightarrow> 's world \<Rightarrow> string" where
  "string_value lib opt index os w =
     (case option_handle os opt of None \<Rightarrow> []
      | Some h \<Rightarrow>
          if is_string lib w opt \<and> index = 0
          then (case sl_get_string lib h (op_index opt) (w_sane w) of
                  (status, v) \<Rightarrow> if status = GOOD then v else [])
          else [])"

definition allowed_string_values :: "'s sane_lib \<Rightarrow> soption \<Rightarrow> 's world \<Rightarrow> string list" where
  "allowed_string_values lib opt w = (case option_desc lib w opt of None \<Rightarrow> []
     | Some d \<Rightarrow> (case od_constraint d of
           C_STRING_LIST l \<Rightarrow> if od_type d = T_STRING then takeWhile (\<lambda>s. s \<noteq> []) l else []
         | _ \<Rightarrow> []))"

definition is_fixed :: "'s sane_lib \<Rightarrow> 's world \<Rightarrow> soption \<Rightarrow> bool" where
  "is_fixed lib w opt = (case option_desc lib w opt of None \<Rightarrow> False | Some d \<Rightarrow> od_type d = T_FIXED)"

definition set_numeric_value ::
  "'s sane_lib \<Rightarrow> soption \<Rightarrow> int \<Rightarrow> dbl \<Rightarrow> option_set \<Rightarrow> 's world \<Rightarrow> (bool \<times> option_set \<times> 's world) result" where
  "set_numeric_value lib opt index v os w =
     (case option_handle os opt of None \<Rightarrow> Inr (False, os, w)
      | Some h \<Rightarrow>
          if \<not> is_numeric lib w opt \<or> \<not> is_settable lib w opt \<or> \<not> is_active lib w opt
          then Inr (False, os, w)
          else bind_result (if is_fixed lib w opt then SANE_FIX v else int_of_dbl v) (\<lambda>x.
            if array_size lib w opt = 1 \<and> index = 0
            then let (s, status, info) = sl_set_words lib h (op_index opt) [x] (w_sane w)
                 in reload_if lib info (status = GOOD) os (w\<lparr>w_sane := s\<rparr>)
            else if 0 \<le> index \<and> index < array_size lib w opt
            then (case sl_get_words lib h (op_index opt) (w_sane w) of (status, info, data) \<Rightarrow>
                    if status \<noteq> GOOD then reload_if lib info False os w
                    else let (s, status2, info2) =
                               sl_set_words lib h (op_index opt) (data[nat index := x]) (w_sane w)
                         in reload_if lib info2 (status2 = GOOD) os (w\<lparr>w_sane := s\<rparr>))
            else Inr (True, os, w)))"

definition numeric_value :: "'s sane_lib \<Rightarrow> soption \<Rightarrow> int \<Rightarrow> option_set \<Rightarrow> 's world \<Rightarrow> dbl" where
  "numeric_value lib opt index os w =
     (case option_handle os opt of None \<Rightarrow> NaN
      | Some h \<Rightarrow>
          if \<not> is_numeric lib w opt \<or> index < 0 \<or> index \<ge> array_size lib w opt then NaN
          else (case sl_get_words lib h (op_index opt) (w_sane w) of (status, info, data) \<Rightarrow>
                  if status \<noteq> GOOD then NaN
                  else let v = dbl_of_int (data ! nat index)
                       in if is_fixed lib w opt then SANE_UNFIX v else v))"

definition unfix_if :: "option_descriptor \<Rightarrow> dbl \<Rightarrow> dbl" where
  "unfix_if d v = (if od_type d = T_FIXED then SANE_UNFIX v else v)"

definition allowed_numeric_values :: "'s sane_lib \<Rightarrow> soption \<Rightarrow> 's world \<Rightarrow> dbl list" where
  "allowed_numeric_values lib opt w = (case option_desc lib w opt of None \<Rightarrow> []
     | Some d \<Rightarrow> (case od_constraint d of
           C_WORD_LIST l \<Rightarrow> if is_numeric lib w opt then map (\<lambda>x. unfix_if d (dbl_of_int x)) l else []
         | _ \<Rightarrow> []))"

definition option_min :: "'s sane_lib \<Rightarrow> soption \<Rightarrow> 's world \<Rightarrow> dbl" where
  "option_min lib opt w = (case option_desc lib w opt of None \<Rightarrow> NaN
     | Some d \<Rightarrow> unfix_if d (case od_constraint d of
           C_NONE \<Rightarrow> NaN | C_STRING_LIST _ \<Rightarrow> NaN
         | C_RANGE lo hi q \<Rightarrow> dbl_of_int lo
         | C_WORD_LIST l \<Rightarrow> fold (\<lambda>x v. dmin v (dbl_of_int x)) l PInf))"

definition option_max :: "'s sane_lib \<Rightarrow> soption \<Rightarrow> 's world \<Rightarrow> dbl" where
  "option_max lib opt w = (case option_desc lib w opt of None \<Rightarrow> NaN
     | Some d \<Rightarrow> unfix_if d (case od_constraint d of
           C_NONE \<Rightarrow> NaN | C_STRING_LIST _ \<Rightarrow> NaN
         | C_RANGE lo hi q \<Rightarrow> dbl_of_int hi
         | C_WORD_LIST l \<Rightarrow> fold (\<lambda>x v. dmax v (dbl_of_int x)) l NInf))"

definition option_quant :: "'s sane_lib \<Rightarrow> soption \<Rightarrow> 's world \<Rightarrow> dbl" where
  "option_quant lib opt w = (case option_desc lib w opt of None \<Rightarrow> NaN
     | Some d \<Rightarrow> (case od_constraint d of C_RANGE lo hi q \<Rightarrow> unfix_if d (dbl_of_int q) | _ \<Rightarrow> NaN))"

definition option_unit :: "'s sane_lib \<Rightarrow> soption \<Rightarrow> 's world \<Rightarrow> sane_unit" where
  "option_unit lib opt w = (case option_desc lib w opt of None \<Rightarrow> U_NONE | Some d \<Rightarrow> od_unit d)"

text \<open>\<open>opt[name] = "text"\<close> and \<open>opt[name] = number\<close>, by way of \<open>set_value\<close>.\<close>

definition set_value_string ::
  "'s sane_lib \<Rightarrow> string \<Rightarrow> int \<Rightarrow> string \<Rightarrow> option_set \<Rightarrow> 's world \<Rightarrow> (bool \<times> option_set \<times> 's world) result" where
  "set_value_string lib name index v os w =
     bind_result (set_string_value lib (option_ref os name) index v os w) (\<lambda>(ok, os', w').
       if ok then Inr (True, os', w')
       else set_numeric_value lib (option_ref os' name) index (strtod_c v) os' w')"

definition set_value_double ::
  "'s sane_lib \<Rightarrow> string \<Rightarrow> int \<Rightarrow> dbl \<Rightarrow> option_set \<Rightarrow> 's world \<Rightarrow> (bool \<times> option_set \<times> 's world) result" where
  "set_value_double lib name index v os w =
     bind_result (set_numeric_value lib (option_ref os name) index v os w) (\<lambda>(ok, os', w').
       if ok then Inr (True, os', w')
       else set_string_value lib (option_ref os' name) index (dtostr_c v) os' w')"

definition option_value :: "'s sane_lib \<Rightarrow> soption \<Rightarrow> int \<Rightarrow> option_set \<Rightarrow> 's world \<Rightarrow> string" where
  "option_value lib opt index os w =
     (if 0 \<le> index \<and> index < array_size lib w opt then
        (if is_null opt \<or> is_string lib w opt then string_value lib opt index os w
         else if is_numeric lib w opt
         then dtostr_c (numeric_value lib opt index os w) @ print_unit (option_unit lib opt w)
         else ''n/a'')
      else ''n/a'')"

subsection \<open>Devices and sessions\<close>

definition sane_open_device ::
  "'s sane_lib \<Rightarrow> string \<Rightarrow> 's world \<Rightarrow> (handle option \<times> sane_status \<times> 's world) result" where
  "sane_open_device lib name w =
     (let w1 = sane_init_addref lib w;
          (s, status, h) = sl_open lib name (w_sane w1);
          w2 = w1\<lparr>w_sane := s\<rparr>
      in if status = GOOD then Inr (Some h, GOOD, w2)
         else bind_result (sane_init_release lib w2) (\<lambda>w3. Inr (None, status, w3)))"

definition close_device :: "'s sane_lib \<Rightarrow> handle option \<Rightarrow> 's world \<Rightarrow> 's world result" where
  "close_device lib dev w = (case dev of None \<Rightarrow> Inr w
     | Some h \<Rightarrow> sane_init_release lib (sane (sl_close lib h) w))"

definition enumerate_devices ::
  "'s sane_lib \<Rightarrow> bool \<Rightarrow> 's world \<Rightarrow> (device_info list \<times> 's world) result" where
  "enumerate_devices lib localonly w =
     (let w1 = sane_init_addref lib w;
          (s, status, devs) = sl_get_devices lib localonly (w_sane w1)
      in bind_result (sane_init_release lib (w1\<lparr>w_sane := s\<rparr>)) (\<lambda>w2.
           Inr (if status = GOOD then devs else [], w2)))"

record session =
  se_device :: "handle option"
  se_options :: option_set
  se_status :: sane_status
  se_parameters :: sane_parameters

definition no_parameters :: sane_parameters where
  "no_parameters = \<lparr>sp_lines = 0, sp_pixels_per_line = 0, sp_bytes_per_line = 0, sp_depth = 0\<rparr>"

definition session_open :: "'s sane_lib \<Rightarrow> string \<Rightarrow> 's world \<Rightarrow> (session \<times> 's world) result" where
  "session_open lib name w =
     bind_result (sane_open_device lib name w) (\<lambda>(dev, status, w').
       Inr (\<lparr>se_device = dev, se_options = option_set_init lib dev w', se_status = status,
             se_parameters = no_parameters\<rparr>, w'))"

definition session_start :: "'s sane_lib \<Rightarrow> session \<Rightarrow> 's world \<Rightarrow> (session \<times> 's world) result" where
  "session_start lib se w = (case se_device se of None \<Rightarrow> Inl NullDeref
     | Some h \<Rightarrow>
         let (s, status) = sl_start lib h (w_sane w);
             w1 = w\<lparr>w_sane := s\<rparr>
         in if status = GOOD
            then let (status2, p) = sl_get_parameters lib h (w_sane w1)
                 in Inr (se\<lparr>se_status := status2, se_parameters := p\<rparr>, w1)
            else Inr (se\<lparr>se_status := status\<rparr>, w1))"

definition session_cancel :: "'s sane_lib \<Rightarrow> session \<Rightarrow> 's world \<Rightarrow> 's world" where
  "session_cancel lib se w = (case se_device se of None \<Rightarrow> w | Some h \<Rightarrow> sane (sl_cancel lib h) w)"

text \<open>\<open>session::~session\<close>: cancel, then the last reference to the device goes away.\<close>

definition session_destroy :: "'s sane_lib \<Rightarrow> session \<Rightarrow> 's world \<Rightarrow> 's world result" where
  "session_destroy lib se w = close_device lib (se_device se) (session_cancel lib se w)"

text \<open>\<open>overlay buf k d\<close> is the buffer after \<open>d\<close> was stored at offset \<open>k\<close>.\<close>

definition overlay :: "'a list \<Rightarrow> nat \<Rightarrow> 'a list \<Rightarrow> 'a list" where
  "overlay buf k d = take k buf @ d @ drop (k + length d) buf"

text \<open>
  The loop of \<open>session::read\<close>. A backend that keeps returning no data with status \<open>GOOD\<close> would keep it
  running forever, hence the value \<open>None\<close>.
\<close>

partial_function (option) read_loop ::
  "'s sane_lib \<Rightarrow> handle \<Rightarrow> string \<Rightarrow> nat \<Rightarrow> 's \<Rightarrow> (sane_status \<times> string \<times> 's) option" where
  [code]: "read_loop lib h buf pos s =
     (if pos < length buf then
        (case sl_read lib h (length buf - pos) s of (s', status, d) \<Rightarrow>
           if status = GOOD then read_loop lib h (overlay buf pos d) (pos + length d) s'
           else Some (status, overlay buf pos d, s'))
      else Some (GOOD, buf, s))"

definition session_read ::
  "'s sane_lib \<Rightarrow> string \<Rightarrow> session \<Rightarrow> 's world \<Rightarrow> (string \<times> session \<times> 's world) result option" where
  "session_read lib buf se w = (case se_device se of
       None \<Rightarrow> Some (if buf = [] then Inr (buf, se\<lparr>se_status := GOOD\<rparr>, w) else Inl NullDeref)
     | Some h \<Rightarrow> map_option (\<lambda>(status, buf', s). Inr (buf', se\<lparr>se_status := status\<rparr>, w\<lparr>w_sane := s\<rparr>))
                  (read_loop lib h buf 0 (w_sane w)))"

subsection \<open>The reference count\<close>

lemma w_refcount_sane [simp]: "w_refcount (sane f w) = w_refcount w"
  by (simp add: sane_def)

lemma w_refcount_addref [simp]: "w_refcount (sane_init_addref lib w) = w_refcount w + 1"
  by (simp add: sane_init_addref_def Let_def)

lemma sane_init_release_ok:
  "0 < w_refcount w \<Longrightarrow> \<exists>w'. sane_init_release lib w = Inr w' \<and> w_refcount w' = w_refcount w - 1"
  by (simp add: sane_init_release_def Let_def)

definition handles_of :: "handle option \<Rightarrow> int" where
  "handles_of dev = (if dev = None then 0 else 1)"

lemma session_open_ok:
  assumes "0 \<le> w_refcount w"
  obtains se w' where "session_open lib name w = Inr (se, w')"
    "w_refcount w' = w_refcount w + handles_of (se_device se)"
    "se_device se = None \<longleftrightarrow> se_status se \<noteq> GOOD"
proof -
  obtain s status h where o: "sl_open lib name (w_sane (sane_init_addref lib w)) = (s, status, h)"
    by (metis prod_cases3)
  let ?w2 = "(sane_init_addref lib w)\<lparr>w_sane := s\<rparr>"
  show thesis
  proof (cases "status = GOOD")
    case True
    with o that show ?thesis
      by (simp add: session_open_def sane_open_device_def Let_def handles_of_def)
  next
    case False
    obtain w3 where "sane_init_release lib ?w2 = Inr w3" "w_refcount w3 = w_refcount w"
      using sane_init_release_ok[of ?w2 lib] assms by auto
    with False o that show ?thesis
      by (simp add: session_open_def sane_open_device_def Let_def handles_of_def)
  qed
qed

lemma w_refcount_cancel [simp]: "w_refcount (session_cancel lib se w) = w_refcount w"
  by (simp add: session_cancel_def split: option.split)

lemma session_destroy_ok:
  assumes "handles_of (se_device se) \<le> w_refcount w"
  obtains w' where "session_destroy lib se w = Inr w'"
    "w_refcount w' = w_refcount w - handles_of (se_device se)"
proof (cases "se_device se")
  case None
  with that show ?thesis by (simp add: session_destroy_def close_device_def handles_of_def)
next
  case (Some h)
  with assms sane_init_release_ok[of "sane (sl_close lib h) (session_cancel lib se w)" lib] that
  show ?thesis by (auto simp: session_destroy_def close_device_def handles_of_def)
qed

lemma session_start_ok:
  assumes "se_device se = Some h"
  obtains se' w' where "session_start lib se w = Inr (se', w')" "se_device se' = Some h"
    "w_refcount w' = w_refcount w"
proof -
  obtain s st st2 p where "sl_start lib h (w_sane w) = (s, st)" "sl_get_parameters lib h s = (st2, p)"
    by (metis surj_pair)
  with assms that show ?thesis by (cases "st = GOOD") (simp_all add: session_start_def Let_def)
qed

subsection \<open>Option tables\<close>

text \<open>What an option table means: every entry is the option of that name at its index.\<close>

definition entry_ok :: "'s sane_lib \<Rightarrow> 's \<Rightarrow> nat list \<Rightarrow> string \<Rightarrow> soption \<Rightarrow> bool" where
  "entry_ok lib s addrs n opt \<longleftrightarrow>
     op_set opt \<and> 0 < op_index opt \<and> op_index opt \<le> length addrs \<and>
     op_desc opt = Some (addrs ! (op_index opt - 1)) \<and>
     od_name (sl_deref lib (addrs ! (op_index opt - 1)) s) = Some n \<and> n \<noteq> []"

lemma named_name: "named d \<Longrightarrow> od_name d = Some (the (od_name d)) \<and> the (od_name d) \<noteq> []"
  by (cases "od_name d") (auto simp: named_def)

lemma entry_ok_new:
  assumes "named (sl_deref lib a s)"
  shows "entry_ok lib s (pre @ a # as) (the (od_name (sl_deref lib a s)))
    \<lparr>op_set = True, op_desc = Some a, op_index = Suc (length pre)\<rparr>"
  using named_name[OF assms] by (simp add: entry_ok_def)

lemma init_options_entry:
  assumes "\<And>k x. m k = Some x \<Longrightarrow> entry_ok lib s (pre @ as) k x"
    "init_options lib s as (Suc (length pre)) m n = Some opt"
  shows "entry_ok lib s (pre @ as) n opt"
  using assms
proof (induction as arbitrary: pre m)
  case (Cons a as)
  let ?m = "if named (sl_deref lib a s)
    then m(the (od_name (sl_deref lib a s)) \<mapsto> \<lparr>op_set = True, op_desc = Some a, op_index = Suc (length pre)\<rparr>)
    else m"
  have "entry_ok lib s ((pre @ [a]) @ as) n opt"
  proof (rule Cons.IH)
    show "entry_ok lib s ((pre @ [a]) @ as) k x" if "?m k = Some x" for k x
      using that Cons.prems(1)[of k x] entry_ok_new[of lib a s pre as]
      by (auto split: if_splits)
    show "init_options lib s as (Suc (length (pre @ [a]))) ?m n = Some opt"
      using Cons.prems(2) by (simp split: if_splits)
  qed
  then show ?case by simp
qed simp

lemma init_options_dom:
  "dom (init_options lib s as i m) =
     dom m \<union> {n. \<exists>a \<in> set as. od_name (sl_deref lib a s) = Some n \<and> n \<noteq> []}"
proof (induction as arbitrary: i m)
  case (Cons a as)
  then show ?case by (auto simp: named_def split: option.splits)
qed auto

lemma reload_options_keeps:
  "m n = Some opt \<Longrightarrow> \<exists>opt'. reload_options lib s as i m n = Some opt' \<and> op_set opt' = op_set opt"
proof (induction as arbitrary: i m opt)
  case (Cons a as)
  show ?case
  proof (cases "named (sl_deref lib a s)")
    case True
    let ?k = "the (od_name (sl_deref lib a s))"
    show ?thesis
    proof (cases "?k = n")
      case True
      then show ?thesis using \<open>named (sl_deref lib a s)\<close> Cons.prems
        Cons.IH[of "m(n \<mapsto> opt\<lparr>op_desc := Some a, op_index := i\<rparr>)" "opt\<lparr>op_desc := Some a, op_index := i\<rparr>" "i + 1"]
        by (simp add: Let_def fun_upd_def)
    next
      case False
      then show ?thesis using \<open>named (sl_deref lib a s)\<close> Cons
        by (auto simp: Let_def split: option.splits)
    qed
  next
    case False
    then show ?thesis using Cons by simp
  qed
qed auto

subsection \<open>Reading from the device\<close>

text \<open>
  What the SANE documentation promises of \<open>sane_read\<close> in blocking mode: it never stores more than was
  asked for, it blocks until there is at least one byte, and there is no data with an error status.
\<close>

definition reads_ok :: "'s sane_lib \<Rightarrow> handle \<Rightarrow> bool" where
  "reads_ok lib h \<longleftrightarrow> (\<forall>n s s' st d. sl_read lib h n s = (s', st, d) \<longrightarrow>
     length d \<le> n \<and> (st = GOOD \<and> 0 < n \<longrightarrow> d \<noteq> []) \<and> (st \<noteq> GOOD \<longrightarrow> d = []))"

text \<open>\<open>device_reads lib h s xs s'\<close>: successful reads from state \<open>s\<close> deliver \<open>xs\<close> and lead to \<open>s'\<close>.\<close>

inductive device_reads :: "'s sane_lib \<Rightarrow> handle \<Rightarrow> 's \<Rightarrow> string \<Rightarrow> 's \<Rightarrow> bool" for lib h where
  reads_none: "device_reads lib h s [] s"
| reads_some: "sl_read lib h n s = (s1, GOOD, d) \<Longrightarrow> device_reads lib h s1 xs s2 \<Longrightarrow>
    device_reads lib h s (d @ xs) s2"

lemma device_reads_append:
  "device_reads lib h s xs s1 \<Longrightarrow> device_reads lib h s1 ys s2 \<Longrightarrow> device_reads lib h s (xs @ ys) s2"
  by (induction rule: device_reads.induct) (auto intro: device_reads.intros)

lemma read_loop_returns:
  assumes "reads_ok lib h" "k \<le> length buf"
  shows "\<exists>st buf' s'. read_loop lib h buf k s = Some (st, buf', s') \<and> length buf' = length buf \<and>
    take k buf' = take k buf \<and> (st = GOOD \<longrightarrow> device_reads lib h s (drop k buf') s')"
  using assms(2)
proof (induction "length buf - k" arbitrary: k buf s rule: less_induct)
  case less
  show ?case
  proof (cases "k < length buf")
    case False
    then show ?thesis using less.prems
      by (subst read_loop.simps) (auto intro: reads_none)
  next
    case True
    obtain s1 st d where r: "sl_read lib h (length buf - k) s = (s1, st, d)" by (metis prod_cases3)
    then have d: "length d \<le> length buf - k" "st = GOOD \<longrightarrow> d \<noteq> []" "st \<noteq> GOOD \<longrightarrow> d = []"
      using assms(1) True by (auto simp: reads_ok_def)
    let ?buf = "overlay buf k d"
    have len: "length ?buf = length buf" using True d(1) by (simp add: overlay_def)
    show ?thesis
    proof (cases "st = GOOD")
      case False
      then show ?thesis using True r d(3) by (subst read_loop.simps) (simp add: overlay_def)
    next
      case good: True
      have "length d > 0" using d(2) good by simp
      have "length ?buf - (k + length d) < length buf - k" "k + length d \<le> length ?buf"
        using True d(1) len \<open>length d > 0\<close> by linarith+
      from less.hyps[OF this, of s1] obtain st' buf' s' where
        IH: "read_loop lib h ?buf (k + length d) s1 = Some (st', buf', s')" "length buf' = length buf"
          "take (k + length d) buf' = take (k + length d) ?buf"
          "st' = GOOD \<longrightarrow> device_reads lib h s1 (drop (k + length d) buf') s'"
        using len by auto
      have t: "take (k + length d) ?buf = take k buf @ d" using True by (simp add: overlay_def)
      have tk: "take k buf' = take k buf"
        using arg_cong[OF IH(3), of "take k"] t True by (simp add: min_def)
      have "drop k buf' = d @ drop (k + length d) buf'"
      proof -
        have "buf' = (take k buf @ d) @ drop (k + length d) buf'" using IH(3) t by (metis append_take_drop_id)
        then show ?thesis using True by (metis append_assoc append_eq_conv_conj length_take min.absorb4)
      qed
      with IH tk r True good show ?thesis
        by (subst read_loop.simps) (auto intro: reads_some)
    qed
  qed
qed

end
