(* ===== verification/OptionsFile.thy ===== *)
theory OptionsFile
  imports SaneCpp HttpText
begin

text \<open>
  \<open>src/server/optionsfile.cpp\<close>: the device options file. Its text is cut into lines of a name and a
  value; options before the first \<open>device\<close> line are global, the others belong to the last device line.
  A section applies to a scanner whose SANE name, or make and model, match the section's regular
  expression. Matching (\<open>std::regex\<close>) is the parameter \<open>regex\<close>: it maps a pattern to its predicate, or to
  \<open>None\<close> when the pattern is malformed and the constructor throws.
\<close>

type_synonym raw_options = "(string \<times> string) list"

record options =
  of_icon :: string
  of_note :: string
  of_gray_gamma :: dbl
  of_color_gamma :: dbl
  of_synthesize_gray :: bool
  of_sane_options :: raw_options

definition default_options :: options where
  "default_options = \<lparr>of_icon = [], of_note = [], of_gray_gamma = Fin 1, of_color_gamma = Fin 1,
     of_synthesize_gray = False, of_sane_options = []\<rparr>"

record options_file =
  off_fileName :: string
  off_globalOptions :: raw_options
  off_deviceOptions :: "(string \<times> raw_options) list"

subsection \<open>Reading the file\<close>

definition trim_right :: "string \<Rightarrow> string" where
  "trim_right s = rev (dropWhile is_space (rev s))"

definition option_line :: "string \<Rightarrow> string \<times> string" where
  "option_line line =
     (case extract_word line of None \<Rightarrow> ([], [])
      | Some (name, rest) \<Rightarrow>
          (name, trim_right (case getline chr_nl (skip_ws rest) of None \<Rightarrow> [] | Some (v, _) \<Rightarrow> v)))"

text \<open>\<open>pDeviceSection\<close> is null or points to the section added last.\<close>

definition add_option :: "string \<times> string \<Rightarrow> options_file \<Rightarrow> options_file" where
  "add_option nv f =
     (if fst nv = ''device'' then f\<lparr>off_deviceOptions := off_deviceOptions f @ [(snd nv, [])]\<rparr>
      else if off_deviceOptions f \<noteq> [] then
        f\<lparr>off_deviceOptions := butlast (off_deviceOptions f) @
            [(fst (last (off_deviceOptions f)), snd (last (off_deviceOptions f)) @ [nv])]\<rparr>
      else f\<lparr>off_globalOptions := off_globalOptions f @ [nv]\<rparr>)"

function read_options :: "string \<Rightarrow> options_file \<Rightarrow> options_file" where
  "read_options s f =
     (case getline chr_nl (skip_ws s) of None \<Rightarrow> f
      | Some (line, rest) \<Rightarrow>
          read_options rest
            (if line = [] \<or> hd line = CHR ''#'' then f else add_option (option_line line) f))"
  by pat_completeness auto
termination
proof (relation "measure (\<lambda>(s, f). length s)", goal_cases)
  case (2 s f x line rest)
  have "length (skip_ws s) \<le> length s" by (simp add: skip_ws_def length_dropWhile_le)
  with 2 getline_SomeD[of chr_nl "skip_ws s" line rest] show ?case by simp
qed simp

declare read_options.simps [simp del]

definition OptionsFile_read :: "string \<Rightarrow> string \<Rightarrow> options_file" where
  "OptionsFile_read fileName contents =
     read_options contents \<lparr>off_fileName = fileName, off_globalOptions = [], off_deviceOptions = []\<rparr>"

definition options_path :: "options_file \<Rightarrow> string" where
  "options_path f = (case rfind_char (CHR ''/'') (off_fileName f) of None \<Rightarrow> []
     | Some pos \<Rightarrow> take (pos + 1) (off_fileName f))"

subsection \<open>Options of a scanner\<close>

text \<open>
  \<open>atof\<close>: like reading a number from a stream, but an exponent without digits is left alone, a value
  out of range is infinite, and no number is zero; also hexadecimal numbers, infinities and NaN.
\<close>

definition atof_number :: "nat \<Rightarrow> rat \<Rightarrow> char list \<Rightarrow> string \<Rightarrow> rat" where
  "atof_number b ebase letters u =
     (let isd = (\<lambda>c. case digit_val c of None \<Rightarrow> False | Some d \<Rightarrow> d < b);
          ip = takeWhile isd u;
          r = dropWhile isd u;
          (fp, t) = (if r \<noteq> [] \<and> hd r = CHR ''.'' then (takeWhile isd (tl r), dropWhile isd (tl r)) else ([], r));
          mant = of_nat (fst (read_digits b 0 (ip @ fp))) / of_nat b ^ length fp;
          e = (if t \<noteq> [] \<and> hd t \<in> set letters
               then (let (neg, x) = read_sign (tl t); v = int (digits_val (takeWhile is_digit x))
                     in if neg then - v else v)
               else 0)
      in mant * pow_int ebase e)"

definition atof :: "string \<Rightarrow> dbl" where
  "atof s =
     (let (neg, u) = read_sign (skip_ws s); l = ctolower u;
          d = (if prefix ''inf'' l then PInf else if prefix ''nan'' l then NaN
               else if prefix ''0x'' l then to_dbl (atof_number 16 2 ''pP'' (drop 2 u))
               else to_dbl (atof_number 10 10 ''eE'' u))
      in if neg then dneg d else d)"

definition section_matches ::
  "(string \<Rightarrow> (string \<Rightarrow> bool) option) \<Rightarrow> string \<Rightarrow> string \<Rightarrow> string \<Rightarrow> bool result" where
  "section_matches regex pat saneName makeAndModel =
     (case regex pat of None \<Rightarrow> Inl (RuntimeError ''regex_error'')
      | Some r \<Rightarrow> Inr (r saneName \<or> r makeAndModel))"

fun matching_options ::
  "(string \<Rightarrow> (string \<Rightarrow> bool) option) \<Rightarrow> string \<Rightarrow> string \<Rightarrow> (string \<times> raw_options) list \<Rightarrow> raw_options
    \<Rightarrow> raw_options result" where
  "matching_options regex sn mm [] raw = Inr raw"
| "matching_options regex sn mm ((pat, opts) # secs) raw =
     bind_result (section_matches regex pat sn mm) (\<lambda>m.
       matching_options regex sn mm secs (if m then raw @ opts else raw))"

definition process_option :: "string \<Rightarrow> string \<times> string \<Rightarrow> options \<Rightarrow> options" where
  "process_option path nv p =
     (let (name, v) = nv in
      if name = ''icon'' then
        p\<lparr>of_icon := (if find_str ''/'' v = Some 0 then v else path @ v)\<rparr>
      else if name = ''note'' \<or> name = ''location'' then p\<lparr>of_note := v\<rparr>
      else if name = ''gray-gamma'' then p\<lparr>of_gray_gamma := atof v\<rparr>
      else if name = ''color-gamma'' then p\<lparr>of_color_gamma := atof v\<rparr>
      else if name = ''synthesize-gray'' then p\<lparr>of_synthesize_gray := (v = ''true'' \<or> v = ''yes'')\<rparr>
      else p\<lparr>of_sane_options := of_sane_options p @ [nv]\<rparr>)"

definition scannerOptions ::
  "(string \<Rightarrow> (string \<Rightarrow> bool) option) \<Rightarrow> options_file \<Rightarrow> string \<Rightarrow> string \<Rightarrow> options result" where
  "scannerOptions regex f saneName makeAndModel =
     bind_result (matching_options regex saneName makeAndModel (off_deviceOptions f) (off_globalOptions f))
       (\<lambda>raw. Inr (fold (process_option (options_path f)) raw default_options))"

end
