(* ===== verification/ImageEncoder.thy ===== *)
theory ImageEncoder
  imports HttpResponse
begin

text \<open>
  \<open>src/imageformats/imageencoder.cpp\<close>: the base class of the encoders. It keeps the image parameters,
  counts lines and images, and calls the virtual functions of the derived class at the right moments.

  The object is an extensible record, so that a derived class extends it; its virtual functions are a
  record of \<open>hooks\<close>, the argument of the operations that call them. A hook may throw. The destination
  stream is part of the state, \<open>None\<close> for a null pointer.

  The interface \<open>encoder_class\<close> states what the base class relies on in a derived class: no hook
  changes the parameters or the counters.
\<close>

datatype colorspace = Unknown | Grayscale | RGB

record encoder =
  ie_width :: int
  ie_height :: int
  ie_components :: int
  ie_bitDepth :: int
  ie_dpi :: int
  ie_orientation :: int
  ie_bytesPerLine :: int
  ie_currentLine :: int
  ie_currentImage :: int
  ie_colorspace :: colorspace
  ie_dest :: "ostream option"

record 'e hooks =
  onDocumentBegin :: "'e \<Rightarrow> 'e result"
  onDocumentEnd :: "'e \<Rightarrow> 'e result"
  onImageBegin :: "'e \<Rightarrow> 'e result"
  onImageEnd :: "'e \<Rightarrow> 'e result"
  onWriteLine :: "string \<Rightarrow> 'e \<Rightarrow> 'e result"

definition encoder_init :: encoder where
  "encoder_init =
     \<lparr>ie_width = 0, ie_height = 0, ie_components = 0, ie_bitDepth = 0, ie_dpi = 0, ie_orientation = 0,
      ie_bytesPerLine = 0, ie_currentLine = 0, ie_currentImage = 0, ie_colorspace = Unknown,
      ie_dest = None\<rparr>"

subsection \<open>Operations\<close>

text \<open>Integer division of C++ truncates towards zero.\<close>

definition cdiv :: "int \<Rightarrow> int \<Rightarrow> int" where
  "cdiv a b = sgn a * sgn b * (\<bar>a\<bar> div \<bar>b\<bar>)"

definition onParamChange :: "'a encoder_scheme \<Rightarrow> 'a encoder_scheme result" where
  "onParamChange e =
     (if ie_currentLine e \<noteq> 0 then Inl (RuntimeError ''cannot change settings inside an image'')
      else let c = (case ie_colorspace e of Grayscale \<Rightarrow> 1 | RGB \<Rightarrow> 3 | Unknown \<Rightarrow> 1)
           in Inr (e\<lparr>ie_components := c,
                     ie_bytesPerLine := cdiv (c * ie_width e * ie_bitDepth e) 8\<rparr>))"

definition setWidth :: "int \<Rightarrow> 'a encoder_scheme \<Rightarrow> 'a encoder_scheme result" where
  "setWidth w e = onParamChange (e\<lparr>ie_width := w\<rparr>)"

definition setHeight :: "int \<Rightarrow> 'a encoder_scheme \<Rightarrow> 'a encoder_scheme result" where
  "setHeight h e = onParamChange (e\<lparr>ie_height := h\<rparr>)"

definition setBitDepth :: "int \<Rightarrow> 'a encoder_scheme \<Rightarrow> 'a encoder_scheme result" where
  "setBitDepth b e = onParamChange (e\<lparr>ie_bitDepth := b\<rparr>)"

definition setResolutionDpi :: "int \<Rightarrow> 'a encoder_scheme \<Rightarrow> 'a encoder_scheme result" where
  "setResolutionDpi dpi e = onParamChange (e\<lparr>ie_dpi := dpi\<rparr>)"

definition setOrientationDegrees :: "int \<Rightarrow> 'a encoder_scheme \<Rightarrow> 'a encoder_scheme" where
  "setOrientationDegrees d e = e\<lparr>ie_orientation := d\<rparr>"

definition setColorspace :: "colorspace \<Rightarrow> 'a encoder_scheme \<Rightarrow> 'a encoder_scheme result" where
  "setColorspace cs e = onParamChange (e\<lparr>ie_colorspace := cs\<rparr>)"

definition setDestination :: "ostream option \<Rightarrow> 'a encoder_scheme \<Rightarrow> 'a encoder_scheme result" where
  "setDestination p e = onParamChange (e\<lparr>ie_dest := p\<rparr>)"

definition linesLeftInCurrentImage :: "'a encoder_scheme \<Rightarrow> int" where
  "linesLeftInCurrentImage e = ie_height e - ie_currentLine e"

definition has_dest :: "'a encoder_scheme \<Rightarrow> bool" where
  "has_dest e = (ie_dest e \<noteq> None)"

definition advance_line :: "'a encoder_scheme \<Rightarrow> 'a encoder_scheme" where
  "advance_line e =
     (if ie_currentLine e + 1 = ie_height e
      then e\<lparr>ie_currentLine := 0, ie_currentImage := ie_currentImage e + 1\<rparr>
      else e\<lparr>ie_currentLine := ie_currentLine e + 1\<rparr>)"

definition writeLine ::
  "'a encoder_scheme hooks \<Rightarrow> string \<Rightarrow> 'a encoder_scheme \<Rightarrow> 'a encoder_scheme result" where
  "writeLine h p e =
     bind_result (if ie_currentLine e = 0 \<and> ie_currentImage e = 0 then onDocumentBegin h e else Inr e) (\<lambda>e1.
     bind_result (if ie_currentLine e1 = 0 \<and> has_dest e1 then onImageBegin h e1 else Inr e1) (\<lambda>e2.
     bind_result (if has_dest e2 then onWriteLine h p e2 else Inr e2) (\<lambda>e3.
     let e4 = advance_line e3 in
     if ie_currentLine e4 = 0 \<and> has_dest e4 then onImageEnd h e4 else Inr e4)))"

lemma writeLine_eq:
  assumes "(if ie_currentLine e = 0 \<and> ie_currentImage e = 0 then onDocumentBegin h e else Inr e) = Inr e1"
    "(if ie_currentLine e1 = 0 \<and> has_dest e1 then onImageBegin h e1 else Inr e1) = Inr e2"
    "(if has_dest e2 then onWriteLine h p e2 else Inr e2) = Inr e3"
  shows "writeLine h p e =
    (if ie_currentLine (advance_line e3) = 0 \<and> has_dest (advance_line e3)
     then onImageEnd h (advance_line e3) else Inr (advance_line e3))"
  by (simp only: writeLine_def assms bind_result_simps Let_def)

definition endDocument :: "'a encoder_scheme hooks \<Rightarrow> 'a encoder_scheme \<Rightarrow> 'a encoder_scheme result" where
  "endDocument h e = (if has_dest e then onDocumentEnd h e else Inr e)"

text \<open>The lines of a scan in turn, up to the first exception.\<close>

fun writeLines ::
  "'a encoder_scheme hooks \<Rightarrow> string list \<Rightarrow> 'a encoder_scheme \<Rightarrow> 'a encoder_scheme result" where
  "writeLines h [] e = Inr e"
| "writeLines h (p # ps) e = bind_result (writeLine h p e) (writeLines h ps)"

subsection \<open>Invariant of the parameters\<close>

definition components_of :: "colorspace \<Rightarrow> int" where
  "components_of cs = (if cs = RGB then 3 else 1)"

definition param_inv :: "'a encoder_scheme \<Rightarrow> bool" where
  "param_inv e \<longleftrightarrow>
     ie_components e = components_of (ie_colorspace e) \<and>
     ie_bytesPerLine e = cdiv (ie_components e * ie_width e * ie_bitDepth e) 8"

lemma onParamChange_inv: "onParamChange e = Inr e' \<Longrightarrow> param_inv e'"
  by (cases "ie_colorspace e")
    (auto simp: onParamChange_def param_inv_def components_of_def Let_def split: if_splits)

lemma onParamChange_ok:
  "ie_currentLine e = 0 \<Longrightarrow>
     onParamChange e = Inr (e\<lparr>ie_components := components_of (ie_colorspace e),
       ie_bytesPerLine := cdiv (components_of (ie_colorspace e) * ie_width e * ie_bitDepth e) 8\<rparr>)"
  by (cases "ie_colorspace e") (auto simp: onParamChange_def components_of_def Let_def)

lemmas setter_defs = setWidth_def setHeight_def setBitDepth_def setResolutionDpi_def
  setColorspace_def setDestination_def

text \<open>All six setters in the order \<open>ScanJob::finishTransfer\<close> calls them.\<close>

definition configure ::
  "int \<Rightarrow> colorspace \<Rightarrow> int \<Rightarrow> int \<Rightarrow> int \<Rightarrow> ostream \<Rightarrow> 'a encoder_scheme \<Rightarrow> 'a encoder_scheme result" where
  "configure dpi cs w h depth os e =
     bind_result (setResolutionDpi dpi e) (\<lambda>e.
     bind_result (setColorspace cs e) (\<lambda>e.
     bind_result (setWidth w e) (\<lambda>e.
     bind_result (setHeight h e) (\<lambda>e.
     bind_result (setBitDepth depth e) (setDestination (Some os))))))"

lemma configure_ok:
  assumes "ie_currentLine e = 0"
  shows "\<exists>e'. configure dpi cs w h depth os e = Inr e' \<and> param_inv e' \<and> ie_dpi e' = dpi \<and>
    ie_colorspace e' = cs \<and> ie_width e' = w \<and> ie_height e' = h \<and> ie_bitDepth e' = depth \<and>
    ie_dest e' = Some os \<and> ie_currentLine e' = 0 \<and> ie_currentImage e' = ie_currentImage e \<and>
    ie_orientation e' = ie_orientation e"
  using assms by (simp add: configure_def setter_defs onParamChange_ok param_inv_def)

subsection \<open>What the base class promises\<close>

text \<open>The part of the state that belongs to the base class, without the stream.\<close>

definition base :: "'a encoder_scheme \<Rightarrow> int list \<times> colorspace \<times> bool" where
  "base e = ([ie_width e, ie_height e, ie_components e, ie_bitDepth e, ie_dpi e, ie_orientation e,
              ie_bytesPerLine e, ie_currentLine e, ie_currentImage e], ie_colorspace e, has_dest e)"

locale encoder_class =
  fixes h :: "'a encoder_scheme hooks"
  assumes docBegin_base: "onDocumentBegin h e = Inr e' \<Longrightarrow> base e' = base e"
    and imageBegin_base: "onImageBegin h e = Inr e' \<Longrightarrow> base e' = base e"
    and imageEnd_base: "onImageEnd h e = Inr e' \<Longrightarrow> base e' = base e"
    and line_base: "onWriteLine h p e = Inr e' \<Longrightarrow> base e' = base e"
    and docEnd_base: "onDocumentEnd h e = Inr e' \<Longrightarrow> base e' = base e"
begin

lemma writeLine_base:
  assumes "writeLine h p e = Inr e'"
  shows "base e' = base (advance_line e)"
proof -
  from assms obtain e1 e2 e3 where
    1: "(if ie_currentLine e = 0 \<and> ie_currentImage e = 0 then onDocumentBegin h e else Inr e) = Inr e1"
    and 2: "(if ie_currentLine e1 = 0 \<and> has_dest e1 then onImageBegin h e1 else Inr e1) = Inr e2"
    and 3: "(if has_dest e2 then onWriteLine h p e2 else Inr e2) = Inr e3"
    and 4: "(if ie_currentLine (advance_line e3) = 0 \<and> has_dest (advance_line e3)
             then onImageEnd h (advance_line e3) else Inr (advance_line e3)) = Inr e'"
    by (auto simp: writeLine_def bind_result_Inr_iff Let_def)
  have "base e1 = base e" using 1 docBegin_base by (auto split: if_splits)
  moreover have "base e2 = base e1" using 2 imageBegin_base by (auto split: if_splits)
  moreover have "base e3 = base e2" using 3 line_base by (auto split: if_splits)
  moreover have "base e' = base (advance_line e3)" using 4 imageEnd_base by (auto split: if_splits)
  ultimately show ?thesis by (auto simp: base_def advance_line_def has_dest_def)
qed

lemma endDocument_base: "endDocument h e = Inr e' \<Longrightarrow> base e' = base e"
  by (auto simp: endDocument_def dest: docEnd_base split: if_splits)

lemma writeLines_base:
  "writeLines h ps e = Inr e' \<Longrightarrow> base e' = base ((advance_line ^^ length ps) e)"
proof (induction ps arbitrary: e)
  case (Cons p ps)
  then obtain e1 where e1: "writeLine h p e = Inr e1" "writeLines h ps e1 = Inr e'"
    by (auto simp: bind_result_Inr_iff)
  have adv: "base a = base b \<Longrightarrow> base ((advance_line ^^ n) a) = base ((advance_line ^^ n) b)"
    for a b :: "'a encoder_scheme" and n
  proof (induction n)
    case (Suc n)
    then show ?case by (auto simp: base_def advance_line_def has_dest_def)
  qed simp
  from Cons.IH[OF e1(2)] adv[OF writeLine_base[OF e1(1)], of "length ps"] show ?case
    by (simp add: funpow_swap1)
qed simp

end

text \<open>Line and image counters after \<open>n\<close> lines of an image of positive height.\<close>

lemma advance_line_funpow:
  assumes "ie_height e = int h" "0 < h" "ie_currentLine e = 0" "ie_currentImage e = 0"
  shows "ie_currentLine ((advance_line ^^ n) e) = int (n mod h) \<and>
         ie_currentImage ((advance_line ^^ n) e) = int (n div h) \<and>
         ie_height ((advance_line ^^ n) e) = int h"
proof (induction n)
  case 0
  then show ?case using assms by simp
next
  case (Suc n)
  show ?case
  proof (cases "Suc (n mod h) = h")
    case True
    then have "Suc n mod h = 0" "Suc n div h = Suc (n div h)" by (simp_all add: mod_Suc div_Suc)
    with True Suc show ?thesis by (auto simp: advance_line_def)
  next
    case False
    then have "Suc n mod h = Suc (n mod h)" "Suc n div h = n div h" by (simp_all add: mod_Suc div_Suc)
    with False Suc show ?thesis by (auto simp: advance_line_def)
  qed
qed

end
