(* ===== verification/ScanSettings.thy ===== *)
theory ScanSettings
  imports OptionsFile ImageEncoder
begin

text \<open>
  The first half of \<open>src/server/scanjob.cpp\<close>: the scan settings of a job, read from the XML document of
  the client, the conversion of scan lines (gamma and gray from colour), and the state of a job.

  Fields of \<open>ScanJob::Private\<close> that the constructor leaves uninitialised are options; reading an
  uninitialised one is the error \<open>Uninitialized\<close>. \<open>std::pow\<close> is a parameter: the C library leaves the
  accuracy of its result open.
\<close>

subsection \<open>The scan settings document\<close>

definition is_alpha :: "char \<Rightarrow> bool" where
  "is_alpha c = (let n = of_char c :: nat in (65 \<le> n \<and> n \<le> 90) \<or> (97 \<le> n \<and> n \<le> 122))"

text \<open>
  The match of \<open><([a-zA-Z]+:name)>([^<]*)</\1>\<close> at the start of a string, and its first occurrence. No
  part of the expression can match in two ways, so there is no backtracking.
\<close>

definition xml_match :: "string \<Rightarrow> string \<Rightarrow> string option" where
  "xml_match name s =
     (case s of [] \<Rightarrow> None
      | c # r \<Rightarrow>
          let ns = takeWhile is_alpha r;
              r1 = dropWhile is_alpha r;
              tag = '':'' @ name @ ''>'';
              body = drop (length tag) r1
          in if c = CHR ''<'' \<and> ns \<noteq> [] \<and> prefix tag r1
                \<and> prefix (''</'' @ ns @ tag) (dropWhile (\<lambda>c. c \<noteq> CHR ''<'') body)
             then Some (takeWhile (\<lambda>c. c \<noteq> CHR ''<'') body) else None)"

fun xml_getString :: "string \<Rightarrow> string \<Rightarrow> string" where
  "xml_getString [] name = []"
| "xml_getString (c # cs) name =
     (case xml_match name (c # cs) of Some v \<Rightarrow> v | None \<Rightarrow> xml_getString cs name)"

definition xml_getNumber :: "string \<Rightarrow> string \<Rightarrow> dbl" where
  "xml_getNumber xml name = strtod_c (xml_getString xml name)"

text \<open>The match of \<open>([A-Za-z]+)([0-9]+)\<close> against a whole string.\<close>

definition color_mode_match :: "string \<Rightarrow> (string \<times> string) option" where
  "color_mode_match s =
     (let c = takeWhile is_alpha s; d = dropWhile is_alpha s
      in if c \<noteq> [] \<and> d \<noteq> [] \<and> list_all is_digit d then Some (c, d) else None)"

subsection \<open>The state of a job\<close>

datatype job_state = aborted | canceled | completed | pending | processing

datatype job_kind = single | adfSingle | adfConcat

definition PWG_NONE :: string where "PWG_NONE = ''None''"
definition PWG_RESOURCES_ARE_NOT_READY :: string where
  "PWG_RESOURCES_ARE_NOT_READY = ''ResourcesAreNotReady''"
definition PWG_JOB_QUEUED :: string where "PWG_JOB_QUEUED = ''JobQueued''"
definition PWG_JOB_SCANNING :: string where "PWG_JOB_SCANNING = ''JobScanning''"
definition PWG_JOB_COMPLETED_SUCCESSFULLY :: string where
  "PWG_JOB_COMPLETED_SUCCESSFULLY = ''JobCompletedSuccessfully''"
definition PWG_JOB_CANCELED_BY_USER :: string where "PWG_JOB_CANCELED_BY_USER = ''JobCanceledByUser''"
definition PWG_INVALID_SCAN_TICKET :: string where "PWG_INVALID_SCAN_TICKET = ''InvalidScanTicket''"
definition PWG_UNSUPPORTED_DOCUMENT_FORMAT :: string where
  "PWG_UNSUPPORTED_DOCUMENT_FORMAT = ''UnsupportedDocumentFormat''"
definition PWG_DOCUMENT_PERMISSION_ERROR :: string where
  "PWG_DOCUMENT_PERMISSION_ERROR = ''DocumentPermissionError''"
definition PWG_ERRORS_DETECTED :: string where "PWG_ERRORS_DETECTED = ''ErrorsDetected''"

record scan_job =
  sj_uuid :: string
  sj_created :: int
  sj_lastActive :: int
  sj_state :: job_state
  sj_stateReason :: string
  sj_adfStatus :: sane_status
  sj_scanSource :: string
  sj_intent :: string
  sj_documentFormat :: string
  sj_colorMode :: string
  sj_bitDepth :: int
  sj_res_dpi :: int
  sj_colorScan :: "bool option"
  sj_left_px :: dbl
  sj_top_px :: dbl
  sj_width_px :: dbl
  sj_height_px :: dbl
  sj_kind :: "job_kind option"
  sj_imagesCompleted :: int
  sj_session :: "session option"
  sj_deviceOptions :: options
  sj_gammaTable :: "nat list"

text \<open>What a job asks its scanner for.\<close>

record scanner_info =
  si_saneName :: string
  si_makeAndModel :: string
  si_uri :: string
  si_platen :: "string option"
  si_adfSimplex :: "string option"
  si_adfDuplex :: "string option"
  si_grayScanModeName :: string
  si_colorScanModeName :: string
  si_maxWidthPx300dpi :: dbl
  si_maxHeightPx300dpi :: dbl

definition source_name :: "string option \<Rightarrow> string" where
  "source_name s = (case s of None \<Rightarrow> [] | Some n \<Rightarrow> n)"

text \<open>\<open>ScanJob::ScanJob\<close> at time \<open>t\<close>; the numbers it leaves uninitialised are set by \<open>init\<close> before use.\<close>

definition job_create :: "string \<Rightarrow> int \<Rightarrow> scan_job" where
  "job_create uuid t =
     \<lparr>sj_uuid = uuid, sj_created = t, sj_lastActive = t, sj_state = pending, sj_stateReason = PWG_NONE,
      sj_adfStatus = GOOD, sj_scanSource = [], sj_intent = [], sj_documentFormat = [], sj_colorMode = [],
      sj_bitDepth = 0, sj_res_dpi = 0, sj_colorScan = None, sj_left_px = Fin 0, sj_top_px = Fin 0,
      sj_width_px = Fin 0, sj_height_px = Fin 0, sj_kind = None, sj_imagesCompleted = 0,
      sj_session = None, sj_deviceOptions = default_options, sj_gammaTable = []\<rparr>"

subsection \<open>Gamma correction\<close>

text \<open>
  Single precision arithmetic: the double precision result is rounded once more, which for sums,
  products and quotients of single precision numbers is the correctly rounded result.
\<close>

definition flt :: "dbl \<Rightarrow> dbl" where
  "flt a = (case a of Fin x \<Rightarrow> to_flt x | _ \<Rightarrow> a)"

definition u16_of_dbl :: "dbl \<Rightarrow> nat result" where
  "u16_of_dbl a = (case a of
      Fin x \<Rightarrow> (let i = dtrunc x in if 0 \<le> i \<and> i < 2 ^ 16 then Inr (nat i) else Inl ConversionUB)
    | _ \<Rightarrow> Inl ConversionUB)"

fun map_result :: "('a \<Rightarrow> 'b result) \<Rightarrow> 'a list \<Rightarrow> 'b list result" where
  "map_result f [] = Inr []"
| "map_result f (x # xs) = bind_result (f x) (\<lambda>y. bind_result (map_result f xs) (\<lambda>ys. Inr (y # ys)))"

definition gamma_entry :: "(dbl \<Rightarrow> dbl \<Rightarrow> dbl) \<Rightarrow> dbl \<Rightarrow> int \<Rightarrow> nat \<Rightarrow> nat result" where
  "gamma_entry pow g sz i =
     (let scale = flt (ddiv (Fin 1) (flt (Fin (of_int (sz - 1)))));
          invscale = flt (Fin (of_int (sz - 1)));
          f1 = flt (dmul (flt (Fin (of_nat i))) scale);
          f2 = flt (pow f1 g);
          f3 = flt (dmul f2 invscale);
          f4 = flt (dfloor (dadd f3 (Fin (1 / 2))))
      in u16_of_dbl f4)"

definition initGammaTable :: "(dbl \<Rightarrow> dbl \<Rightarrow> dbl) \<Rightarrow> dbl \<Rightarrow> scan_job \<Rightarrow> scan_job result" where
  "initGammaTable pow gamma j =
     (let g = flt gamma; sz = wrap32 (2 ^ nat (sj_bitDepth j)) in
      if deq g (Fin 1) then Inr (j\<lparr>sj_gammaTable := []\<rparr>)
      else if sj_bitDepth j < 0 \<or> sj_bitDepth j > 62 \<or> sj_bitDepth j = 31 then Inl OverflowUB
      else bind_result (map_result (gamma_entry pow g sz) [0..<nat sz]) (\<lambda>t.
             Inr (j\<lparr>sj_gammaTable := t\<rparr>)))"

fun map_u16 :: "(nat \<Rightarrow> nat) \<Rightarrow> string \<Rightarrow> string" where
  "map_u16 f (a # b # r) =
     (let v = f (of_char a + 256 * of_char b) in char_of v # char_of (v div 256) # map_u16 f r)"
| "map_u16 f r = r"

definition applyGamma :: "scan_job \<Rightarrow> string \<Rightarrow> string" where
  "applyGamma j buf =
     (let t = sj_gammaTable j in
      if length t = 2 ^ 8 then map (\<lambda>c. char_of (t ! of_char c)) buf
      else if length t = 2 ^ 16 then map_u16 (\<lambda>v. t ! v) buf
      else buf)"

subsection \<open>Gray from colour\<close>

definition gray_value :: "rat \<Rightarrow> nat \<Rightarrow> nat \<Rightarrow> nat \<Rightarrow> nat result" where
  "gray_value maxv r g b =
     (let f = flt (dadd (flt (dadd (flt (dmul (to_flt (2126 / 10000)) (Fin (of_nat r))))
                                   (flt (dmul (to_flt (7152 / 10000)) (Fin (of_nat g))))))
                        (flt (dmul (to_flt (722 / 10000)) (Fin (of_nat b)))));
          f1 = flt (dadd f (Fin (1 / 2)))
      in u16_of_dbl (dmin (Fin maxv) f1))"

text \<open>
  The loop over the pixels of a line: it stops when the input is used up; a last pixel that is not
  complete is read from behind the buffer. The gray values overwrite the first third of the buffer.
\<close>

fun gray_bytes :: "string \<Rightarrow> string result" where
  "gray_bytes [] = Inr []"
| "gray_bytes (r # g # b # rest) =
     bind_result (gray_value 255 (of_char r) (of_char g) (of_char b)) (\<lambda>v.
     bind_result (gray_bytes rest) (\<lambda>vs. Inr (char_of v # vs)))"
| "gray_bytes _ = Inl MemoryUB"

fun gray_words :: "string \<Rightarrow> string result" where
  "gray_words [] = Inr []"
| "gray_words (r0 # r1 # g0 # g1 # b0 # b1 # rest) =
     bind_result (gray_value 65535 (of_char r0 + 256 * of_char r1) (of_char g0 + 256 * of_char g1)
                    (of_char b0 + 256 * of_char b1)) (\<lambda>v.
     bind_result (gray_words rest) (\<lambda>vs. Inr (char_of v # char_of (v div 256) # vs)))"
| "gray_words _ = Inl MemoryUB"

definition synthesizeGray :: "scan_job \<Rightarrow> string \<Rightarrow> string result" where
  "synthesizeGray j buf =
     (if sj_bitDepth j = 8 then bind_result (gray_bytes buf) (\<lambda>g. Inr (overlay buf 0 g))
      else if sj_bitDepth j = 16 then bind_result (gray_words buf) (\<lambda>g. Inr (overlay buf 0 g))
      else Inr buf)"

subsection \<open>Initialisation from the scan settings\<close>

definition applyDeviceOptions ::
  "(dbl \<Rightarrow> dbl \<Rightarrow> dbl) \<Rightarrow> scanner_info \<Rightarrow> options \<Rightarrow> scan_job \<Rightarrow> scan_job result" where
  "applyDeviceOptions pow sc opts j =
     (let j1 = j\<lparr>sj_deviceOptions := opts, sj_gammaTable := []\<rparr> in
      case sj_colorScan j of None \<Rightarrow> Inl Uninitialized
      | Some color \<Rightarrow>
          bind_result (initGammaTable pow (if color then of_color_gamma opts else of_gray_gamma opts) j1) (\<lambda>j2.
            Inr (if color then j2
                 else j2\<lparr>sj_colorMode := (if of_synthesize_gray opts then si_colorScanModeName sc
                                          else si_grayScanModeName sc)\<rparr>)))"

definition nan_default :: "dbl \<Rightarrow> dbl \<Rightarrow> dbl" where
  "nan_default d a = (if a = NaN then d else a)"

text \<open>Resolution and scan region; the boolean tells that the ticket is invalid.\<close>

definition init_region :: "scanner_info \<Rightarrow> string \<Rightarrow> scan_job \<Rightarrow> (bool \<times> scan_job) result" where
  "init_region sc xml j =
     (let xres = xml_getNumber xml ''XResolution'';
          err = (xres \<noteq> NaN \<and> \<not> deq xres (xml_getNumber xml ''YResolution''));
          left = nan_default (Fin 0) (xml_getNumber xml ''XOffset'');
          topv = nan_default (Fin 0) (xml_getNumber xml ''YOffset'');
          res_dpi = nan_default (Fin 300) (dfloor (dadd xres (Fin (1 / 2))));
          px_per_unit = (if xml_getString xml ''ContentRegionUnits'' = ''escl:ThreeHundredthsOfInches''
                         then ddiv res_dpi (Fin 300) else Fin 1);
          width = dmul (xml_getNumber xml ''Width'') px_per_unit;
          height = dmul (xml_getNumber xml ''Height'') px_per_unit
      in bind_result (int_of_dbl res_dpi) (\<lambda>res.
         bind_result (if width = NaN then bind_result (int_of_dbl (si_maxWidthPx300dpi sc)) (\<lambda>i. Inr (dbl_of_int i))
                      else Inr width) (\<lambda>wd.
         bind_result (if height = NaN then bind_result (int_of_dbl (si_maxHeightPx300dpi sc)) (\<lambda>i. Inr (dbl_of_int i))
                      else Inr height) (\<lambda>ht.
         Inr (err, j\<lparr>sj_left_px := dmul left px_per_unit, sj_top_px := dmul topv px_per_unit,
                     sj_width_px := wd, sj_height_px := ht, sj_res_dpi := res\<rparr>)))))"

definition init_color :: "scanner_info \<Rightarrow> string \<Rightarrow> scan_job \<Rightarrow> scan_job" where
  "init_color sc xml j =
     (let j0 = j\<lparr>sj_bitDepth := 0\<rparr>;
          j1 = (case color_mode_match (xml_getString xml ''ColorMode'') of None \<Rightarrow> j0
                | Some (c, d) \<Rightarrow>
                    if c = ''RGB'' then
                      j0\<lparr>sj_colorMode := si_colorScanModeName sc, sj_colorScan := Some True,
                         sj_bitDepth := cdiv (atoi d) 3\<rparr>
                    else if c = ''Grayscale'' then
                      j0\<lparr>sj_colorMode := si_grayScanModeName sc, sj_colorScan := Some False,
                         sj_bitDepth := atoi d\<rparr>
                    else j0)
      in if sj_colorMode j1 = [] then
           j1\<lparr>sj_colorMode := (if sj_intent j1 = ''Photo'' then si_colorScanModeName sc
                               else si_grayScanModeName sc),
              sj_bitDepth := 8\<rparr>
         else j1)"

definition init_format :: "string \<Rightarrow> bool \<Rightarrow> scan_job \<Rightarrow> scan_job" where
  "init_format xml autoselect j =
     (let f1 = xml_getString xml ''DocumentFormat'';
          f2 = (if f1 = [] then xml_getString xml ''DocumentFormatExt'' else f1);
          f3 = (if f2 \<noteq> [] then f2
                else if sj_intent j = ''Document'' \<or> sj_intent j = ''Text'' then MIME_TYPE_PDF
                else if sj_intent j = ''Photo'' then MIME_TYPE_JPEG else f2)
      in j\<lparr>sj_documentFormat := (if f3 = [] \<or> autoselect then MIME_TYPE_PNG else f3)\<rparr>)"

definition init_source :: "scanner_info \<Rightarrow> string \<Rightarrow> scan_job \<Rightarrow> bool \<times> scan_job" where
  "init_source sc xml j =
     (let s0 = xml_getString xml ''InputSource'';
          src = (if s0 = [] then (if si_platen sc \<noteq> None then ''Platen'' else ''Feeder'') else s0);
          duplex = deq (xml_getNumber xml ''Duplex'') (Fin 1);
          concatIfPossible = deq (xml_getNumber xml ''ConcatIfPossible'') (Fin 1)
      in if src = ''Platen'' then
           (False, j\<lparr>sj_scanSource := source_name (si_platen sc), sj_kind := Some single\<rparr>)
         else if src = ''Feeder'' then
           (False, j\<lparr>sj_scanSource := source_name (if duplex then si_adfDuplex sc else si_adfSimplex sc),
                     sj_kind := Some (if concatIfPossible \<and> sj_documentFormat j = MIME_TYPE_PDF
                                      then adfConcat else adfSingle)\<rparr>)
         else (True, j))"

definition job_init ::
  "(dbl \<Rightarrow> dbl \<Rightarrow> dbl) \<Rightarrow> scanner_info \<Rightarrow> string \<Rightarrow> bool \<Rightarrow> options \<Rightarrow> scan_job \<Rightarrow> scan_job result" where
  "job_init pow sc xml autoselect opts j =
     (let intent = xml_getString xml ''Intent'';
          j1 = j\<lparr>sj_intent := (if intent = [] then ''Photo'' else intent)\<rparr>
      in bind_result (init_region sc xml j1) (\<lambda>(err1, j2).
         let j3 = (init_format xml autoselect (init_color sc xml j2))\<lparr>sj_imagesCompleted := 0\<rparr>;
             (err2, j4) = init_source sc xml j3
         in bind_result (applyDeviceOptions pow sc opts j4) (\<lambda>j5.
            Inr (if err1 \<or> err2
                 then j5\<lparr>sj_state := aborted, sj_stateReason := PWG_INVALID_SCAN_TICKET\<rparr>
                 else j5\<lparr>sj_state := pending, sj_stateReason := PWG_JOB_QUEUED\<rparr>))))"

definition kindString :: "scan_job \<Rightarrow> string result" where
  "kindString j = (case sj_kind j of None \<Rightarrow> Inl Uninitialized
     | Some single \<Rightarrow> Inr ''single'' | Some adfConcat \<Rightarrow> Inr ''ADF concat'' | Some adfSingle \<Rightarrow> Inr ''ADF single'')"

definition job_statusString :: "scan_job \<Rightarrow> string" where
  "job_statusString j = (case sj_state j of aborted \<Rightarrow> ''Aborted'' | canceled \<Rightarrow> ''Canceled''
     | completed \<Rightarrow> ''Completed'' | pending \<Rightarrow> ''Pending'' | processing \<Rightarrow> ''Processing'')"

definition isFinished :: "scan_job \<Rightarrow> bool" where
  "isFinished j = (case sj_state j of pending \<Rightarrow> False | processing \<Rightarrow> False | _ \<Rightarrow> True)"

definition job_uri :: "scanner_info \<Rightarrow> scan_job \<Rightarrow> string" where
  "job_uri sc j = si_uri sc @ ''/ScanJobs/'' @ sj_uuid j"

definition ageSeconds :: "int \<Rightarrow> scan_job \<Rightarrow> int" where
  "ageSeconds t j = t - sj_created j"

definition idleSeconds :: "int \<Rightarrow> scan_job \<Rightarrow> int" where
  "idleSeconds t j = t - sj_lastActive j"

definition writeJobInfoXml :: "int \<Rightarrow> scanner_info \<Rightarrow> scan_job \<Rightarrow> string" where
  "writeJobInfoXml t sc j =
     ''<scan:JobInfo>'' @ crlf
     @ ''<pwg:JobUri>'' @ job_uri sc j @ ''</pwg:JobUri>'' @ crlf
     @ ''<pwg:JobUuid>'' @ sj_uuid j @ ''</pwg:JobUuid>'' @ crlf
     @ ''<scan:Age>'' @ dec_int (ageSeconds t j) @ ''</scan:Age>'' @ crlf
     @ ''<pwg:JobState>'' @ job_statusString j @ ''</pwg:JobState>'' @ crlf
     @ ''<pwg:ImagesCompleted>'' @ dec_int (sj_imagesCompleted j) @ ''</pwg:ImagesCompleted>'' @ crlf
     @ ''<pwg:JobStateReasons>'' @ crlf
     @ ''<pwg:JobStateReason>'' @ sj_stateReason j @ ''</pwg:JobStateReason>'' @ crlf
     @ ''</pwg:JobStateReasons>'' @ crlf
     @ ''</scan:JobInfo>'' @ crlf"

subsection \<open>Conversions keep the length of a line\<close>

lemma map_result_Inr_length: "map_result f xs = Inr ys \<Longrightarrow> length ys = length xs"
  by (induction xs arbitrary: ys) (auto simp: bind_result_Inr_iff)

lemma length_map_u16 [simp]: "length (map_u16 f s) = length s"
  by (induction f s rule: map_u16.induct) (auto simp: Let_def)

lemma length_applyGamma [simp]: "length (applyGamma j buf) = length buf"
  by (simp add: applyGamma_def Let_def)

lemma length_gray_bytes: "gray_bytes s = Inr g \<Longrightarrow> 3 * length g = length s"
  by (induction s arbitrary: g rule: gray_bytes.induct) (auto simp: bind_result_Inr_iff)

lemma length_gray_words: "gray_words s = Inr g \<Longrightarrow> 3 * length g = length s"
  by (induction s arbitrary: g rule: gray_words.induct) (auto simp: bind_result_Inr_iff)

lemma length_overlay: "k + length d \<le> length buf \<Longrightarrow> length (overlay buf k d) = length buf"
  by (simp add: overlay_def)

lemma length_synthesizeGray: "synthesizeGray j buf = Inr g \<Longrightarrow> length g = length buf"
  by (auto simp: synthesizeGray_def bind_result_Inr_iff length_overlay
      dest!: length_gray_bytes length_gray_words split: if_splits)

end
