(* ===== verification/PdfEncoder.thy ===== *)
theory PdfEncoder
  imports ImageEncoder
begin

text \<open>
  \<open>src/imageformats/pdfencoder.cpp\<close> on a little-endian machine: the PDF/raster encoder. Every image is
  a page of three objects (page, image, content stream); the page tree is object 1; the cross reference
  table at the end lists where each object starts.

  \<open>mObj\<close> is set by \<open>onDocumentBegin\<close> only, so it is an option. The operands of each output statement are
  evaluated from left to right, which is what the comments of the source say they rely on. The clock
  and the identifier derived by \<open>Uuid\<close> are arguments.
\<close>

subsection \<open>Text encoding\<close>

definition pdfNameEncode :: "string \<Rightarrow> string" where
  "pdfNameEncode s =
     concat (map (\<lambda>c. if c \<in> {chr_nl, chr_cr, chr_tab, CHR '' ''} then ''#20'' else [c]) s)"

definition pdf_char :: "char \<Rightarrow> string" where
  "pdf_char c =
     (if c = chr_nl then [chr_backslash, CHR ''n'']
      else if c = chr_tab then [chr_backslash, CHR ''t'']
      else if c = chr_cr then [chr_backslash, CHR ''r'']
      else if c = chr_bs then [chr_backslash, CHR ''b'']
      else if c = chr_ff then [chr_backslash, CHR ''f'']
      else if c = CHR ''('' \<or> c = CHR '')'' \<or> c = chr_backslash then [chr_backslash, c]
      else [c])"

definition pdfStringEncode :: "string \<Rightarrow> string" where
  "pdfStringEncode s = concat (map pdf_char s)"

text \<open>A reader of PDF literal strings, as reference: it stops at the closing parenthesis.\<close>

fun pdf_string_read :: "string \<Rightarrow> (string \<times> string) option" where
  "pdf_string_read [] = None"
| "pdf_string_read (c # cs) =
     (if c = CHR '')'' then Some ([], cs)
      else if c = chr_backslash then
        (case cs of [] \<Rightarrow> None
         | d # ds \<Rightarrow>
             map_option (\<lambda>(s, r).
               ((if d = CHR ''n'' then chr_nl else if d = CHR ''t'' then chr_tab
                 else if d = CHR ''r'' then chr_cr else if d = CHR ''b'' then chr_bs
                 else if d = CHR ''f'' then chr_ff else d) # s, r)) (pdf_string_read ds))
      else map_option (\<lambda>(s, r). (c # s, r)) (pdf_string_read cs))"

lemma pdf_string_roundtrip:
  "pdf_string_read (pdfStringEncode s @ CHR '')'' # r) = Some (s, r)"
  by (induction s) (auto simp: pdfStringEncode_def pdf_char_def)

subsection \<open>State\<close>

record pdf_encoder = encoder +
  pdf_objects :: "(int \<times> int) list"   \<comment> \<open>\<open>mObjects\<close>: id and offset\<close>
  pdf_begin :: int
  pdf_startxref :: int
  pdf_info :: dictionary
  pdf_infoString :: string
  pdf_obj :: "int option"
  pdf_lineBuffer :: int               \<comment> \<open>the size of \<open>mLineBuffer\<close>\<close>

definition pdf_init :: pdf_encoder where
  "pdf_init = encoder.extend encoder_init
     \<lparr>pdf_objects = [], pdf_begin = 0, pdf_startxref = 0, pdf_info = [], pdf_infoString = [],
      pdf_obj = None, pdf_lineBuffer = 0\<rparr>"

subsection \<open>Output statements\<close>

text \<open>\<open>*destination() << s\<close>, and \<open>*destination() << defobj(id)\<close>; a null destination is dereferenced.\<close>

definition pdf_put :: "string \<Rightarrow> pdf_encoder \<Rightarrow> pdf_encoder result" where
  "pdf_put s e = (case ie_dest e of None \<Rightarrow> Inl NullDeref
     | Some os \<Rightarrow> Inr (e\<lparr>ie_dest := Some (os_put s os)\<rparr>))"

definition defobj :: "int \<Rightarrow> pdf_encoder \<Rightarrow> pdf_encoder result" where
  "defobj i e = (case ie_dest e of None \<Rightarrow> Inl NullDeref
     | Some os \<Rightarrow>
         Inr (e\<lparr>ie_dest := Some (os_put (dec_int i @ '' 0 obj'') os),
                pdf_objects := pdf_objects e @ [(i, os_tellp os - pdf_begin e)]\<rparr>))"

text \<open>\<open>++mObj\<close> reads an indeterminate value unless a document was begun.\<close>

definition next_obj :: "pdf_encoder \<Rightarrow> (pdf_encoder \<times> int) result" where
  "next_obj e = (case pdf_obj e of None \<Rightarrow> Inl Uninitialized
     | Some n \<Rightarrow> Inr (e\<lparr>pdf_obj := Some (n + 1)\<rparr>, n + 1))"

definition pdf_header :: string where
  "pdf_header = ''%PDF-1.4'' @ nl @ ''%'' @
     [CHR 0xC3, CHR 0xA2, CHR 0xC3, CHR 0xA3, CHR 0xC3, CHR 0x8F, CHR 0xC3, CHR 0x93] @ nl"

definition pdf_info_string :: "dictionary \<Rightarrow> string" where
  "pdf_info_string d =
     concat (map (\<lambda>(k, v). if k \<noteq> [] \<and> v \<noteq> []
                          then ''/'' @ pdfNameEncode k @ '' ('' @ pdfStringEncode v @ '')'' @ nl else []) d)"

subsection \<open>The virtual functions\<close>

definition pdf_onDocumentBegin :: "string \<Rightarrow> pdf_encoder \<Rightarrow> pdf_encoder result" where
  "pdf_onDocumentBegin now e =
     (let buf = (if ie_bitDepth e = 16 then ie_components e * ie_width e else 0);
          info = dict_set (pdf_info e) ''CreationDate'' now;
          e1 = e\<lparr>pdf_lineBuffer := buf, pdf_info := info, pdf_infoString := pdf_info_string info,
                 pdf_objects := []\<rparr>
      in if ie_dpi e = 0 then Inl (RuntimeError ''no resolution specified'')
         else case ie_dest e of None \<Rightarrow> Inl NullDeref
           | Some os \<Rightarrow>
               Inr (e1\<lparr>pdf_begin := os_tellp os, ie_dest := Some (os_put pdf_header os),
                       pdf_obj := Some 1\<rparr>))"

definition pdf_units :: "pdf_encoder \<Rightarrow> dbl" where
  "pdf_units e = ddiv (Fin 72) (dbl_of_int (ie_dpi e))"

definition pdf_length :: "pdf_encoder \<Rightarrow> int \<Rightarrow> string" where
  "pdf_length e n = dbl_str (dmul (pdf_units e) (dbl_of_int n))"

definition csname :: "int \<Rightarrow> string" where
  "csname c = (if c = 1 then ''DeviceGray'' else if c = 3 then ''DeviceRGB''
     else if c = 4 then ''DeviceCMYK'' else ''unknown'')"

definition page_text :: "pdf_encoder \<Rightarrow> int \<Rightarrow> string" where
  "page_text e n =
     ''<<'' @ nl @ ''/Type/Page'' @ nl @ ''/Contents '' @ dec_int (n + 2) @ '' 0 R'' @ nl @
     ''/Rotate '' @ dec_int (ie_orientation e) @ nl @
     ''/MediaBox [ 0 0 '' @ pdf_length e (ie_width e) @ '' '' @ pdf_length e (ie_height e) @ '' ]'' @ nl @
     ''/Parent 1 0 R'' @ nl @
     ''/Resources << /XObject << /strip0 '' @ dec_int (n + 1) @ '' 0 R >> >>'' @ nl @
     ''>>'' @ nl @ ''endobj'' @ nl"

definition image_text :: "pdf_encoder \<Rightarrow> string" where
  "image_text e =
     nl @ ''<<'' @ nl @ ''/Type /XObject'' @ nl @ ''/Subtype /Image'' @ nl @
     ''/Width '' @ dec_int (ie_width e) @ nl @ ''/Height '' @ dec_int (ie_height e) @
     nl @ ''/ColorSpace /'' @ csname (ie_components e) @
     nl @ ''/BitsPerComponent '' @ dec_int (ie_bitDepth e) @
     nl @ ''/Length '' @ dec_int (ie_height e * ie_bytesPerLine e) @
     nl @ ''>>'' @ nl @ ''stream'' @ nl"

definition pdf_onImageBegin :: "pdf_encoder \<Rightarrow> pdf_encoder result" where
  "pdf_onImageBegin e =
     bind_result (next_obj e) (\<lambda>(e, n).
     bind_result (defobj n e) (\<lambda>e.
     bind_result (pdf_put (page_text e n) e) (\<lambda>e.
     bind_result (next_obj e) (\<lambda>(e, n).
     bind_result (defobj n e) (\<lambda>e.
     pdf_put (image_text e) e)))))"

definition pagedef :: "pdf_encoder \<Rightarrow> string" where
  "pagedef e = pdf_length e (ie_width e) @ '' 0 0 '' @ pdf_length e (ie_height e) @ '' 0 0 cm'' @ nl @
     ''/strip0 Do'' @ nl"

definition contents_text :: "pdf_encoder \<Rightarrow> string" where
  "contents_text e =
     nl @ ''<<'' @ nl @ ''/Length '' @ dec_nat (length (pagedef e)) @ nl @ ''>>'' @ nl @
     ''stream'' @ nl @ pagedef e @ ''endstream'' @ nl @ nl @ ''endobj'' @ nl"

definition pdf_onImageEnd :: "pdf_encoder \<Rightarrow> pdf_encoder result" where
  "pdf_onImageEnd e =
     bind_result (pdf_put (nl @ ''endstream'' @ nl @ ''endobj'' @ nl) e) (\<lambda>e.
     bind_result (next_obj e) (\<lambda>(e, n).
     bind_result (defobj n e) (\<lambda>e.
     pdf_put (contents_text e) e)))"

text \<open>16 bit samples are sent in network byte order.\<close>

fun swap16 :: "string \<Rightarrow> string" where
  "swap16 (a # b # r) = b # a # swap16 r"
| "swap16 r = r"

definition pdf_onWriteLine :: "string \<Rightarrow> pdf_encoder \<Rightarrow> pdf_encoder result" where
  "pdf_onWriteLine p e =
     (if pdf_lineBuffer e > 0
      then pdf_put (take (nat (ie_bytesPerLine e)) (swap16 (take (nat (2 * pdf_lineBuffer e)) p))) e
      else pdf_put (take (nat (ie_bytesPerLine e)) p) e)"

text \<open>\<open>for (int i = 2; i < p->mObj; i += 3)\<close>.\<close>

function kids :: "int \<Rightarrow> int \<Rightarrow> int list" where
  "kids i n = (if i < n then i # kids (i + 3) n else [])"
  by pat_completeness auto
termination by (relation "measure (\<lambda>(i, n). nat (n - i))") auto

declare kids.simps [simp del]

definition pages_text :: "int \<Rightarrow> int \<Rightarrow> string" where
  "pages_text images n =
     nl @ ''<<'' @ nl @ ''/Type/Pages'' @ nl @ ''/Count '' @ dec_int images @ nl @ ''/Kids ['' @ nl @
     concat (map (\<lambda>i. dec_int i @ '' 0 R'' @ nl) (kids 2 n)) @
     nl @ '']'' @ nl @ ''>>'' @ nl @ ''endobj'' @ nl"

definition catalog_text :: string where
  "catalog_text = ''<<'' @ nl @ ''/Type/Catalog'' @ nl @ ''/Pages 1 0 R'' @ nl @ ''>>'' @ nl @ ''endobj'' @ nl"

definition info_text :: "pdf_encoder \<Rightarrow> string" where
  "info_text e = ''<<'' @ nl @ pdf_infoString e @ ''>>'' @ nl @ ''endobj'' @ nl"

text \<open>\<open>std::setfill('0') << std::setw(10) << offset\<close>.\<close>

definition pad10 :: "int \<Rightarrow> string" where
  "pad10 i = (let s = dec_int i in replicate (10 - length s) (CHR ''0'') @ s)"

definition xref_entry :: "int \<Rightarrow> string" where
  "xref_entry off = pad10 off @ '' 00000 n '' @ nl"

definition xref_text :: "(int \<times> int) list \<Rightarrow> string" where
  "xref_text objs =
     ''xref'' @ nl @ ''0 '' @ dec_nat (length objs + 1) @ nl @ ''0000000000 65535 f '' @ nl @
     concat (map (\<lambda>(i, off). xref_entry off) objs)"

definition trailer_text :: "nat \<Rightarrow> int \<Rightarrow> string \<Rightarrow> int \<Rightarrow> string" where
  "trailer_text cnt n fileid startxref =
     ''trailer'' @ nl @ ''<<'' @ nl @ ''/Size '' @ dec_nat (cnt + 1) @ nl @
     ''/Root '' @ dec_int (n - 1) @ '' 0 R'' @ nl @ ''/Info '' @ dec_int n @ '' 0 R'' @ nl @
     ''/ID ['' @ nl @ ''<'' @ fileid @ ''>'' @ nl @ ''<'' @ fileid @ ''>'' @ nl @ '']'' @ nl @ ''>>'' @ nl @
     ''%PDF-raster-1.0'' @ nl @ ''startxref'' @ nl @ dec_int startxref @ nl @ ''%%EOF'' @ nl"

text \<open>The loop that removes every hyphen from the identifier.\<close>

definition strip_hyphens :: "string \<Rightarrow> string" where
  "strip_hyphens s = filter (\<lambda>c. c \<noteq> CHR ''-'') s"

definition pdf_onDocumentEnd :: "(string \<Rightarrow> string) \<Rightarrow> pdf_encoder \<Rightarrow> pdf_encoder result" where
  "pdf_onDocumentEnd uuid e =
     (let fileid = strip_hyphens (uuid (pdf_infoString e)) in
     bind_result (defobj 1 e) (\<lambda>e.
     bind_result (case pdf_obj e of None \<Rightarrow> Inl Uninitialized
                  | Some n \<Rightarrow> pdf_put (pages_text (ie_currentImage e) n) e) (\<lambda>e.
     bind_result (next_obj e) (\<lambda>(e, n).
     bind_result (defobj n e) (\<lambda>e.
     bind_result (pdf_put catalog_text e) (\<lambda>e.
     bind_result (next_obj e) (\<lambda>(e, n).
     bind_result (defobj n e) (\<lambda>e.
     bind_result (pdf_put (info_text e) e) (\<lambda>e.
     case ie_dest e of None \<Rightarrow> Inl NullDeref
     | Some os \<Rightarrow>
         let sx = os_tellp os - pdf_begin e;
             objs = sort_key fst (pdf_objects e)
         in pdf_put (xref_text objs @ trailer_text (length objs) n fileid sx)
              (e\<lparr>pdf_startxref := sx, pdf_objects := objs\<rparr>))))))))))"

definition pdf_hooks :: "string \<Rightarrow> (string \<Rightarrow> string) \<Rightarrow> pdf_encoder hooks" where
  "pdf_hooks now uuid =
     \<lparr>onDocumentBegin = pdf_onDocumentBegin now, onDocumentEnd = pdf_onDocumentEnd uuid,
      onImageBegin = pdf_onImageBegin, onImageEnd = pdf_onImageEnd, onWriteLine = pdf_onWriteLine\<rparr>"

lemma pdf_hooks_simps [simp]:
  "onDocumentBegin (pdf_hooks now uuid) = pdf_onDocumentBegin now"
  "onDocumentEnd (pdf_hooks now uuid) = pdf_onDocumentEnd uuid"
  "onImageBegin (pdf_hooks now uuid) = pdf_onImageBegin"
  "onImageEnd (pdf_hooks now uuid) = pdf_onImageEnd"
  "onWriteLine (pdf_hooks now uuid) = pdf_onWriteLine"
  by (simp_all add: pdf_hooks_def)

subsection \<open>The objects and where they are\<close>

text \<open>The bytes of the document so far.\<close>

definition pdf_data :: "pdf_encoder \<Rightarrow> string" where
  "pdf_data e = (case ie_dest e of None \<Rightarrow> [] | Some os \<Rightarrow> drop (nat (pdf_begin e)) (os_data os))"

text \<open>An entry of the object table is right when its object starts at its offset.\<close>

definition obj_at :: "string \<Rightarrow> int \<times> int \<Rightarrow> bool" where
  "obj_at d ob \<longleftrightarrow> 0 \<le> snd ob \<and> prefix (dec_int (fst ob) @ '' 0 obj'') (drop (nat (snd ob)) d)"

definition pdf_ok :: "int list \<Rightarrow> pdf_encoder \<Rightarrow> bool" where
  "pdf_ok ids e \<longleftrightarrow>
     (\<exists>os. ie_dest e = Some os \<and> os_reliable os \<and> 0 \<le> pdf_begin e \<and>
           nat (pdf_begin e) \<le> length (os_data os)) \<and>
     map fst (pdf_objects e) = ids \<and> (\<forall>ob \<in> set (pdf_objects e). obj_at (pdf_data e) ob)"

text \<open>What an output statement leaves alone.\<close>

definition pdf_frame :: "pdf_encoder \<Rightarrow> pdf_encoder \<Rightarrow> bool" where
  "pdf_frame e e' \<longleftrightarrow> base e' = base e \<and> pdf_begin e' = pdf_begin e \<and>
     pdf_infoString e' = pdf_infoString e \<and> pdf_lineBuffer e' = pdf_lineBuffer e \<and>
     prefix (pdf_data e) (pdf_data e')"

lemma pdf_frame_refl [simp]: "pdf_frame e e"
  by (simp add: pdf_frame_def)

lemma pdf_frame_trans [trans]: "pdf_frame a b \<Longrightarrow> pdf_frame b c \<Longrightarrow> pdf_frame a c"
  by (auto simp: pdf_frame_def intro: prefix_order.trans)

lemma obj_at_append: "obj_at d ob \<Longrightarrow> obj_at (d @ s) ob"
proof -
  assume a: "obj_at d ob"
  then have "drop (nat (snd ob)) d \<noteq> []" by (auto simp: obj_at_def)
  then have "nat (snd ob) \<le> length d" by simp
  with a show ?thesis by (simp add: obj_at_def prefix_append)
qed

lemma pdf_put_ok:
  assumes "pdf_ok ids e"
  shows "\<exists>e'. pdf_put s e = Inr e' \<and> pdf_ok ids e' \<and> pdf_frame e e' \<and> pdf_obj e' = pdf_obj e \<and>
    pdf_objects e' = pdf_objects e \<and> pdf_startxref e' = pdf_startxref e \<and> pdf_data e' = pdf_data e @ s"
proof -
  from assms obtain os where os: "ie_dest e = Some os" "os_reliable os" "0 \<le> pdf_begin e"
      "nat (pdf_begin e) \<le> length (os_data os)"
    by (auto simp: pdf_ok_def)
  let ?e = "e\<lparr>ie_dest := Some (os_put s os)\<rparr>"
  have d: "pdf_data ?e = pdf_data e @ s" using os by (simp add: pdf_data_def)
  then have "pdf_ok ids ?e" using assms os by (auto simp: pdf_ok_def obj_at_append)
  moreover have "pdf_frame e ?e" using d os by (simp add: pdf_frame_def base_def has_dest_def)
  ultimately show ?thesis using os d by (simp add: pdf_put_def)
qed

lemma defobj_ok:
  assumes "pdf_ok ids e"
  shows "\<exists>e'. defobj i e = Inr e' \<and> pdf_ok (ids @ [i]) e' \<and> pdf_frame e e' \<and> pdf_obj e' = pdf_obj e"
proof -
  from assms obtain os where os: "ie_dest e = Some os" "os_reliable os" "0 \<le> pdf_begin e"
      "nat (pdf_begin e) \<le> length (os_data os)"
    by (auto simp: pdf_ok_def)
  let ?t = "dec_int i @ '' 0 obj''"
  let ?ob = "(i, os_tellp os - pdf_begin e)"
  let ?e = "e\<lparr>ie_dest := Some (os_put ?t os), pdf_objects := pdf_objects e @ [?ob]\<rparr>"
  have d: "pdf_data ?e = pdf_data e @ ?t" using os by (simp add: pdf_data_def)
  have "nat (snd ?ob) = length (pdf_data e)" "0 \<le> snd ?ob"
    using os by (auto simp: pdf_data_def os_tellp_def)
  then have "obj_at (pdf_data ?e) ?ob" by (simp add: obj_at_def d)
  then have "pdf_ok (ids @ [i]) ?e" using assms os d by (auto simp: pdf_ok_def obj_at_append)
  moreover have "pdf_frame e ?e" using d os by (simp add: pdf_frame_def base_def has_dest_def)
  ultimately show ?thesis using os by (simp add: defobj_def)
qed

lemma pdf_data_cong [simp]:
  "pdf_data (e\<lparr>pdf_obj := x\<rparr>) = pdf_data e" "pdf_data (e\<lparr>pdf_objects := obs\<rparr>) = pdf_data e"
  "pdf_data (e\<lparr>pdf_startxref := sx\<rparr>) = pdf_data e"
  by (cases "ie_dest e"; simp add: pdf_data_def)+

lemma next_obj_ok:
  assumes "pdf_ok ids e" "pdf_obj e = Some n"
  shows "\<exists>e'. next_obj e = Inr (e', n + 1) \<and> pdf_ok ids e' \<and> pdf_frame e e' \<and> pdf_obj e' = Some (n + 1)"
  using assms by (simp add: next_obj_def pdf_ok_def pdf_frame_def base_def has_dest_def)

lemma numbered_obj_ok:
  assumes "pdf_ok ids e" "pdf_obj e = Some n"
  shows "\<exists>e1 e2. next_obj e = Inr (e1, n + 1) \<and> defobj (n + 1) e1 = Inr e2 \<and> pdf_ok (ids @ [n + 1]) e2 \<and>
    pdf_frame e e2 \<and> pdf_obj e2 = Some (n + 1)"
proof -
  from next_obj_ok[OF assms] obtain e1 where 1: "next_obj e = Inr (e1, n + 1)" "pdf_ok ids e1"
      "pdf_frame e e1" "pdf_obj e1 = Some (n + 1)" by blast
  from defobj_ok[OF 1(2), of "n + 1"] obtain e2 where 2: "defobj (n + 1) e1 = Inr e2"
      "pdf_ok (ids @ [n + 1]) e2" "pdf_frame e1 e2" "pdf_obj e2 = pdf_obj e1" by blast
  from 1 2 show ?thesis by (auto intro: pdf_frame_trans)
qed

lemma pdf_onImageBegin_ok:
  assumes "pdf_ok ids e" "pdf_obj e = Some n"
  shows "\<exists>e'. pdf_onImageBegin e = Inr e' \<and> pdf_ok (ids @ [n + 1, n + 2]) e' \<and> pdf_frame e e' \<and>
    pdf_obj e' = Some (n + 2)"
proof -
  from numbered_obj_ok[OF assms] obtain a b where ab: "next_obj e = Inr (a, n + 1)"
      "defobj (n + 1) a = Inr b" "pdf_ok (ids @ [n + 1]) b" "pdf_frame e b" "pdf_obj b = Some (n + 1)" by blast
  from pdf_put_ok[OF ab(3), of "page_text b (n + 1)"] obtain c where c: "pdf_put (page_text b (n + 1)) b = Inr c"
      "pdf_ok (ids @ [n + 1]) c" "pdf_frame b c" "pdf_obj c = pdf_obj b" by blast
  from numbered_obj_ok[OF c(2), of "n + 1"] c(4) ab(5) obtain d e' where de: "next_obj c = Inr (d, n + 2)"
      "defobj (n + 2) d = Inr e'" "pdf_ok (ids @ [n + 1, n + 2]) e'" "pdf_frame c e'" "pdf_obj e' = Some (n + 2)"
    by (auto simp: algebra_simps)
  from pdf_put_ok[OF de(3), of "image_text e'"] obtain g where g: "pdf_put (image_text e') e' = Inr g"
      "pdf_ok (ids @ [n + 1, n + 2]) g" "pdf_frame e' g" "pdf_obj g = pdf_obj e'" by blast
  show ?thesis using ab c de g by (auto simp: pdf_onImageBegin_def intro: pdf_frame_trans)
qed

lemma pdf_onImageEnd_ok:
  assumes "pdf_ok ids e" "pdf_obj e = Some n"
  shows "\<exists>e'. pdf_onImageEnd e = Inr e' \<and> pdf_ok (ids @ [n + 1]) e' \<and> pdf_frame e e' \<and>
    pdf_obj e' = Some (n + 1)"
proof -
  from pdf_put_ok[OF assms(1)] obtain a where a: "pdf_put (nl @ ''endstream'' @ nl @ ''endobj'' @ nl) e = Inr a"
      "pdf_ok ids a" "pdf_frame e a" "pdf_obj a = pdf_obj e" by blast
  from numbered_obj_ok[OF a(2), of n] a(4) assms(2) obtain b c where bc: "next_obj a = Inr (b, n + 1)"
      "defobj (n + 1) b = Inr c" "pdf_ok (ids @ [n + 1]) c" "pdf_frame a c" "pdf_obj c = Some (n + 1)"
    by auto
  from pdf_put_ok[OF bc(3), of "contents_text c"] obtain d where d: "pdf_put (contents_text c) c = Inr d"
      "pdf_ok (ids @ [n + 1]) d" "pdf_frame c d" "pdf_obj d = pdf_obj c" by blast
  show ?thesis using a bc d by (auto simp: pdf_onImageEnd_def intro: pdf_frame_trans)
qed

lemma pdf_onWriteLine_ok:
  assumes "pdf_ok ids e"
  shows "\<exists>e'. pdf_onWriteLine p e = Inr e' \<and> pdf_ok ids e' \<and> pdf_frame e e' \<and> pdf_obj e' = pdf_obj e"
  unfolding pdf_onWriteLine_def using pdf_put_ok[OF assms] by (cases "0 < pdf_lineBuffer e") (simp, blast)+

lemma pdf_onDocumentBegin_ok:
  assumes "ie_dest e = Some os" "os_reliable os" "ie_dpi e \<noteq> 0"
  shows "\<exists>e'. pdf_onDocumentBegin now e = Inr e' \<and> pdf_ok [] e' \<and> base e' = base e \<and> pdf_obj e' = Some 1"
  using assms
  by (auto simp: pdf_onDocumentBegin_def Let_def pdf_ok_def base_def has_dest_def os_tellp_def)

subsection \<open>The base class contract\<close>

lemma pdf_put_base: "pdf_put s e = Inr e' \<Longrightarrow> base e' = base e"
  by (auto simp: pdf_put_def base_def has_dest_def split: option.splits)

lemma defobj_base: "defobj i e = Inr e' \<Longrightarrow> base e' = base e"
  by (auto simp: defobj_def base_def has_dest_def split: option.splits)

lemma next_obj_base: "next_obj e = Inr (e', n) \<Longrightarrow> base e' = base e"
  by (auto simp: next_obj_def base_def has_dest_def split: option.splits)

lemmas pdf_bases = pdf_put_base defobj_base next_obj_base

lemma pdf_onDocumentEnd_base: "pdf_onDocumentEnd uuid e = Inr e' \<Longrightarrow> base e' = base e"
proof -
  have x: "base (x\<lparr>pdf_startxref := sx, pdf_objects := obs\<rparr>) = base x" for x :: pdf_encoder and sx obs
    by (simp add: base_def has_dest_def)
  assume "pdf_onDocumentEnd uuid e = Inr e'"
  then show ?thesis
    by (auto simp: pdf_onDocumentEnd_def Let_def bind_result_Inr_iff x
        dest!: pdf_bases split: option.splits prod.splits)
qed

interpretation pdf: encoder_class "pdf_hooks now uuid"
proof unfold_locales
  fix e e' p
  show "onDocumentBegin (pdf_hooks now uuid) e = Inr e' \<Longrightarrow> base e' = base e"
    by (auto simp: pdf_hooks_def pdf_onDocumentBegin_def base_def has_dest_def Let_def
        split: option.splits if_splits)
  show "onImageBegin (pdf_hooks now uuid) e = Inr e' \<Longrightarrow> base e' = base e"
    by (auto simp: pdf_hooks_def pdf_onImageBegin_def bind_result_Inr_iff dest!: pdf_bases split: prod.splits)
  show "onImageEnd (pdf_hooks now uuid) e = Inr e' \<Longrightarrow> base e' = base e"
    by (auto simp: pdf_hooks_def pdf_onImageEnd_def bind_result_Inr_iff dest!: pdf_bases split: prod.splits)
  show "onWriteLine (pdf_hooks now uuid) p e = Inr e' \<Longrightarrow> base e' = base e"
    by (auto simp: pdf_hooks_def pdf_onWriteLine_def dest!: pdf_bases split: if_splits)
  show "onDocumentEnd (pdf_hooks now uuid) e = Inr e' \<Longrightarrow> base e' = base e"
    by (simp add: pdf_hooks_def pdf_onDocumentEnd_base)
qed

subsection \<open>Writing lines\<close>

definition pdf_open :: "nat \<Rightarrow> nat \<Rightarrow> int" where
  "pdf_open h j = 1 + 3 * int (j div h) + (if j mod h = 0 then 0 else 2)"

definition pdf_run_inv :: "nat \<Rightarrow> nat \<Rightarrow> pdf_encoder \<Rightarrow> bool" where
  "pdf_run_inv h j e \<longleftrightarrow>
     ie_height e = int h \<and> ie_currentLine e = int (j mod h) \<and> ie_currentImage e = int (j div h) \<and>
     ie_dpi e \<noteq> 0 \<and> (\<exists>os. ie_dest e = Some os \<and> os_reliable os) \<and>
     (j > 0 \<longrightarrow> pdf_ok [2..pdf_open h j] e \<and> pdf_obj e = Some (pdf_open h j))"

lemma pdf_ok_advance [simp]:
  "pdf_ok ids (advance_line e) = pdf_ok ids e" "pdf_obj (advance_line e) = pdf_obj e"
  "pdf_objects (advance_line e) = pdf_objects e"
proof -
  have "pdf_data (advance_line e) = pdf_data e"
    by (cases "ie_dest e") (auto simp: pdf_data_def advance_line_def)
  then show "pdf_ok ids (advance_line e) = pdf_ok ids e" "pdf_obj (advance_line e) = pdf_obj e"
    "pdf_objects (advance_line e) = pdf_objects e"
    by (auto simp: pdf_ok_def advance_line_def)
qed

lemma upto_snoc2: "1 \<le> n \<Longrightarrow> [2..n] @ [n + 1] = [2..n + 1]" for n :: int
  by (simp add: upto_rec2)

lemma upto_snoc3: "1 \<le> n \<Longrightarrow> [2..n] @ [n + 1, n + 2] = [2..n + 2]" for n :: int
  using upto_snoc2[of n] upto_snoc2[of "n + 1"] by (simp add: algebra_simps)
    (metis append.assoc append_Cons append_Nil)

text \<open>After the first two calls of \<open>writeLine\<close>, page and image object of the current page are open.\<close>

lemma pdf_page_open:
  assumes inv: "pdf_run_inv h j e" and h: "0 < h"
  shows "\<exists>e1 e2. (if ie_currentLine e = 0 \<and> ie_currentImage e = 0 then pdf_onDocumentBegin now e else Inr e) = Inr e1
    \<and> (if ie_currentLine e1 = 0 \<and> has_dest e1 then pdf_onImageBegin e1 else Inr e1) = Inr e2
    \<and> base e2 = base e \<and> pdf_ok [2..3 + 3 * int (j div h)] e2 \<and> pdf_obj e2 = Some (3 + 3 * int (j div h))"
proof -
  let ?q = "int (j div h)"
  have opened: "\<exists>e2. pdf_onImageBegin e1 = Inr e2 \<and> base e2 = base e1 \<and> pdf_ok [2..3 + 3 * ?q] e2
      \<and> pdf_obj e2 = Some (3 + 3 * ?q)"
    if "pdf_ok [2..1 + 3 * ?q] e1" "pdf_obj e1 = Some (1 + 3 * ?q)" for e1
  proof -
    have "[2..1 + 3 * ?q] @ [1 + 3 * ?q + 1, 1 + 3 * ?q + 2] = [2..3 + 3 * ?q]"
      using upto_snoc3[of "1 + 3 * ?q"] by (simp add: algebra_simps)
    with pdf_onImageBegin_ok[OF that] show ?thesis
      by (auto simp: pdf_frame_def algebra_simps)
  qed
  from inv obtain os where os: "ie_dest e = Some os" "os_reliable os" "ie_dpi e \<noteq> 0"
    by (auto simp: pdf_run_inv_def)
  show ?thesis
  proof (cases "j = 0")
    case True
    from pdf_onDocumentBegin_ok[OF os, of now] obtain e1 where e1: "pdf_onDocumentBegin now e = Inr e1"
        "pdf_ok [] e1" "base e1 = base e" "pdf_obj e1 = Some 1" by blast
    moreover have "ie_currentLine e = 0" "ie_currentImage e = 0"
      using inv True by (simp_all add: pdf_run_inv_def)
    moreover have "ie_currentLine e1 = 0" "has_dest e1"
      using e1(3) os \<open>ie_currentLine e = 0\<close> by (auto simp: base_def has_dest_def)
    ultimately show ?thesis using opened[of e1] True by auto
  next
    case j: False
    then have n: "pdf_ok [2..pdf_open h j] e" "pdf_obj e = Some (pdf_open h j)"
      using inv by (auto simp: pdf_run_inv_def)
    have d: "has_dest e" using os by (simp add: has_dest_def)
    show ?thesis
    proof (cases "j mod h = 0")
      case True
      with j have "j div h \<noteq> 0" by (metis div_mult_mod_eq mult_0 add_0)
      then have "ie_currentImage e \<noteq> 0" "ie_currentLine e = 0"
        using inv True by (simp_all add: pdf_run_inv_def)
      with n True d opened[of e] show ?thesis by (auto simp: pdf_open_def)
    next
      case False
      then have "ie_currentLine e \<noteq> 0" using inv by (simp add: pdf_run_inv_def)
      with n False show ?thesis by (auto simp: pdf_open_def algebra_simps)
    qed
  qed
qed

text \<open>After a line the encoder moves on, and after the last line of a page the page is closed.\<close>

lemma pdf_line_done:
  assumes "pdf_ok [2..3 + 3 * int (j div h)] e" "pdf_obj e = Some (3 + 3 * int (j div h))" "has_dest e"
    and cnt: "ie_height e = int h" "ie_currentLine e = int (j mod h)" "ie_currentImage e = int (j div h)" "ie_dpi e \<noteq> 0"
  shows "\<exists>e'. (if ie_currentLine (advance_line e) = 0 then pdf_onImageEnd (advance_line e) else Inr (advance_line e)) = Inr e' \<and>
    pdf_run_inv h (Suc j) e'"
proof -
  let ?q = "int (j div h)" and ?n = "3 + 3 * int (j div h)" and ?e = "advance_line e"
  have d: "has_dest ?e" using assms(3) by (simp add: has_dest_def advance_line_def)
  show ?thesis
  proof (cases "Suc (j mod h) = h")
    case True
    then have j: "Suc j mod h = 0" "Suc j div h = Suc (j div h)" by (simp_all add: mod_Suc div_Suc)
    have a: "?e = e\<lparr>ie_currentLine := 0, ie_currentImage := ?q + 1\<rparr>"
      using True cnt by (auto simp: advance_line_def)
    from pdf_onImageEnd_ok[of "[2..?n]" ?e ?n] assms(1,2) obtain e5 where e5: "pdf_onImageEnd ?e = Inr e5"
        "pdf_ok ([2..?n] @ [?n + 1]) e5" "pdf_frame ?e e5" "pdf_obj e5 = Some (?n + 1)" by auto
    have "pdf_open h (Suc j) = ?n + 1" using j by (simp add: pdf_open_def)
    moreover have "[2..?n] @ [?n + 1] = [2..?n + 1]" by (rule upto_snoc2) simp
    moreover have "base e5 = base ?e" using e5(3) by (simp add: pdf_frame_def)
    ultimately have "pdf_run_inv h (Suc j) e5"
      using e5(2,4) a j cnt d by (auto simp: pdf_run_inv_def base_def has_dest_def pdf_ok_def)
    with e5(1) a show ?thesis by auto
  next
    case False
    then have j: "Suc j mod h = Suc (j mod h)" "Suc j div h = j div h" by (simp_all add: mod_Suc div_Suc)
    have a: "?e = e\<lparr>ie_currentLine := int (j mod h) + 1\<rparr>"
      using False cnt by (auto simp: advance_line_def)
    have "pdf_open h (Suc j) = ?n" using j by (simp add: pdf_open_def)
    moreover have ok: "pdf_ok [2..?n] ?e" "pdf_obj ?e = Some ?n" using assms(1,2) by simp_all
    moreover have "\<exists>os. ie_dest ?e = Some os \<and> os_reliable os" using ok(1) by (auto simp: pdf_ok_def)
    moreover have "ie_height ?e = int h" "ie_currentLine ?e = int (Suc j mod h)"
        "ie_currentImage ?e = int (Suc j div h)" "ie_dpi ?e \<noteq> 0"
      using a cnt j by simp_all
    ultimately have "pdf_run_inv h (Suc j) ?e" by (simp only: pdf_run_inv_def) simp
    with a show ?thesis by auto
  qed
qed

lemma pdf_writeLine_ok:
  assumes inv: "pdf_run_inv h j e" and h: "0 < h"
  shows "\<exists>e'. writeLine (pdf_hooks now uuid) p e = Inr e' \<and> pdf_run_inv h (Suc j) e'"
proof -
  let ?n = "3 + 3 * int (j div h)"
  from pdf_page_open[OF assms, of now] obtain e1 e2 where
    e1: "(if ie_currentLine e = 0 \<and> ie_currentImage e = 0 then pdf_onDocumentBegin now e else Inr e) = Inr e1"
    and e2: "(if ie_currentLine e1 = 0 \<and> has_dest e1 then pdf_onImageBegin e1 else Inr e1) = Inr e2"
      "base e2 = base e" "pdf_ok [2..?n] e2" "pdf_obj e2 = Some ?n" by blast
  from pdf_onWriteLine_ok[OF e2(3), of p] obtain e3 where e3: "pdf_onWriteLine p e2 = Inr e3"
      "pdf_ok [2..?n] e3" "pdf_frame e2 e3" "pdf_obj e3 = Some ?n" using e2(4) by auto
  have b3: "base e3 = base e" using e2(2) e3(3) by (simp add: pdf_frame_def)
  have d: "has_dest e2" "has_dest e3" "has_dest (advance_line e3)"
    using inv e2(2) b3 by (auto simp: pdf_run_inv_def base_def has_dest_def advance_line_def)
  have "writeLine (pdf_hooks now uuid) p e =
      (if ie_currentLine (advance_line e3) = 0 then pdf_onImageEnd (advance_line e3) else Inr (advance_line e3))"
    using writeLine_eq[of e "pdf_hooks now uuid" e1 e2 p e3, unfolded pdf_hooks_simps, OF e1 e2(1)] e3(1) d
    by simp
  moreover have "ie_height e3 = int h" "ie_currentLine e3 = int (j mod h)" "ie_currentImage e3 = int (j div h)" "ie_dpi e3 \<noteq> 0"
    using inv b3 by (simp_all add: pdf_run_inv_def base_def)
  ultimately show ?thesis using pdf_line_done[OF e3(2,4) d(2)] by simp
qed

lemma pdf_writeLines_ok:
  "pdf_run_inv h j e \<Longrightarrow> 0 < h \<Longrightarrow>
     \<exists>e'. writeLines (pdf_hooks now uuid) ps e = Inr e' \<and> pdf_run_inv h (j + length ps) e'"
proof (induction ps arbitrary: j e)
  case (Cons p ps)
  from pdf_writeLine_ok[OF Cons.prems, of now uuid p] obtain e1 where
    e1: "writeLine (pdf_hooks now uuid) p e = Inr e1" "pdf_run_inv h (Suc j) e1" by blast
  from Cons.IH[OF e1(2) Cons.prems(2)] e1(1) show ?case by simp
qed simp

subsection \<open>The end of the document\<close>

lemma kids_step: "kids i (i + 3 * int k - 1) = map (\<lambda>j. i + 3 * int j) [0..<k]"
proof (induction k arbitrary: i)
  case 0
  then show ?case by (simp add: kids.simps)
next
  case (Suc k)
  have "kids i (i + 3 * int (Suc k) - 1) = i # kids (i + 3) (i + 3 + 3 * int k - 1)"
    by (subst kids.simps) (simp add: algebra_simps)
  also have "\<dots> = i # map (\<lambda>j. i + 3 + 3 * int j) [0..<k]" by (simp only: Suc.IH)
  also have "\<dots> = map (\<lambda>j. i + 3 * int j) [0..<Suc k]"
    unfolding upt_conv_Cons[OF zero_less_Suc] by (simp add: map_Suc_upt[symmetric] algebra_simps del: upt_Suc)
  finally show ?case .
qed

lemma kids_pages: "kids 2 (1 + 3 * int k) = map (\<lambda>j. 2 + 3 * int j) [0..<k]"
  using kids_step[of 2 k] by (simp add: algebra_simps)

lemma sort_ids:
  assumes "map fst obs = [2..n] @ [1, n + 1, n + 2]" "1 \<le> n"
  shows "map fst (sort_key fst obs) = [1..n + 2]"
proof (rule sorted_distinct_set_unique)
  have "mset (map fst (sort_key fst obs)) = mset ([2..n] @ [1, n + 1, n + 2])"
    using assms(1) by (metis mset_map mset_sort)
  moreover have "distinct ([2..n] @ [1, n + 1, n + 2])" using assms(2) by auto
  ultimately show "distinct (map fst (sort_key fst obs))" by (metis mset_eq_imp_distinct_iff)
  have "set (map fst (sort_key fst obs)) = set (map fst obs)" by simp
  then show "set (map fst (sort_key fst obs)) = set [1..n + 2]" using assms by auto
qed simp_all

lemma pdf_onDocumentEnd_ok:
  assumes "pdf_ok [2..n] e" "pdf_obj e = Some n" "1 \<le> n"
  shows "\<exists>e'. pdf_onDocumentEnd uuid e = Inr e' \<and> pdf_ok [1..n + 2] e' \<and> pdf_frame e e' \<and>
    pdf_obj e' = Some (n + 2) \<and> 0 \<le> pdf_startxref e' \<and>
    prefix (xref_text (pdf_objects e')) (drop (nat (pdf_startxref e')) (pdf_data e'))"
proof -
  from defobj_ok[OF assms(1), of 1] assms(2) obtain a where a: "defobj 1 e = Inr a"
      "pdf_ok ([2..n] @ [1]) a" "pdf_frame e a" "pdf_obj a = Some n" by auto
  let ?p = "pages_text (ie_currentImage a) n"
  from pdf_put_ok[OF a(2), of ?p] a(4) obtain b where b: "pdf_put ?p a = Inr b"
      "pdf_ok ([2..n] @ [1]) b" "pdf_frame a b" "pdf_obj b = Some n" by auto
  from numbered_obj_ok[OF b(2,4)] obtain c d where c: "next_obj b = Inr (c, n + 1)"
      "defobj (n + 1) c = Inr d" "pdf_ok ([2..n] @ [1, n + 1]) d" "pdf_frame b d" "pdf_obj d = Some (n + 1)"
    by auto
  from pdf_put_ok[OF c(3), of catalog_text] c(5) obtain g where g: "pdf_put catalog_text d = Inr g"
      "pdf_ok ([2..n] @ [1, n + 1]) g" "pdf_frame d g" "pdf_obj g = Some (n + 1)" by auto
  from numbered_obj_ok[OF g(2,4)] obtain i j where i: "next_obj g = Inr (i, n + 2)"
      "defobj (n + 2) i = Inr j" "pdf_ok ([2..n] @ [1, n + 1, n + 2]) j" "pdf_frame g j" "pdf_obj j = Some (n + 2)"
    by (auto simp: algebra_simps)
  from pdf_put_ok[OF i(3), of "info_text j"] i(5) obtain k where k: "pdf_put (info_text j) j = Inr k"
      "pdf_ok ([2..n] @ [1, n + 1, n + 2]) k" "pdf_frame j k" "pdf_obj k = Some (n + 2)" by auto
  from k(2) obtain os where os: "ie_dest k = Some os" "os_reliable os" "0 \<le> pdf_begin k"
      "nat (pdf_begin k) \<le> length (os_data os)" by (auto simp: pdf_ok_def)
  let ?sx = "os_tellp os - pdf_begin k" and ?objs = "sort_key fst (pdf_objects k)"
  let ?k = "k\<lparr>pdf_startxref := ?sx, pdf_objects := ?objs\<rparr>"
  let ?x = "xref_text ?objs @ trailer_text (length ?objs) (n + 2) (strip_hyphens (uuid (pdf_infoString e))) ?sx"
  have ids: "map fst ?objs = [1..n + 2]"
    using k(2) assms(3) by (intro sort_ids) (simp_all add: pdf_ok_def)
  have "pdf_ok [1..n + 2] ?k" using k(2) ids by (auto simp: pdf_ok_def)
  from pdf_put_ok[OF this, of ?x] obtain l where l: "pdf_put ?x ?k = Inr l" "pdf_ok [1..n + 2] l"
      "pdf_frame ?k l" "pdf_obj l = pdf_obj ?k" "pdf_objects l = ?objs" "pdf_startxref l = ?sx"
      "pdf_data l = pdf_data ?k @ ?x" by auto
  have kk: "pdf_frame k ?k" by (simp add: pdf_frame_def base_def has_dest_def)
  have "pdf_frame e k" using a(3) b(3) c(4) g(3) i(4) k(3) by (blast intro: pdf_frame_trans)
  then have "pdf_frame e l" using kk l(3) by (blast intro: pdf_frame_trans)
  moreover have sx: "0 \<le> ?sx" "nat ?sx = length (pdf_data k)"
    using os by (auto simp: pdf_data_def os_tellp_def)
  moreover have "prefix (xref_text ?objs) (drop (nat ?sx) (pdf_data l))" using l(7) sx by simp
  moreover have "pdf_onDocumentEnd uuid e = Inr l"
    using a(1,4) b(1) c(1,2) g(1) i(1,2) k(1) os(1) l(1)
    by (simp add: pdf_onDocumentEnd_def Let_def)
  ultimately show ?thesis using l k(4) by auto
qed

subsection \<open>Properties\<close>



text \<open>Ending a PDF document to which no line was written reads the object counter, which only the
  first line initialises: the result is an indeterminate value, not a document.\<close>

theorem pdf_end_without_lines:
  assumes "ie_dest e = Some os" "pdf_obj e = None"
  shows "endDocument (pdf_hooks now uuid) e = Inl Uninitialized"
  using assms by (simp add: endDocument_def has_dest_def pdf_onDocumentEnd_def defobj_def Let_def)

theorem pdf_end_without_lines_witness:
  "endDocument (pdf_hooks [] (\<lambda>s. s))
     (pdf_init\<lparr>ie_dest := Some \<lparr>os_data = [], os_fail = False, os_flushes = [], os_cuts = []\<rparr>\<rparr>) = Inl Uninitialized"
  by (rule pdf_end_without_lines) (simp_all add: pdf_init_def encoder.extend_def)

text \<open>Document information survives: the literal string written for any value is read back, up to its
  closing parenthesis, as exactly that value.\<close>

theorem pdf_string_encode_roundtrip:
  "pdf_string_read (pdfStringEncode s @ CHR '')'' # r) = Some (s, r)"
  by (rule pdf_string_roundtrip)

end
