(* ===== verification/RasterEncoder.thy ===== *)
theory RasterEncoder
  imports PdfEncoder
begin

text \<open>
  \<open>src/imageformats/pngencoder.cpp\<close> and \<open>src/imageformats/jpegencoder.cpp\<close> on a little-endian machine.

  libpng and libjpeg are not part of the repository: a library is an argument, a record of the three
  calls the encoders make for an image (start, one row, finish), with the bytes each of them writes to the
  destination. A library error is a \<open>std::runtime_error\<close>, which is how both encoders report it.
\<close>

record 'l raster_lib =
  rl_start :: "int list \<Rightarrow> ('l \<times> string) result"
  rl_row :: "'l \<Rightarrow> string \<Rightarrow> ('l \<times> string \<times> int) result"   \<comment> \<open>bytes and number of rows written\<close>
  rl_finish :: "'l \<Rightarrow> string result"

record 'l raster_encoder = encoder +
  re_lib :: "'l option"
  re_lineBuffer :: int
  re_quality :: int
  re_gamma :: dbl

definition raster_init :: "'l raster_encoder" where
  "raster_init = encoder.extend encoder_init
     \<lparr>re_lib = None, re_lineBuffer = 0, re_quality = 90, re_gamma = Fin 1\<rparr>"

text \<open>Bytes from the library go to the stream remembered at the start of the image.\<close>

definition re_put :: "string \<Rightarrow> 'l raster_encoder \<Rightarrow> 'l raster_encoder" where
  "re_put s e = e\<lparr>ie_dest := map_option (os_put s) (ie_dest e)\<rparr>"

subsection \<open>PNG\<close>

definition png_colorType :: "colorspace \<Rightarrow> int" where
  "png_colorType cs = (case cs of Unknown \<Rightarrow> 0 | Grayscale \<Rightarrow> 0 | RGB \<Rightarrow> 2)"

definition png_onImageBegin :: "'l raster_lib \<Rightarrow> 'l raster_encoder \<Rightarrow> 'l raster_encoder result" where
  "png_onImageBegin lib e =
     (if ie_currentImage e > 0
      then Inl (RuntimeError ''PngEncoder: cannot encode more than one image per file'')
      else if ie_orientation e \<noteq> 0 then Inl (RuntimeError ''PngEncoder: cannot rotate image'')
      else
        let buf = (if ie_bitDepth e = 16 then ie_width e * ie_components e else 0);
            px_per_m = cdiv (ie_dpi e * 10000) 254
        in bind_result (rl_start lib [ie_width e, ie_height e, ie_bitDepth e,
                                      png_colorType (ie_colorspace e), px_per_m])
             (\<lambda>(l, s). Inr (re_put s (e\<lparr>re_lib := Some l, re_lineBuffer := buf\<rparr>))))"

definition png_onImageEnd :: "'l raster_lib \<Rightarrow> 'l raster_encoder \<Rightarrow> 'l raster_encoder result" where
  "png_onImageEnd lib e = (case re_lib e of None \<Rightarrow> Inl NullDeref
     | Some l \<Rightarrow> bind_result (rl_finish lib l) (\<lambda>s. Inr (re_put s (e\<lparr>re_lib := None\<rparr>))))"

definition png_onWriteLine :: "'l raster_lib \<Rightarrow> string \<Rightarrow> 'l raster_encoder \<Rightarrow> 'l raster_encoder result" where
  "png_onWriteLine lib p e = (case re_lib e of None \<Rightarrow> Inl NullDeref
     | Some l \<Rightarrow>
         let row = (if re_lineBuffer e = 0 then take (nat (ie_bytesPerLine e)) p
                    else swap16 (take (nat (2 * re_lineBuffer e)) p))
         in bind_result (rl_row lib l row) (\<lambda>(l', s, n). Inr (re_put s (e\<lparr>re_lib := Some l'\<rparr>))))"

definition png_hooks :: "'l raster_lib \<Rightarrow> 'l raster_encoder hooks" where
  "png_hooks lib =
     \<lparr>onDocumentBegin = Inr, onDocumentEnd = Inr, onImageBegin = png_onImageBegin lib,
      onImageEnd = png_onImageEnd lib, onWriteLine = png_onWriteLine lib\<rparr>"

subsection \<open>JPEG\<close>

definition setGamma :: "dbl \<Rightarrow> 'l raster_encoder \<Rightarrow> 'l raster_encoder result" where
  "setGamma d e = bind_result (onParamChange e) (\<lambda>e. Inr (e\<lparr>re_gamma := d\<rparr>))"

definition setQualityPercent :: "int \<Rightarrow> 'l raster_encoder \<Rightarrow> 'l raster_encoder result" where
  "setQualityPercent i e = bind_result (onParamChange e) (\<lambda>e.
     if i < 0 \<or> i > 100 then Inl (RuntimeError ''JpegEncoder: qualityPercent outside 0..100 range'')
     else Inr (e\<lparr>re_quality := i\<rparr>))"

definition jpeg_colorspace :: "colorspace \<Rightarrow> int" where
  "jpeg_colorspace cs = (case cs of Grayscale \<Rightarrow> 1 | RGB \<Rightarrow> 2 | Unknown \<Rightarrow> 0)"

definition jpeg_onImageBegin :: "'l raster_lib \<Rightarrow> 'l raster_encoder \<Rightarrow> 'l raster_encoder result" where
  "jpeg_onImageBegin lib e =
     (if ie_bitDepth e \<noteq> 8 \<and> ie_bitDepth e \<noteq> 16 then Inl (RuntimeError ''JpegEncoder: bit depth unsupported'')
      else if ie_currentImage e > 0
      then Inl (RuntimeError ''JpegEncoder: cannot encode more than one image per file'')
      else if ie_orientation e \<noteq> 0 then Inl (RuntimeError ''JpegEncoder: cannot rotate image'')
      else bind_result (rl_start lib [ie_width e, ie_height e, ie_components e,
                                      jpeg_colorspace (ie_colorspace e), re_quality e, ie_dpi e])
             (\<lambda>(l, s). Inr (re_put s (e\<lparr>re_lib := Some l\<rparr>))))"

definition jpeg_onImageEnd :: "'l raster_lib \<Rightarrow> 'l raster_encoder \<Rightarrow> 'l raster_encoder result" where
  "jpeg_onImageEnd lib e = (case re_lib e of None \<Rightarrow> Inl NullDeref
     | Some l \<Rightarrow> bind_result (rl_finish lib l) (\<lambda>s. Inr (re_put s (e\<lparr>re_lib := None\<rparr>))))"

text \<open>The second byte of every little-endian 16 bit sample is its more significant one.\<close>

fun high_bytes :: "string \<Rightarrow> string" where
  "high_bytes (a # b # r) = b # high_bytes r"
| "high_bytes r = []"

definition jpeg_line :: "'l raster_encoder \<Rightarrow> string \<Rightarrow> string" where
  "jpeg_line e p =
     (let n = nat (ie_width e * ie_components e) in
      if ie_bitDepth e = 16 then high_bytes (take (2 * n) p)
      else if ie_bitDepth e = 8 then take n p
      else replicate n (CHR 0x00))"

definition jpeg_onWriteLine :: "'l raster_lib \<Rightarrow> string \<Rightarrow> 'l raster_encoder \<Rightarrow> 'l raster_encoder result" where
  "jpeg_onWriteLine lib p e = (case re_lib e of None \<Rightarrow> Inl NullDeref
     | Some l \<Rightarrow>
         bind_result (rl_row lib l (jpeg_line e p)) (\<lambda>(l', s, n).
           if n \<noteq> 1 then Inl (RuntimeError ''JpegEncoder: could not write scan line'')
           else Inr (re_put s (e\<lparr>re_lib := Some l'\<rparr>))))"

definition jpeg_hooks :: "'l raster_lib \<Rightarrow> 'l raster_encoder hooks" where
  "jpeg_hooks lib =
     \<lparr>onDocumentBegin = Inr, onDocumentEnd = Inr, onImageBegin = jpeg_onImageBegin lib,
      onImageEnd = jpeg_onImageEnd lib, onWriteLine = jpeg_onWriteLine lib\<rparr>"

subsection \<open>The base class contract\<close>

lemma re_put_base [simp]: "base (re_put s e) = base e"
  by (simp add: re_put_def base_def has_dest_def)

lemma re_update_base [simp]:
  "base (e\<lparr>re_lib := x\<rparr>) = base e" "base (e\<lparr>re_lineBuffer := n\<rparr>) = base e"
  for e :: "'l raster_encoder"
  by (simp_all add: base_def has_dest_def)

lemmas raster_hook_defs = png_hooks_def png_onImageBegin_def png_onImageEnd_def png_onWriteLine_def
  jpeg_hooks_def jpeg_onImageBegin_def jpeg_onImageEnd_def jpeg_onWriteLine_def

interpretation png: encoder_class "png_hooks lib"
  by unfold_locales
    (auto simp: raster_hook_defs Let_def bind_result_Inr_iff split: if_splits option.splits prod.splits)

interpretation jpeg: encoder_class "jpeg_hooks lib"
  by unfold_locales
    (auto simp: raster_hook_defs Let_def bind_result_Inr_iff split: if_splits option.splits prod.splits)

lemma swap16_involutive: "swap16 (swap16 s) = s"
  by (induction s rule: swap16.induct) auto

lemma length_swap16 [simp]: "length (swap16 s) = length s"
  by (induction s rule: swap16.induct) auto

lemma length_high_bytes: "length (high_bytes s) = length s div 2"
  by (induction s rule: high_bytes.induct) auto

lemma high_bytes_swap16: "even (length s) \<Longrightarrow> high_bytes (swap16 s) = map (\<lambda>i. s ! (2 * i)) [0..<length s div 2]"
proof (induction s rule: swap16.induct)
  case (1 a b r)
  have "map (\<lambda>i. (a # b # r) ! (2 * i)) [0..<Suc (length r div 2)] =
      a # map (\<lambda>i. (a # b # r) ! (2 * Suc i)) [0..<length r div 2]"
    unfolding upt_conv_Cons[OF zero_less_Suc] by (simp add: map_Suc_upt[symmetric] del: upt_Suc)
  with 1 show ?case by simp
qed auto

subsection \<open>Properties\<close>

text \<open>PNG and JPEG files hold one image. Once an encoder has finished an image, starting another one
  throws, whatever the library does, so a multi-page scan cannot be sent in these formats.\<close>

theorem raster_single_image:
  assumes "ie_currentLine e = 0" "ie_currentImage e > 0" "has_dest e"
  shows "writeLine (png_hooks lib) p e =
      Inl (RuntimeError ''PngEncoder: cannot encode more than one image per file'')
    \<and> (\<exists>msg. writeLine (jpeg_hooks lib) p e = Inl (RuntimeError msg))"
  using assms by (auto simp: writeLine_def raster_hook_defs)

text \<open>A library that writes nothing, and an encoder that has finished its first image.\<close>

definition null_raster_lib :: "unit raster_lib" where
  "null_raster_lib = \<lparr>rl_start = (\<lambda>_. Inr ((), [])), rl_row = (\<lambda>_ _. Inr ((), [], 1)), rl_finish = (\<lambda>_. Inr [])\<rparr>"

definition one_image_done :: "unit raster_encoder" where
  "one_image_done = raster_init\<lparr>ie_height := 1, ie_bitDepth := 8, ie_currentImage := 1,
     ie_dest := Some \<lparr>os_data = [], os_fail = False, os_flushes = [], os_cuts = []\<rparr>\<rparr>"

theorem raster_single_image_witness:
  "writeLine (png_hooks null_raster_lib) ''x'' one_image_done =
     Inl (RuntimeError ''PngEncoder: cannot encode more than one image per file'')"
  using raster_single_image[of one_image_done null_raster_lib "''x''"]
  by (simp add: one_image_done_def raster_init_def encoder_init_def encoder.defs has_dest_def)

end
