(* ===== verification/ScanJob.thy ===== *)
theory ScanJob
  imports ScanSettings RasterEncoder
begin

text \<open>
  The second half of \<open>src/server/scanjob.cpp\<close>: the state machine of a job and the transfer of a
  document: \<open>beginTransfer\<close> opens and starts a SANE session, \<open>finishTransfer\<close> reads it line by line into
  an image encoder that writes to the client, \<open>updateStatus\<close> decides what a SANE status means for the
  job, \<open>closeSession\<close> gives the device back. \<open>cancel\<close> may come from another thread at any time.

  The public functions run the private ones on the worker thread of the job and wait, so they are the
  same functions here. Loops that need not end are partial functions: \<open>None\<close> means that they do not
  return. The output stream passed to \<open>finishTransfer\<close> is handed to the encoder and taken back.
\<close>

subsection \<open>The three encoders\<close>

datatype 'l any_encoder = E_Pdf pdf_encoder | E_Png "'l raster_encoder" | E_Jpeg "'l raster_encoder"

text \<open>What the encoders use beyond the sources: libpng, libjpeg, the time of day as text, and \<open>Uuid\<close>.\<close>

record 'l encoder_env =
  en_png :: "'l raster_lib"
  en_jpeg :: "'l raster_lib"
  en_now :: string
  en_uuid :: "string \<Rightarrow> string"

definition map_encoder ::
  "(pdf_encoder \<Rightarrow> pdf_encoder result) \<Rightarrow> ('l raster_encoder \<Rightarrow> 'l raster_encoder result)
    \<Rightarrow> ('l raster_encoder \<Rightarrow> 'l raster_encoder result) \<Rightarrow> 'l any_encoder \<Rightarrow> 'l any_encoder result" where
  "map_encoder f g h e = (case e of
       E_Pdf x \<Rightarrow> bind_result (f x) (\<lambda>y. Inr (E_Pdf y))
     | E_Png x \<Rightarrow> bind_result (g x) (\<lambda>y. Inr (E_Png y))
     | E_Jpeg x \<Rightarrow> bind_result (h x) (\<lambda>y. Inr (E_Jpeg y)))"

definition any_configure ::
  "int \<Rightarrow> colorspace \<Rightarrow> sane_parameters \<Rightarrow> ostream \<Rightarrow> 'l any_encoder \<Rightarrow> 'l any_encoder result" where
  "any_configure dpi cs p os =
     (let w = sp_pixels_per_line p; h = sp_lines p; d = sp_depth p
      in map_encoder (configure dpi cs w h d os) (configure dpi cs w h d os) (configure dpi cs w h d os))"

definition any_writeLine :: "'l encoder_env \<Rightarrow> string \<Rightarrow> 'l any_encoder \<Rightarrow> 'l any_encoder result" where
  "any_writeLine en p =
     map_encoder (writeLine (pdf_hooks (en_now en) (en_uuid en)) p)
       (writeLine (png_hooks (en_png en)) p) (writeLine (jpeg_hooks (en_jpeg en)) p)"

definition any_endDocument :: "'l encoder_env \<Rightarrow> 'l any_encoder \<Rightarrow> 'l any_encoder result" where
  "any_endDocument en =
     map_encoder (endDocument (pdf_hooks (en_now en) (en_uuid en)))
       (endDocument (png_hooks (en_png en))) (endDocument (jpeg_hooks (en_jpeg en)))"

definition any_base :: "'l any_encoder \<Rightarrow> encoder" where
  "any_base e = (case e of E_Pdf x \<Rightarrow> encoder.truncate x | E_Png x \<Rightarrow> encoder.truncate x
     | E_Jpeg x \<Rightarrow> encoder.truncate x)"

definition any_dest :: "'l any_encoder \<Rightarrow> ostream option" where
  "any_dest e = ie_dest (any_base e)"

definition any_flush :: "'l any_encoder \<Rightarrow> 'l any_encoder" where
  "any_flush e = (case e of
       E_Pdf x \<Rightarrow> E_Pdf (x\<lparr>ie_dest := map_option os_flush (ie_dest x)\<rparr>)
     | E_Png x \<Rightarrow> E_Png (x\<lparr>ie_dest := map_option os_flush (ie_dest x)\<rparr>)
     | E_Jpeg x \<Rightarrow> E_Jpeg (x\<lparr>ie_dest := map_option os_flush (ie_dest x)\<rparr>))"

definition stream_ok :: "'l any_encoder \<Rightarrow> bool" where
  "stream_ok e = (case any_dest e of None \<Rightarrow> False | Some os \<Rightarrow> \<not> os_fail os)"

subsection \<open>Sessions and the state machine\<close>

definition isProcessing :: "scan_job \<Rightarrow> bool" where
  "isProcessing j = (sj_state j = processing)"

definition set_state :: "job_state \<Rightarrow> string \<Rightarrow> scan_job \<Rightarrow> scan_job" where
  "set_state s r j = j\<lparr>sj_state := s, sj_stateReason := r\<rparr>"

definition atomicTransition :: "job_state \<Rightarrow> job_state \<Rightarrow> scan_job \<Rightarrow> bool \<times> scan_job" where
  "atomicTransition from_s to_s j =
     (if sj_state j = from_s then (True, j\<lparr>sj_state := to_s\<rparr>) else (False, j))"

definition closeSession :: "'s sane_lib \<Rightarrow> scan_job \<Rightarrow> 's world \<Rightarrow> (scan_job \<times> 's world) result" where
  "closeSession lib j w = (case sj_session j of None \<Rightarrow> Inr (j, w)
     | Some se \<Rightarrow>
         bind_result (session_destroy lib se (session_cancel lib se w)) (\<lambda>w'.
           Inr (j\<lparr>sj_session := None\<rparr>, w')))"

definition close_if_aborted :: "'s sane_lib \<Rightarrow> scan_job \<Rightarrow> 's world \<Rightarrow> (scan_job \<times> 's world) result" where
  "close_if_aborted lib j w = (if sj_state j = aborted then closeSession lib j w else Inr (j, w))"

text \<open>All statuses but end-of-file, which for a concatenated document starts the next page.\<close>

definition status_step :: "'s sane_lib \<Rightarrow> sane_status \<Rightarrow> scan_job \<Rightarrow> 's world \<Rightarrow> (scan_job \<times> 's world) result" where
  "status_step lib st j w = (case st of
       GOOD \<Rightarrow> Inr (set_state processing PWG_JOB_SCANNING j, w)
     | INVAL \<Rightarrow> Inr (set_state aborted PWG_INVALID_SCAN_TICKET j, w)
     | DEVICE_BUSY \<Rightarrow> Inr (set_state aborted PWG_RESOURCES_ARE_NOT_READY j, w)
     | IO_ERROR \<Rightarrow> Inr (set_state aborted PWG_RESOURCES_ARE_NOT_READY j, w)
     | NO_MEM \<Rightarrow> Inr (set_state aborted PWG_RESOURCES_ARE_NOT_READY j, w)
     | ACCESS_DENIED \<Rightarrow> Inr (set_state aborted PWG_DOCUMENT_PERMISSION_ERROR j, w)
     | JAMMED \<Rightarrow> Inr ((set_state aborted PWG_RESOURCES_ARE_NOT_READY j)\<lparr>sj_adfStatus := st\<rparr>, w)
     | COVER_OPEN \<Rightarrow> Inr ((set_state aborted PWG_RESOURCES_ARE_NOT_READY j)\<lparr>sj_adfStatus := st\<rparr>, w)
     | CANCELLED \<Rightarrow> Inr (set_state aborted PWG_JOB_CANCELED_BY_USER j, w)
     | NO_DOCS \<Rightarrow>
         closeSession lib
           ((if sj_imagesCompleted j > 0 \<and> (sj_kind j = Some adfSingle \<or> sj_kind j = Some adfConcat)
             then set_state completed PWG_JOB_COMPLETED_SUCCESSFULLY j
             else set_state aborted PWG_RESOURCES_ARE_NOT_READY j)\<lparr>sj_adfStatus := st\<rparr>) w
     | _ \<Rightarrow> Inr (set_state aborted PWG_ERRORS_DETECTED j, w))"

partial_function (option) updateStatus ::
  "'s sane_lib \<Rightarrow> sane_status \<Rightarrow> scan_job \<Rightarrow> 's world \<Rightarrow> (scan_job \<times> 's world) result option" where
  [code]: "updateStatus lib st j0 w =
     (let j = j0\<lparr>sj_adfStatus := GOOD\<rparr>;
          after = (\<lambda>r. Some (bind_result r (\<lambda>(j1, w1). close_if_aborted lib j1 w1)))
      in if st \<noteq> EOF then after (status_step lib st j w)
         else case sj_kind j of None \<Rightarrow> Some (Inl Uninitialized)
              | Some single \<Rightarrow>
                  after (closeSession lib (if sj_imagesCompleted j > 0
                    then set_state completed PWG_JOB_COMPLETED_SUCCESSFULLY j
                    else set_state pending PWG_NONE j) w)
              | Some adfSingle \<Rightarrow> after (Inr (set_state pending PWG_NONE j, w))
              | Some adfConcat \<Rightarrow>
                  (case sj_session j of None \<Rightarrow> Some (Inl NullDeref)
                   | Some se \<Rightarrow>
                       (case session_start lib se w of Inl e \<Rightarrow> Some (Inl e)
                        | Inr (se', w1) \<Rightarrow>
                            Option.bind (updateStatus lib (se_status se') (j\<lparr>sj_session := Some se'\<rparr>) w1) after)))"

subsection \<open>Beginning a transfer\<close>

definition SANE_NAME_SCAN_SOURCE :: string where "SANE_NAME_SCAN_SOURCE = ''source''"
definition SANE_NAME_SCAN_MODE :: string where "SANE_NAME_SCAN_MODE = ''mode''"
definition SANE_NAME_BIT_DEPTH :: string where "SANE_NAME_BIT_DEPTH = ''depth''"
definition SANE_NAME_SCAN_RESOLUTION :: string where "SANE_NAME_SCAN_RESOLUTION = ''resolution''"
definition SANE_NAME_SCAN_X_RESOLUTION :: string where "SANE_NAME_SCAN_X_RESOLUTION = ''x-resolution''"
definition SANE_NAME_SCAN_Y_RESOLUTION :: string where "SANE_NAME_SCAN_Y_RESOLUTION = ''y-resolution''"
definition SANE_NAME_SCAN_TL_X :: string where "SANE_NAME_SCAN_TL_X = ''tl-x''"
definition SANE_NAME_SCAN_TL_Y :: string where "SANE_NAME_SCAN_TL_Y = ''tl-y''"
definition SANE_NAME_SCAN_BR_X :: string where "SANE_NAME_SCAN_BR_X = ''br-x''"
definition SANE_NAME_SCAN_BR_Y :: string where "SANE_NAME_SCAN_BR_Y = ''br-y''"

type_synonym 's opts = "option_set \<times> 's world"

text \<open>\<open>opt[name] = value\<close> for a string and for a number; the result is not looked at.\<close>

definition assign_string :: "'s sane_lib \<Rightarrow> string \<times> string \<Rightarrow> 's opts \<Rightarrow> 's opts result" where
  "assign_string lib nv st =
     bind_result (set_value_string lib (fst nv) 0 (snd nv) (fst st) (snd st)) (\<lambda>(ok, st'). Inr st')"

definition assign_double :: "'s sane_lib \<Rightarrow> string \<Rightarrow> dbl \<Rightarrow> 's opts \<Rightarrow> 's opts result" where
  "assign_double lib name v st =
     bind_result (set_value_double lib name 0 v (fst st) (snd st)) (\<lambda>(ok, st'). Inr st')"

fun assign_all :: "'s sane_lib \<Rightarrow> (string \<times> string) list \<Rightarrow> 's opts \<Rightarrow> 's opts result" where
  "assign_all lib [] st = Inr st"
| "assign_all lib (nv # nvs) st = bind_result (assign_string lib nv st) (assign_all lib nvs)"

text \<open>The resolution is set by one option, or else by one of two others.\<close>

definition set_resolution :: "'s sane_lib \<Rightarrow> dbl \<Rightarrow> 's opts \<Rightarrow> (bool \<times> 's opts) result" where
  "set_resolution lib res st =
     (let try = (\<lambda>name st. set_numeric_value lib (option_ref (fst st) name) 0 res (fst st) (snd st))
      in bind_result (try SANE_NAME_SCAN_RESOLUTION st) (\<lambda>(ok, st1).
         if ok then Inr (ok, st1)
         else bind_result (try SANE_NAME_SCAN_X_RESOLUTION st1) (\<lambda>(ok, st2).
              if ok then Inr (ok, st2) else try SANE_NAME_SCAN_Y_RESOLUTION st2)))"

text \<open>A coordinate of the scan area in the unit \<open>u\<close> of the option \<open>tl-x\<close>.\<close>

definition area_value :: "sane_unit \<Rightarrow> int \<Rightarrow> dbl \<Rightarrow> dbl" where
  "area_value u res_dpi v =
     (let v1 = (if u = U_MM then dmul v (ddiv (to_dbl (254 / 10)) (dbl_of_int res_dpi)) else v)
      in dfloor (dadd v1 (Fin (1 / 2))))"

definition set_options :: "'s sane_lib \<Rightarrow> scan_job \<Rightarrow> 's opts \<Rightarrow> (bool \<times> 's opts) result" where
  "set_options lib j st =
     bind_result (assign_all lib (of_sane_options (sj_deviceOptions j)) st) (\<lambda>st.
     bind_result (assign_string lib (SANE_NAME_SCAN_SOURCE, sj_scanSource j) st) (\<lambda>st.
     bind_result (assign_string lib (SANE_NAME_SCAN_MODE, sj_colorMode j) st) (\<lambda>st.
     bind_result (assign_double lib SANE_NAME_BIT_DEPTH (dbl_of_int (sj_bitDepth j)) st) (\<lambda>st.
     bind_result (set_resolution lib (dbl_of_int (sj_res_dpi j)) st) (\<lambda>(ok, st).
     let u = option_unit lib (option_ref (fst st) SANE_NAME_SCAN_TL_X) (snd st);
         ok2 = (ok \<and> (u = U_PIXEL \<or> u = U_MM));
         val = area_value u (sj_res_dpi j)
     in
     bind_result (assign_double lib SANE_NAME_SCAN_TL_X (val (sj_left_px j)) st) (\<lambda>st.
     bind_result (assign_double lib SANE_NAME_SCAN_TL_Y (val (sj_top_px j)) st) (\<lambda>st.
     bind_result (assign_double lib SANE_NAME_SCAN_BR_X (val (dadd (sj_left_px j) (sj_width_px j))) st) (\<lambda>st.
     bind_result (assign_double lib SANE_NAME_SCAN_BR_Y (val (dadd (sj_top_px j) (sj_height_px j))) st) (\<lambda>st.
     Inr (ok2, st))))))))))"

definition openSession ::
  "'s sane_lib \<Rightarrow> scanner_info \<Rightarrow> scan_job \<Rightarrow> 's world \<Rightarrow> (sane_status \<times> scan_job \<times> 's world) result" where
  "openSession lib sc j w =
     (if sj_session j \<noteq> None then Inl AssertFailure
      else bind_result (session_open lib (si_saneName sc) w) (\<lambda>(se, w1).
        if se_status se \<noteq> GOOD then Inr (se_status se, j\<lparr>sj_session := Some se\<rparr>, w1)
        else bind_result (set_options lib j (se_options se, w1)) (\<lambda>(ok, os, w2).
          Inr (if ok then GOOD else INVAL, j\<lparr>sj_session := Some (se\<lparr>se_options := os\<rparr>)\<rparr>, w2))))"

definition startSession :: "'s sane_lib \<Rightarrow> scan_job \<Rightarrow> 's world \<Rightarrow> (scan_job \<times> 's world) result option" where
  "startSession lib j w = (case sj_session j of None \<Rightarrow> Some (Inl NullDeref)
     | Some se \<Rightarrow>
         (case session_start lib se w of Inl e \<Rightarrow> Some (Inl e)
          | Inr (se', w') \<Rightarrow> updateStatus lib (se_status se') (j\<lparr>sj_session := Some se'\<rparr>) w'))"

definition beginTransfer ::
  "'s sane_lib \<Rightarrow> scanner_info \<Rightarrow> scan_job \<Rightarrow> 's world \<Rightarrow> (bool \<times> scan_job \<times> 's world) result option" where
  "beginTransfer lib sc j w =
     (case atomicTransition pending processing j of
        (False, _) \<Rightarrow> Some (Inr (False, j, w))
      | (True, j1) \<Rightarrow>
          (case (if sj_session j1 = None then openSession lib sc j1 w else Inr (GOOD, j1, w)) of
             Inl e \<Rightarrow> Some (Inl e)
           | Inr (_, j2, w2) \<Rightarrow>
               map_option (\<lambda>r. bind_result r (\<lambda>(j3, w3).
                 if isProcessing j3 then Inr (True, j3, w3)
                 else bind_result (closeSession lib j3 w3) (\<lambda>(j4, w4). Inr (False, j4, w4))))
               (startSession lib j2 w2)))"

definition job_cancel :: "'s sane_lib \<Rightarrow> scan_job \<Rightarrow> 's world \<Rightarrow> (scan_job \<times> 's world) result" where
  "job_cancel lib j w = closeSession lib (set_state canceled PWG_JOB_CANCELED_BY_USER j) w"

subsection \<open>Finishing a transfer\<close>

definition now :: "'s sane_lib \<Rightarrow> 's world \<Rightarrow> int" where
  "now lib w = sl_time lib (w_sane w)"

text \<open>Choosing the encoder; \<open>None\<close> for a document format that is not supported.\<close>

definition make_encoder :: "scanner_info \<Rightarrow> scan_job \<Rightarrow> 'l any_encoder option result" where
  "make_encoder sc j =
     (if sj_documentFormat j = MIME_TYPE_JPEG then
        bind_result (setGamma (Fin 1) raster_init) (\<lambda>e.
        bind_result (setQualityPercent 90 e) (\<lambda>e. Inr (Some (E_Jpeg e))))
      else if sj_documentFormat j = MIME_TYPE_PDF then
        Inr (Some (E_Pdf (pdf_init\<lparr>pdf_info :=
          dict_set (dict_set (pdf_info pdf_init) ''Creator'' (si_makeAndModel sc @ '' (SANE)''))
            ''Producer'' ''AirSane Server''\<rparr>)))
      else if sj_documentFormat j = MIME_TYPE_PNG then Inr (Some (E_Png raster_init))
      else Inr None)"

definition synthesizing :: "scan_job \<Rightarrow> bool \<Rightarrow> bool" where
  "synthesizing j color = (\<not> color \<and> of_synthesize_gray (sj_deviceOptions j))"

text \<open>Passing the parameters of the scan to the encoder, and comparing line lengths.\<close>

definition prepare_encoder ::
  "ostream \<Rightarrow> scan_job \<Rightarrow> 'l any_encoder \<Rightarrow> (scan_job \<times> 'l any_encoder) result" where
  "prepare_encoder os j e =
     (case (sj_colorScan j, sj_session j) of
        (None, _) \<Rightarrow> Inl Uninitialized
      | (_, None) \<Rightarrow> Inl NullDeref
      | (Some color, Some se) \<Rightarrow>
          let p = se_parameters se in
          bind_result (any_configure (sj_res_dpi j) (if color then RGB else Grayscale) p os e) (\<lambda>e'.
            Inr (if ie_bytesPerLine (any_base e') \<noteq>
                    (if synthesizing j color then cdiv (sp_bytes_per_line p) 3 else sp_bytes_per_line p)
                 then set_state aborted PWG_ERRORS_DETECTED j else j, e')))"

text \<open>One line, once it was read: conversion, encoding, and sending. The boolean tells that it was sent.\<close>

definition abort_transfer :: "'s sane_lib \<Rightarrow> scan_job \<Rightarrow> 's world \<Rightarrow> (scan_job \<times> 's world) result" where
  "abort_transfer lib j w = closeSession lib (set_state aborted PWG_ERRORS_DETECTED j) w"

definition convert_line :: "scan_job \<Rightarrow> string \<Rightarrow> string result" where
  "convert_line j buf = (case sj_colorScan j of None \<Rightarrow> Inl Uninitialized
     | Some color \<Rightarrow>
         if synthesizing j color then synthesizeGray j (applyGamma j buf) else Inr (applyGamma j buf))"

definition send_line ::
  "'s sane_lib \<Rightarrow> 'l encoder_env \<Rightarrow> string \<Rightarrow> 'l any_encoder \<Rightarrow> scan_job \<Rightarrow> 's world
    \<Rightarrow> ('l any_encoder \<times> scan_job \<times> 's world) result" where
  "send_line lib en line e j w = (case any_writeLine en line e of
       Inl (RuntimeError m) \<Rightarrow> bind_result (abort_transfer lib j w) (\<lambda>(j', w'). Inr (e, j', w'))
     | Inl err \<Rightarrow> Inl err
     | Inr e1 \<Rightarrow>
         let e2 = any_flush e1 in
         if stream_ok e2 then Inr (e2, j, w)
         else bind_result (abort_transfer lib j w) (\<lambda>(j', w'). Inr (e2, j', w')))"

type_synonym ('l, 's) transfer = "'l any_encoder \<times> scan_job \<times> 's world"

text \<open>The inner loop, over the lines of a page.\<close>

partial_function (option) read_page ::
  "'s sane_lib \<Rightarrow> 'l encoder_env \<Rightarrow> string \<Rightarrow> sane_status \<Rightarrow> 'l any_encoder \<Rightarrow> scan_job \<Rightarrow> 's world
    \<Rightarrow> (sane_status \<times> ('l, 's) transfer) result option" where
  [code]: "read_page lib en buf st e j w =
     (if st = GOOD \<and> stream_ok e \<and> isProcessing j then
        (case sj_session j of None \<Rightarrow> Some (Inl NullDeref)
         | Some se \<Rightarrow>
             Option.bind (session_read lib buf se w) (\<lambda>r. case r of Inl err \<Rightarrow> Some (Inl err)
               | Inr (buf1, se1, w1) \<Rightarrow>
                   let j1 = j\<lparr>sj_session := Some se1, sj_lastActive := now lib w1\<rparr> in
                   if se_status se1 \<noteq> GOOD then read_page lib en buf1 (se_status se1) e j1 w1
                   else (case convert_line j1 buf1 of Inl err \<Rightarrow> Some (Inl err)
                     | Inr buf2 \<Rightarrow>
                         (case send_line lib en buf2 e j1 w1 of Inl err \<Rightarrow> Some (Inl err)
                          | Inr (e2, j2, w2) \<Rightarrow> read_page lib en buf2 GOOD e2 j2 w2))))
      else Some (Inr (st, e, j, w)))"

text \<open>The end of a page.\<close>

definition finish_page ::
  "'s sane_lib \<Rightarrow> sane_status \<Rightarrow> ('l, 's) transfer \<Rightarrow> ('l, 's) transfer result option" where
  "finish_page lib st = (\<lambda>(e, j, w).
     if isProcessing j then
       map_option (\<lambda>r. bind_result r (\<lambda>(j1, w1).
         Inr (e, if linesLeftInCurrentImage (any_base e) \<noteq> ie_height (any_base e)
                 then set_state aborted PWG_ERRORS_DETECTED j1 else j1, w1)))
       (updateStatus lib st (j\<lparr>sj_imagesCompleted := sj_imagesCompleted j + 1\<rparr>) w)
     else Some (Inr (e, j, w)))"

text \<open>The outer loop, over the pages.\<close>

partial_function (option) read_pages ::
  "'s sane_lib \<Rightarrow> 'l encoder_env \<Rightarrow> 'l any_encoder \<Rightarrow> scan_job \<Rightarrow> 's world \<Rightarrow> ('l, 's) transfer result option" where
  [code]: "read_pages lib en e j w =
     (if isProcessing j then
        (case sj_session j of None \<Rightarrow> Some (Inl NullDeref)
         | Some se \<Rightarrow>
             if sp_bytes_per_line (se_parameters se) < 0 then Some (Inl LengthError)
             else Option.bind (read_page lib en (replicate (nat (sp_bytes_per_line (se_parameters se))) (CHR 0x00))
                     GOOD e (j\<lparr>sj_lastActive := now lib w\<rparr>) w) (\<lambda>r. case r of Inl err \<Rightarrow> Some (Inl err)
               | Inr (st, t) \<Rightarrow>
                   Option.bind (finish_page lib st t) (\<lambda>r. case r of Inl err \<Rightarrow> Some (Inl err)
                     | Inr (e2, j2, w2) \<Rightarrow> read_pages lib en e2 j2 w2)))
      else Some (Inr (e, j, w)))"

definition finishTransfer ::
  "'s sane_lib \<Rightarrow> 'l encoder_env \<Rightarrow> scanner_info \<Rightarrow> ostream \<Rightarrow> scan_job \<Rightarrow> 's world
    \<Rightarrow> (ostream \<times> scan_job \<times> 's world) result option" where
  "finishTransfer lib en sc os j0 w =
     (let j = j0\<lparr>sj_lastActive := now lib w\<rparr>;
          touch = (\<lambda>j w. j\<lparr>sj_lastActive := now lib w\<rparr>) in
      if \<not> isProcessing j then Some (Inr (os, touch j w, w))
      else case make_encoder sc j of Inl err \<Rightarrow> Some (Inl err)
       | Inr None \<Rightarrow> Some (Inr (os, touch (set_state aborted PWG_UNSUPPORTED_DOCUMENT_FORMAT j) w, w))
       | Inr (Some e) \<Rightarrow>
           (case prepare_encoder os j e of Inl err \<Rightarrow> Some (Inl err)
            | Inr (j1, e1) \<Rightarrow>
                map_option (\<lambda>r. bind_result r (\<lambda>(e2, j2, w2).
                  bind_result (any_endDocument en e2) (\<lambda>e3.
                    Inr (the (any_dest e3), touch j2 w2, w2))))
                (read_pages lib en e1 j1 w)))"

subsection \<open>What a job holds\<close>

definition held :: "scan_job \<Rightarrow> int" where
  "held j = (case sj_session j of None \<Rightarrow> 0 | Some se \<Rightarrow> handles_of (se_device se))"

text \<open>The settings of a job, which no transfer changes.\<close>

definition settings :: "scan_job \<Rightarrow> scan_job" where
  "settings j = j\<lparr>sj_state := pending, sj_stateReason := [], sj_adfStatus := GOOD, sj_session := None,
     sj_lastActive := 0, sj_imagesCompleted := 0\<rparr>"

lemma settings_update [simp]:
  "settings (j\<lparr>sj_state := a\<rparr>) = settings j" "settings (j\<lparr>sj_stateReason := b\<rparr>) = settings j"
  "settings (j\<lparr>sj_adfStatus := c\<rparr>) = settings j" "settings (j\<lparr>sj_session := d\<rparr>) = settings j"
  "settings (j\<lparr>sj_lastActive := t\<rparr>) = settings j" "settings (j\<lparr>sj_imagesCompleted := n\<rparr>) = settings j"
  by (simp_all add: settings_def)

lemma settings_set_state [simp]: "settings (set_state s r j) = settings j"
  by (simp add: set_state_def)

lemma settingsD:
  assumes "settings j = settings k"
  shows "sj_kind j = sj_kind k" "sj_colorScan j = sj_colorScan k" "sj_deviceOptions j = sj_deviceOptions k"
    "sj_gammaTable j = sj_gammaTable k" "sj_bitDepth j = sj_bitDepth k" "sj_uuid j = sj_uuid k"
    "sj_documentFormat j = sj_documentFormat k"
proof -
  note f = assms[THEN arg_cong]
  show "sj_kind j = sj_kind k" using f[of sj_kind] by (simp add: settings_def)
  show "sj_colorScan j = sj_colorScan k" using f[of sj_colorScan] by (simp add: settings_def)
  show "sj_deviceOptions j = sj_deviceOptions k" using f[of sj_deviceOptions] by (simp add: settings_def)
  show "sj_gammaTable j = sj_gammaTable k" using f[of sj_gammaTable] by (simp add: settings_def)
  show "sj_bitDepth j = sj_bitDepth k" using f[of sj_bitDepth] by (simp add: settings_def)
  show "sj_uuid j = sj_uuid k" using f[of sj_uuid] by (simp add: settings_def)
  show "sj_documentFormat j = sj_documentFormat k" using f[of sj_documentFormat] by (simp add: settings_def)
qed

lemma held_simps [simp]:
  "held (j\<lparr>sj_session := Some se\<rparr>) = handles_of (se_device se)" "held (j\<lparr>sj_session := None\<rparr>) = 0"
  "held (j\<lparr>sj_state := a\<rparr>) = held j" "held (j\<lparr>sj_stateReason := b\<rparr>) = held j"
  "held (j\<lparr>sj_adfStatus := c\<rparr>) = held j" "held (j\<lparr>sj_lastActive := t\<rparr>) = held j"
  "held (j\<lparr>sj_imagesCompleted := n\<rparr>) = held j" "held (set_state s r j) = held j"
  by (simp_all add: held_def set_state_def)

lemma set_state_simps [simp]:
  "sj_state (set_state s r j) = s" "sj_session (set_state s r j) = sj_session j"
  "sj_stateReason (set_state s r j) = r" "sj_imagesCompleted (set_state s r j) = sj_imagesCompleted j"
  "sj_kind (set_state s r j) = sj_kind j" "sj_lastActive (set_state s r j) = sj_lastActive j"
  by (simp_all add: set_state_def)

lemma session_destroy_acct:
  "session_destroy lib se w = Inr w' \<Longrightarrow> w_refcount w' = w_refcount w - handles_of (se_device se)"
  by (auto simp: session_destroy_def close_device_def sane_init_release_def handles_of_def Let_def
      split: option.splits if_splits)

lemma session_start_acct:
  "session_start lib se w = Inr (se', w') \<Longrightarrow> w_refcount w' = w_refcount w \<and> se_device se' = se_device se"
  by (auto simp: session_start_def Let_def split: option.splits if_splits prod.splits)

lemma closeSession_acct:
  "closeSession lib j w = Inr (j', w') \<Longrightarrow>
     j' = j\<lparr>sj_session := None\<rparr> \<and> w_refcount w' = w_refcount w - held j"
  by (auto simp: closeSession_def held_def bind_result_Inr_iff dest: session_destroy_acct split: option.splits)

lemma closeSession_ok:
  assumes "held j \<le> w_refcount w"
  obtains w' where "closeSession lib j w = Inr (j\<lparr>sj_session := None\<rparr>, w')"
    "w_refcount w' = w_refcount w - held j"
proof (cases "sj_session j")
  case None
  then have "closeSession lib j w = Inr (j\<lparr>sj_session := None\<rparr>, w)" by (simp add: closeSession_def)
  with None that show ?thesis by (simp add: held_def)
next
  case (Some se)
  with assms have "handles_of (se_device se) \<le> w_refcount (session_cancel lib se w)" by (simp add: held_def)
  then obtain w' where "session_destroy lib se (session_cancel lib se w) = Inr w'"
    "w_refcount w' = w_refcount w - handles_of (se_device se)"
    by (rule session_destroy_ok[where lib = lib]) simp
  with Some that show ?thesis by (simp add: closeSession_def held_def)
qed

subsection \<open>The effect of a status\<close>

definition session_of :: "scan_job \<Rightarrow> handle \<Rightarrow> bool" where
  "session_of j h \<longleftrightarrow> (\<exists>se. sj_session j = Some se \<and> se_device se = Some h)"

lemma session_of_None [simp]: "sj_session j = None \<Longrightarrow> \<not> session_of j h"
  by (simp add: session_of_def)

lemma session_of_simps [simp]:
  "session_of (j\<lparr>sj_session := Some se\<rparr>) h \<longleftrightarrow> se_device se = Some h" "\<not> session_of (j\<lparr>sj_session := None\<rparr>) h"
  "session_of (j\<lparr>sj_state := a\<rparr>) h = session_of j h" "session_of (j\<lparr>sj_stateReason := b\<rparr>) h = session_of j h"
  "session_of (j\<lparr>sj_adfStatus := c\<rparr>) h = session_of j h" "session_of (j\<lparr>sj_lastActive := t\<rparr>) h = session_of j h"
  "session_of (j\<lparr>sj_imagesCompleted := n\<rparr>) h = session_of j h" "session_of (set_state s r j) h = session_of j h"
  by (simp_all add: session_of_def set_state_def)

definition status_effect :: "scan_job \<Rightarrow> 's world \<Rightarrow> scan_job \<Rightarrow> 's world \<Rightarrow> bool" where
  "status_effect j w j' w' \<longleftrightarrow>
     settings j' = settings j \<and> sj_imagesCompleted j' = sj_imagesCompleted j \<and>
     sj_lastActive j' = sj_lastActive j \<and>
     w_refcount w' - held j' = w_refcount w - held j \<and>
     sj_state j' \<noteq> canceled \<and>
     (sj_state j' \<in> {completed, aborted} \<longrightarrow> sj_session j' = None) \<and>
     (sj_state j' = processing \<longrightarrow> sj_session j \<noteq> None \<longrightarrow> sj_session j' \<noteq> None \<and> (\<forall>h. session_of j h \<longrightarrow> session_of j' h))"

lemma close_if_aborted_effect:
  assumes "status_effect j w j1 w1 \<or> (settings j1 = settings j \<and> sj_imagesCompleted j1 = sj_imagesCompleted j \<and>
      sj_lastActive j1 = sj_lastActive j \<and>
      w_refcount w1 - held j1 = w_refcount w - held j \<and> sj_state j1 = aborted)"
    "close_if_aborted lib j1 w1 = Inr (j', w')"
  shows "status_effect j w j' w'"
proof (cases "sj_state j1 = aborted")
  case True
  with assms(2) have "closeSession lib j1 w1 = Inr (j', w')" by (simp add: close_if_aborted_def)
  from closeSession_acct[OF this] assms(1) True show ?thesis by (auto simp: status_effect_def)
next
  case False
  with assms show ?thesis by (auto simp: close_if_aborted_def)
qed

lemma status_step_effect:
  assumes "status_step lib st j w = Inr (j1, w1)"
  shows "status_effect j w j1 w1 \<or> (settings j1 = settings j \<and> sj_imagesCompleted j1 = sj_imagesCompleted j \<and>
      sj_lastActive j1 = sj_lastActive j \<and>
      w_refcount w1 - held j1 = w_refcount w - held j \<and> sj_state j1 = aborted)"
  using assms
  by (cases st) (auto simp: status_step_def status_effect_def set_state_def dest!: closeSession_acct split: if_splits)

lemma updateStatus_effect_raw:
  "updateStatus lib st j w = Some r \<Longrightarrow> (\<forall>j' w'. r = Inr (j', w') \<longrightarrow> status_effect j w j' w')"
proof (induction rule: updateStatus.raw_induct[rotated, consumes 1, case_names 1])
  case (1 upd lib st j0 w r)
  let ?j = "j0\<lparr>sj_adfStatus := GOOD\<rparr>"
  have base: "status_effect j0 w j' w'" if "status_effect ?j w j' w'" for j' w'
    using that by (simp add: status_effect_def)
  show ?case
  proof (intro allI impI)
    fix j' w' assume r: "r = Inr (j', w')"
    show "status_effect j0 w j' w'"
    proof (cases "st = EOF")
      case False
      with 1(2) r obtain j1 w1 where "status_step lib st ?j w = Inr (j1, w1)"
        "close_if_aborted lib j1 w1 = Inr (j', w')"
        by (auto simp: Let_def bind_result_Inr_iff)
      from close_if_aborted_effect[OF status_step_effect[OF this(1)] this(2)] base show ?thesis by blast
    next
      case True
      show ?thesis
      proof (cases "sj_kind ?j")
        case None
        with True 1(2) r show ?thesis by simp
      next
        case (Some k)
        show ?thesis
        proof (cases k)
          case single
          let ?k = "if sj_imagesCompleted ?j > 0 then set_state completed PWG_JOB_COMPLETED_SUCCESSFULLY ?j
            else set_state pending PWG_NONE ?j"
          from single Some True 1(2) r obtain j1 w1 where c: "closeSession lib ?k w = Inr (j1, w1)"
            "close_if_aborted lib j1 w1 = Inr (j', w')"
            by (auto simp: Let_def bind_result_Inr_iff)
          have "status_effect ?j w j1 w1"
            using closeSession_acct[OF c(1)] by (auto simp: status_effect_def)
          with close_if_aborted_effect[OF _ c(2)] base show ?thesis by blast
        next
          case adfSingle
          from adfSingle Some True 1(2) r have "j' = set_state pending PWG_NONE ?j" "w' = w"
            by (auto simp: Let_def close_if_aborted_def)
          then show ?thesis by (simp add: status_effect_def)
        next
          case adfConcat
          with Some True 1(2) r obtain se se' w1 j1 w2 where
            se: "sj_session ?j = Some se" "session_start lib se w = Inr (se', w1)"
            and u: "upd lib (se_status se') (?j\<lparr>sj_session := Some se'\<rparr>) w1 = Some (Inr (j1, w2))"
            and c: "close_if_aborted lib j1 w2 = Inr (j', w')"
            by (auto simp: Let_def bind_result_Inr_iff Option.bind_eq_Some_conv split: option.splits sum.splits)
          from 1(1)[OF u] have "status_effect (?j\<lparr>sj_session := Some se'\<rparr>) w1 j1 w2" by simp
          with session_start_acct[OF se(2)] se(1) have "status_effect ?j w j1 w2"
            by (simp add: status_effect_def held_def session_of_def)
          with close_if_aborted_effect[OF _ c] base show ?thesis by blast
        qed
      qed
    qed
  qed
qed

lemma updateStatus_effect:
  "updateStatus lib st j w = Some (Inr (j', w')) \<Longrightarrow> status_effect j w j' w'"
  using updateStatus_effect_raw by blast

subsection \<open>Beginning a transfer\<close>

lemma reload_if_acct:
  "reload_if lib info ok os w = Inr (ok', os', w') \<Longrightarrow> w' = w \<and> os_device os' = os_device os"
  by (auto simp: reload_if_def option_set_reload_def bind_result_Inr_iff split: if_splits option.splits)

lemma set_string_value_acct:
  "set_string_value lib opt i v os w = Inr (ok, os', w') \<Longrightarrow>
     w_refcount w' = w_refcount w \<and> os_device os' = os_device os"
  by (auto simp: set_string_value_def Let_def dest!: reload_if_acct split: option.splits if_splits prod.splits)

lemma set_numeric_value_acct:
  "set_numeric_value lib opt i v os w = Inr (ok, os', w') \<Longrightarrow>
     w_refcount w' = w_refcount w \<and> os_device os' = os_device os"
  by (auto simp: set_numeric_value_def Let_def bind_result_Inr_iff dest!: reload_if_acct
      split: option.splits if_splits prod.splits)

lemma assign_string_acct:
  "assign_string lib nv st = Inr st' \<Longrightarrow> w_refcount (snd st') = w_refcount (snd st)"
  by (auto simp: assign_string_def set_value_string_def bind_result_Inr_iff
      dest!: set_string_value_acct set_numeric_value_acct split: if_splits)

lemma assign_double_acct:
  "assign_double lib name v st = Inr st' \<Longrightarrow> w_refcount (snd st') = w_refcount (snd st)"
  by (auto simp: assign_double_def set_value_double_def bind_result_Inr_iff
      dest!: set_string_value_acct set_numeric_value_acct split: if_splits)

lemma assign_all_acct:
  "assign_all lib nvs st = Inr st' \<Longrightarrow> w_refcount (snd st') = w_refcount (snd st)"
  by (induction nvs arbitrary: st) (auto simp: bind_result_Inr_iff dest: assign_string_acct)

lemma set_resolution_acct:
  "set_resolution lib res st = Inr (ok, st') \<Longrightarrow> w_refcount (snd st') = w_refcount (snd st)"
  by (cases st') (auto simp: set_resolution_def Let_def bind_result_Inr_iff dest!: set_numeric_value_acct split: if_splits)

lemma set_options_acct:
  assumes "set_options lib j st = Inr (ok, st')"
  shows "w_refcount (snd st') = w_refcount (snd st)"
  using assms unfolding set_options_def
  by (auto simp: bind_result_Inr_iff Let_def dest!: assign_all_acct assign_string_acct assign_double_acct set_resolution_acct)

lemma openSession_acct:
  assumes "openSession lib sc j w = Inr (st, j', w')"
  shows "settings j' = settings j \<and> sj_imagesCompleted j' = sj_imagesCompleted j \<and> sj_state j' = sj_state j \<and>
    sj_session j' \<noteq> None \<and> w_refcount w' - held j' = w_refcount w - held j"
proof -
  from assms have none: "sj_session j = None" by (simp add: openSession_def split: if_splits)
  from assms none obtain se w1 where o: "session_open lib (si_saneName sc) w = Inr (se, w1)"
    by (auto simp: openSession_def bind_result_Inr_iff)
  then have r: "w_refcount w1 = w_refcount w + handles_of (se_device se)"
    by (auto simp: session_open_def sane_open_device_def sane_init_release_def Let_def handles_of_def
        bind_result_Inr_iff split: if_splits prod.splits)
  from assms none o show ?thesis
  proof (cases "se_status se = GOOD")
    case True
    with assms none o obtain ok os where "set_options lib j (se_options se, w1) = Inr (ok, os, w')"
      "j' = j\<lparr>sj_session := Some (se\<lparr>se_options := os\<rparr>)\<rparr>"
      by (auto simp: openSession_def bind_result_Inr_iff)
    with set_options_acct r none show ?thesis by (fastforce simp: held_def)
  next
    case False
    with assms none o r show ?thesis by (auto simp: openSession_def held_def)
  qed
qed

definition transfer_effect :: "scan_job \<Rightarrow> 's world \<Rightarrow> scan_job \<Rightarrow> 's world \<Rightarrow> bool" where
  "transfer_effect j w j' w' \<longleftrightarrow>
     settings j' = settings j \<and> w_refcount w' - held j' = w_refcount w - held j"

lemma transfer_effect_trans:
  "transfer_effect j w j1 w1 \<Longrightarrow> transfer_effect j1 w1 j2 w2 \<Longrightarrow> transfer_effect j w j2 w2"
  by (simp add: transfer_effect_def)

lemma startSession_effect:
  assumes "startSession lib j w = Some (Inr (j', w'))"
  shows "status_effect j w j' w'"
proof -
  from assms obtain se se' w1 where s: "sj_session j = Some se" "session_start lib se w = Inr (se', w1)"
    "updateStatus lib (se_status se') (j\<lparr>sj_session := Some se'\<rparr>) w1 = Some (Inr (j', w'))"
    by (auto simp: startSession_def split: option.splits sum.splits)
  from updateStatus_effect[OF s(3)] session_start_acct[OF s(2)] s(1) show ?thesis
    by (simp add: status_effect_def held_def session_of_def)
qed

lemma beginTransfer_effect:
  assumes "beginTransfer lib sc j w = Some (Inr (ok, j', w'))"
  shows "transfer_effect j w j' w' \<and>
    (if ok then sj_state j = pending \<and> sj_state j' = processing \<and> sj_session j' \<noteq> None
     else if sj_state j = pending then sj_session j' = None \<and> sj_state j' \<in> {aborted, completed, pending}
     else j' = j \<and> w' = w)"
proof (cases "sj_state j = pending")
  case False
  with assms show ?thesis by (auto simp: beginTransfer_def atomicTransition_def transfer_effect_def)
next
  case True
  let ?j = "j\<lparr>sj_state := processing\<rparr>"
  from assms True obtain st j2 w2 j3 w3 where
    o: "(if sj_session ?j = None then openSession lib sc ?j w else Inr (GOOD, ?j, w)) = Inr (st, j2, w2)"
    and s: "startSession lib j2 w2 = Some (Inr (j3, w3))"
    and f: "(if isProcessing j3 then Inr (True, j3, w3)
        else bind_result (closeSession lib j3 w3) (\<lambda>(j4, w4). Inr (False, j4, w4))) = Inr (ok, j', w')"
    by (auto simp: beginTransfer_def atomicTransition_def bind_result_Inr_iff split: sum.splits prod.splits)
  have 2: "transfer_effect j w j2 w2 \<and> sj_session j2 \<noteq> None"
    using o openSession_acct[of lib sc ?j w st j2 w2] by (auto simp: transfer_effect_def split: if_splits)
  have 3: "status_effect j2 w2 j3 w3" by (rule startSession_effect[OF s])
  then have e: "transfer_effect j w j3 w3" using 2 by (simp add: transfer_effect_def status_effect_def)
  show ?thesis
  proof (cases "isProcessing j3")
    case True
    with f 2 3 e \<open>sj_state j = pending\<close> show ?thesis by (auto simp: isProcessing_def status_effect_def)
  next
    case False
    then have "sj_state j3 \<in> {aborted, completed, pending}"
      using 3 by (cases "sj_state j3") (auto simp: isProcessing_def status_effect_def)
    moreover from False f obtain j4 w4 where "closeSession lib j3 w3 = Inr (j4, w4)" "j' = j4" "w' = w4" "\<not> ok"
      by (auto simp: bind_result_Inr_iff)
    ultimately show ?thesis using closeSession_acct[of lib j3 w3] e True
      by (auto simp: transfer_effect_def)
  qed
qed

subsection \<open>The lines of a page\<close>

lemma length_convert_line: "convert_line j buf = Inr l \<Longrightarrow> length l = length buf"
  by (auto simp: convert_line_def dest: length_synthesizeGray split: option.splits if_splits)

lemma convert_line_settings: "settings j = settings k \<Longrightarrow> convert_line j = convert_line k"
  using settingsD[of j k]
  by (intro ext)
    (simp add: convert_line_def synthesizing_def synthesizeGray_def applyGamma_def split: option.split)

text \<open>Lines in turn, each of them flushed to the client.\<close>

fun send_lines :: "'l encoder_env \<Rightarrow> string list \<Rightarrow> 'l any_encoder \<Rightarrow> 'l any_encoder result" where
  "send_lines en [] e = Inr e"
| "send_lines en (l # ls) e = bind_result (any_writeLine en l e) (\<lambda>e1. send_lines en ls (any_flush e1))"

lemma send_line_cases:
  assumes "send_line lib en l e j w = Inr (e', j', w')"
  shows "(\<exists>e1. any_writeLine en l e = Inr e1 \<and> e' = any_flush e1 \<and> stream_ok e' \<and> j' = j \<and> w' = w)
    \<or> (transfer_effect j w j' w' \<and> sj_state j' = aborted \<and> sj_session j' = None \<and>
         sj_imagesCompleted j' = sj_imagesCompleted j)"
proof (cases "any_writeLine en l e")
  case (Inl err)
  with assms have "abort_transfer lib j w = Inr (j', w')"
    by (cases err) (auto simp: send_line_def bind_result_Inr_iff)
  then show ?thesis by (auto simp: abort_transfer_def transfer_effect_def dest!: closeSession_acct)
next
  case (Inr e1)
  show ?thesis
  proof (cases "stream_ok (any_flush e1)")
    case True
    with Inr assms show ?thesis by (auto simp: send_line_def Let_def)
  next
    case False
    with Inr assms have "abort_transfer lib j w = Inr (j', w')"
      by (auto simp: send_line_def Let_def bind_result_Inr_iff)
    then show ?thesis by (auto simp: abort_transfer_def transfer_effect_def dest!: closeSession_acct)
  qed
qed

text \<open>
  What a page transfer does: unless it was aborted, every line the device delivered was converted and
  sent, once and in order.
\<close>

definition page_sent ::
  "'s sane_lib \<Rightarrow> 'l encoder_env \<Rightarrow> handle \<Rightarrow> nat \<Rightarrow> 'l any_encoder \<Rightarrow> scan_job \<Rightarrow> 's world
     \<Rightarrow> 'l any_encoder \<Rightarrow> bool" where
  "page_sent lib en h n e j w e' \<longleftrightarrow>
     (\<exists>raws ls s1. device_reads lib h (w_sane w) (concat raws) s1 \<and> (\<forall>x \<in> set raws. length x = n) \<and>
        map_result (convert_line j) raws = Inr ls \<and> send_lines en ls e = Inr e')"

definition page_effect ::
  "'s sane_lib \<Rightarrow> 'l encoder_env \<Rightarrow> handle \<Rightarrow> nat \<Rightarrow> 'l any_encoder \<Rightarrow> scan_job \<Rightarrow> 's world
     \<Rightarrow> sane_status \<times> ('l, 's) transfer \<Rightarrow> bool" where
  "page_effect lib en h n e j w = (\<lambda>(st', e', j', w').
     transfer_effect j w j' w' \<and> sj_imagesCompleted j' = sj_imagesCompleted j \<and>
     (if sj_state j' = processing
      then sj_state j = processing \<and> session_of j' h \<and> (stream_ok e \<longrightarrow> stream_ok e' \<and> st' \<noteq> GOOD) \<and>
           page_sent lib en h n e j w e'
      else j' = j \<or> (sj_state j' = aborted \<and> sj_session j' = None)))"

lemma page_sent_none: "page_sent lib en h n e j w e"
  unfolding page_sent_def by (rule exI[of _ "[]"]) (auto intro: reads_none)

lemma page_sent_step:
  assumes "device_reads lib h (w_sane w) x (w_sane w1)" "length x = n" "convert_line j x = Inr l"
    "any_writeLine en l e = Inr e1" "page_sent lib en h n (any_flush e1) j1 w1 e'" "settings j1 = settings j"
  shows "page_sent lib en h n e j w e'"
proof -
  from assms(5) obtain raws ls s1 where r: "device_reads lib h (w_sane w1) (concat raws) s1"
    "\<forall>x \<in> set raws. length x = n" "map_result (convert_line j1) raws = Inr ls"
    "send_lines en ls (any_flush e1) = Inr e'"
    by (auto simp: page_sent_def)
  then have "device_reads lib h (w_sane w) (concat (x # raws)) s1"
    using assms(1) by (auto intro: device_reads_append)
  moreover have "map_result (convert_line j) (x # raws) = Inr (l # ls)"
    using r(3) assms(3) convert_line_settings[OF assms(6)] by simp
  ultimately show ?thesis unfolding page_sent_def using r(2,4) assms(2,4)
    by (intro exI[of _ "x # raws"] exI[of _ "l # ls"] exI[of _ s1]) auto
qed

lemma session_read_device:
  assumes "session_read lib buf se w = Some (Inr (buf', se', w'))" "reads_ok lib h" "se_device se = Some h"
  shows "length buf' = length buf \<and> se_device se' = Some h \<and> w_refcount w' = w_refcount w \<and>
    (se_status se' = GOOD \<longrightarrow> device_reads lib h (w_sane w) buf' (w_sane w'))"
proof -
  obtain st b s where "read_loop lib h buf 0 (w_sane w) = Some (st, b, s)" "length b = length buf"
    "st = GOOD \<longrightarrow> device_reads lib h (w_sane w) b s"
    using read_loop_returns[OF assms(2), of 0 buf "w_sane w"] by auto
  with assms(1,3) show ?thesis by (auto simp: session_read_def)
qed

lemma page_effect_after:
  assumes "page_effect lib en h n (any_flush e1) j1 w1 t" "transfer_effect j w j1 w1"
    "sj_imagesCompleted j1 = sj_imagesCompleted j" "sj_state j1 = sj_state j" "session_of j1 h" "isProcessing j"
    "device_reads lib h (w_sane w) x (w_sane w1)" "length x = n" "convert_line j1 x = Inr l"
    "any_writeLine en l e = Inr e1" "stream_ok (any_flush e1)"
  shows "page_effect lib en h n e j w t"
proof -
  obtain st' e' j' w' where t: "t = (st', e', j', w')" by (metis prod_cases4)
  have s: "settings j1 = settings j" using assms(2) by (simp add: transfer_effect_def)
  have c: "convert_line j x = Inr l" using assms(9) convert_line_settings[OF s] by simp
  have "page_sent lib en h n e j w e'" if "page_sent lib en h n (any_flush e1) j1 w1 e'"
    using page_sent_step[OF assms(7,8) c assms(10) that s] .
  with assms(1-6,11) show ?thesis
    unfolding t page_effect_def prod.case
    by (auto simp: isProcessing_def intro: transfer_effect_trans split: if_splits)
qed

lemma read_page_effect_raw:
  "read_page lib en buf st e j w = Some r \<Longrightarrow>
     (\<forall>t. r = Inr t \<longrightarrow> (st \<noteq> GOOD \<or> \<not> isProcessing j \<longrightarrow> t = (st, e, j, w)) \<and>
        (reads_ok lib h \<longrightarrow> session_of j h \<longrightarrow> page_effect lib en h (length buf) e j w t))"
proof (induction rule: read_page.raw_induct[rotated, consumes 1, case_names 1])
  case (1 rp lib en buf st e j w r)
  show ?case
  proof (cases "st = GOOD \<and> stream_ok e \<and> isProcessing j")
    case False
    with 1(2) have "r = Inr (st, e, j, w)" by (auto split: if_splits)
    with False show ?thesis
      by (auto simp: page_effect_def transfer_effect_def isProcessing_def page_sent_none)
  next
    case True
    show ?thesis
    proof (intro allI impI conjI)
      fix t assume r: "r = Inr t"
      show "t = (st, e, j, w)" if "st \<noteq> GOOD \<or> \<not> isProcessing j" using that True by simp
      assume ok: "reads_ok lib h" and so: "session_of j h"
      from so obtain se where se: "sj_session j = Some se" "se_device se = Some h" by (auto simp: session_of_def)
      from 1(2) r True se(1) obtain buf1 se1 w1 where rd: "session_read lib buf se w = Some (Inr (buf1, se1, w1))"
        by (cases "session_read lib buf se w"; cases "the (session_read lib buf se w)") auto
      note dev = session_read_device[OF rd ok se(2)]
      let ?j1 = "j\<lparr>sj_session := Some se1, sj_lastActive := now lib w1\<rparr>"
      have so1: "session_of ?j1 h" using dev by (simp add: session_of_def)
      have te: "transfer_effect j w ?j1 w1" using dev se by (simp add: transfer_effect_def held_def)
      show "page_effect lib en h (length buf) e j w t"
      proof (cases "se_status se1 = GOOD")
        case False
        with 1(2) r True se(1) rd have "rp lib en buf1 (se_status se1) e ?j1 w1 = Some (Inr t)"
          by (simp add: Let_def)
        from 1(1)[OF this] False have "t = (se_status se1, e, ?j1, w1)" by simp
        with te so1 False True show ?thesis
          by (simp add: page_effect_def isProcessing_def page_sent_none)
      next
        case good: True
        with 1(2) r True se(1) rd obtain buf2 e2 j2 w2 where
          c: "convert_line ?j1 buf1 = Inr buf2" "send_line lib en buf2 e ?j1 w1 = Inr (e2, j2, w2)"
            "rp lib en buf2 GOOD e2 j2 w2 = Some (Inr t)"
          by (auto simp: Let_def split: sum.splits)
        have n: "length buf2 = length buf" using length_convert_line[OF c(1)] dev by simp
        from send_line_cases[OF c(2)] show ?thesis
        proof (elim disjE exE conjE)
          fix e1 assume w: "any_writeLine en buf2 e = Inr e1" "e2 = any_flush e1" "stream_ok e2" "j2 = ?j1" "w2 = w1"
          then have "page_effect lib en h (length buf) (any_flush e1) ?j1 w1 t"
            using 1(1)[OF c(3)] ok so1 n by simp
          with page_effect_after[OF this te _ _ so1 _ _ _ c(1) w(1)] w True dev good show ?thesis by simp
        next
          assume a: "transfer_effect ?j1 w1 j2 w2" "sj_state j2 = aborted" "sj_session j2 = None"
            "sj_imagesCompleted j2 = sj_imagesCompleted ?j1"
          then have "t = (GOOD, e2, j2, w2)" using 1(1)[OF c(3)] by (simp add: isProcessing_def)
          with a transfer_effect_trans[OF te a(1)] show ?thesis by (simp add: page_effect_def)
        qed
      qed
    qed
  qed
qed

lemma read_page_effect:
  assumes "read_page lib en buf st e j w = Some (Inr t)" "reads_ok lib h" "session_of j h"
  shows "page_effect lib en h (length buf) e j w t"
  using read_page_effect_raw[OF assms(1), of h] assms(2,3) by blast

subsection \<open>The pages of a document\<close>

lemma session_of_held: "session_of j h \<Longrightarrow> held j = 1"
  by (auto simp: session_of_def held_def handles_of_def)

lemma finish_page_effect:
  assumes "finish_page lib st (e, j, w) = Some (Inr (e', j', w'))"
  shows "e' = e \<and> transfer_effect j w j' w' \<and>
    (sj_state j = processing \<longrightarrow>
       (sj_state j' \<in> {processing, pending, completed} \<longrightarrow> ie_currentLine (any_base e) = 0) \<and>
       (sj_state j' = completed \<longrightarrow> sj_session j' = None) \<and>
       (sj_state j' = processing \<longrightarrow> (\<forall>h. session_of j h \<longrightarrow> session_of j' h)) \<and>
       sj_imagesCompleted j' = sj_imagesCompleted j + 1 \<and> sj_state j' \<noteq> canceled) \<and>
    (sj_state j \<noteq> processing \<longrightarrow> j' = j \<and> w' = w)"
proof (cases "isProcessing j")
  case False
  with assms show ?thesis by (auto simp: finish_page_def isProcessing_def transfer_effect_def)
next
  case True
  let ?j = "j\<lparr>sj_imagesCompleted := sj_imagesCompleted j + 1\<rparr>"
  from assms True obtain j1 where u: "updateStatus lib st ?j w = Some (Inr (j1, w'))" and e: "e' = e"
    and j': "j' = (if linesLeftInCurrentImage (any_base e) \<noteq> ie_height (any_base e)
                   then set_state aborted PWG_ERRORS_DETECTED j1 else j1)"
    by (auto simp: finish_page_def bind_result_Inr_iff)
  from updateStatus_effect[OF u] have se: "status_effect ?j w j1 w'" .
  show ?thesis
    using se e True by (auto simp: j' status_effect_def transfer_effect_def isProcessing_def linesLeftInCurrentImage_def)
qed

text \<open>A chain of pages sent to the client, each from the state in which the device started it.\<close>

inductive document_sent ::
  "'s sane_lib \<Rightarrow> 'l encoder_env \<Rightarrow> handle \<Rightarrow> scan_job \<Rightarrow> nat \<Rightarrow> 'l any_encoder \<Rightarrow> 'l any_encoder \<Rightarrow> bool"
  for lib en h j where
  sent_nothing: "document_sent lib en h j 0 e e"
| sent_page: "page_sent lib en h n e j w e1 \<Longrightarrow> document_sent lib en h j k e1 e2 \<Longrightarrow>
    document_sent lib en h j (Suc k) e e2"

inductive_cases document_sentE: "document_sent lib en h j k e e'"

lemma page_sent_settings: "settings j = settings k \<Longrightarrow> page_sent lib en h n e j w = page_sent lib en h n e k w"
  by (intro ext) (simp add: page_sent_def convert_line_settings[of j k])

lemma document_sent_settings:
  assumes "document_sent lib en h j k e e'" "settings j = settings i"
  shows "document_sent lib en h i k e e'"
  using assms(1)
proof induction
  case (sent_page n e w e1 k e2)
  from sent_page(1) have "page_sent lib en h n e i w e1" by (simp only: page_sent_settings[OF assms(2)])
  then show ?case using sent_page(3) by (rule document_sent.sent_page)
qed (rule sent_nothing)

definition document_effect ::
  "'s sane_lib \<Rightarrow> 'l encoder_env \<Rightarrow> handle \<Rightarrow> 'l any_encoder \<Rightarrow> scan_job \<Rightarrow> 's world \<Rightarrow> ('l, 's) transfer \<Rightarrow> bool" where
  "document_effect lib en h e j w = (\<lambda>(e', j', w').
     transfer_effect j w j' w' \<and> sj_state j' \<noteq> processing \<and>
     (if sj_state j = processing
      then sj_state j' \<noteq> canceled \<and> (sj_state j' = completed \<longrightarrow> sj_session j' = None) \<and>
           (sj_state j' \<noteq> aborted \<longrightarrow>
              ie_currentLine (any_base e') = 0 \<and>
              (\<exists>k > 0. sj_imagesCompleted j' = sj_imagesCompleted j + int k \<and> document_sent lib en h j k e e'))
      else j' = j \<and> w' = w \<and> e' = e))"

lemma document_effect_page:
  assumes "page_effect lib en h n e (j\<lparr>sj_lastActive := t0\<rparr>) w (st, e1, j1, w1)"
    "finish_page lib st (e1, j1, w1) = Some (Inr (e2, j2, w2))" "sj_state j = processing"
    "session_of j h" "session_of j2 h \<or> sj_state j2 \<noteq> processing \<Longrightarrow> document_effect lib en h e2 j2 w2 t"
  shows "document_effect lib en h e j w t"
proof -
  obtain e' j' w' where t: "t = (e', j', w')" by (metis prod_cases3)
  let ?j = "j\<lparr>sj_lastActive := t0\<rparr>"
  note fp = finish_page_effect[OF assms(2)]
  from assms(1) have te: "transfer_effect j w j1 w1" and ic: "sj_imagesCompleted j1 = sj_imagesCompleted j"
    by (auto simp: page_effect_def transfer_effect_def)
  from fp have "transfer_effect j1 w1 j2 w2" by simp
  then have te2: "transfer_effect j w j2 w2" using te by (blast intro: transfer_effect_trans)
  have s2: "settings j2 = settings j" using te2 by (simp add: transfer_effect_def)
  show ?thesis
  proof (cases "sj_state j1 = processing")
    case False
    then have j1: "sj_state j1 = aborted" using assms(1,3) by (auto simp: page_effect_def)
    then have "j2 = j1" "w2 = w1" using fp by simp_all
    then have "document_effect lib en h e2 j1 w1 t" using assms(5) j1 by simp
    with j1 have "j' = j1" "w' = w1" by (simp_all add: document_effect_def t)
    with j1 te assms(3) show ?thesis by (simp add: document_effect_def t)
  next
    case True
    with assms(1) have ps: "page_sent lib en h n e j w e1" and so: "session_of j1 h"
      using page_sent_settings[of ?j j lib en h n e w] by (auto simp: page_effect_def)
    from True fp have e2: "e2 = e1" and i2: "sj_imagesCompleted j2 = sj_imagesCompleted j + 1"
      and c2: "sj_state j2 \<noteq> canceled" "sj_state j2 = completed \<longrightarrow> sj_session j2 = None"
      and l2: "sj_state j2 \<in> {processing, pending, completed} \<longrightarrow> ie_currentLine (any_base e1) = 0"
      and so2: "sj_state j2 = processing \<longrightarrow> session_of j2 h"
      using so ic by auto
    have de: "document_effect lib en h e1 j2 w2 t" using assms(5) so2 e2 by blast
    show ?thesis
    proof (cases "sj_state j2 = processing")
      case False
      with de have "e' = e1" "j' = j2" "w' = w2" by (simp_all add: document_effect_def t)
      moreover have "document_sent lib en h j 1 e e1" using ps sent_nothing[of lib en h j e1]
        unfolding One_nat_def by (rule sent_page)
      moreover have "sj_state j2 \<noteq> aborted \<Longrightarrow> sj_state j2 \<in> {processing, pending, completed}"
        using c2 by (cases "sj_state j2") auto
      ultimately show ?thesis using te2 c2 False l2 i2 assms(3)
        unfolding t document_effect_def prod.case by (auto intro!: exI[of _ 1])
    next
      case p: True
      have "\<exists>k > 0. sj_imagesCompleted j' = sj_imagesCompleted j + int k \<and> document_sent lib en h j k e e'"
        if "sj_state j' \<noteq> aborted"
      proof -
        from de p that obtain k where k: "sj_imagesCompleted j' = sj_imagesCompleted j2 + int k"
          "document_sent lib en h j2 k e1 e'"
          by (auto simp: document_effect_def t)
        from sent_page[OF ps document_sent_settings[OF k(2) s2]] k(1) i2 show ?thesis
          by (intro exI[of _ "Suc k"]) simp
      qed
      with de p te2 assms(3) show ?thesis
        unfolding t document_effect_def prod.case by (auto intro: transfer_effect_trans)
    qed
  qed
qed

lemma read_pages_effect_raw:
  "read_pages lib en e j w = Some r \<Longrightarrow>
     (\<forall>t. r = Inr t \<longrightarrow> reads_ok lib h \<longrightarrow> session_of j h \<or> sj_state j \<noteq> processing \<longrightarrow>
        document_effect lib en h e j w t)"
proof (induction rule: read_pages.raw_induct[rotated, consumes 1, case_names 1])
  case (1 rp lib en e j w r)
  show ?case
  proof (intro allI impI)
    fix t assume r: "r = Inr t" and ok: "reads_ok lib h" and so: "session_of j h \<or> sj_state j \<noteq> processing"
    show "document_effect lib en h e j w t"
    proof (cases "isProcessing j")
      case False
      with 1(2) r show ?thesis by (auto simp: document_effect_def isProcessing_def transfer_effect_def)
    next
      case True
      with so obtain se where se: "sj_session j = Some se" by (auto simp: isProcessing_def session_of_def)
      let ?buf = "replicate (nat (sp_bytes_per_line (se_parameters se))) (CHR 0x00)"
      from 1(2) r True se obtain st e1 j1 w1 e2 j2 w2 where
        rd: "read_page lib en ?buf GOOD e (j\<lparr>sj_lastActive := now lib w\<rparr>) w = Some (Inr (st, e1, j1, w1))"
        and fp: "finish_page lib st (e1, j1, w1) = Some (Inr (e2, j2, w2))"
        and rp: "rp lib en e2 j2 w2 = Some (Inr t)"
        by (auto simp: bind_case_sum_iff split: if_splits)
      have so': "session_of j h" using so True by (simp add: isProcessing_def)
      then have "page_effect lib en h (length ?buf) e (j\<lparr>sj_lastActive := now lib w\<rparr>) w (st, e1, j1, w1)"
        by (intro read_page_effect[OF rd ok]) simp
      then show ?thesis
      proof (rule document_effect_page[OF _ fp _ so'])
        show "sj_state j = processing" using True by (simp add: isProcessing_def)
        show "document_effect lib en h e2 j2 w2 t" if "session_of j2 h \<or> sj_state j2 \<noteq> processing"
          using 1(1)[OF rp] ok that by simp
      qed
    qed
  qed
qed

lemma read_pages_effect:
  assumes "read_pages lib en e j w = Some (Inr t)" "reads_ok lib h" "session_of j h \<or> sj_state j \<noteq> processing"
  shows "document_effect lib en h e j w t"
  using read_pages_effect_raw[OF assms(1)] assms(2,3) by blast

lemma prepare_encoder_effect:
  assumes "prepare_encoder os j e = Inr (j1, e1)"
  shows "settings j1 = settings j \<and> sj_session j1 = sj_session j \<and> sj_imagesCompleted j1 = sj_imagesCompleted j \<and>
    (sj_state j1 = sj_state j \<or> sj_state j1 = aborted)"
  using assms by (auto simp: prepare_encoder_def Let_def bind_result_Inr_iff split: option.splits if_splits)

lemma finishTransfer_cases:
  fixes en :: "'l encoder_env"
  assumes "finishTransfer lib en sc os j w = Some (Inr (os', j', w'))" "sj_state j = processing"
  obtains
    (unsupported) "make_encoder sc (j\<lparr>sj_lastActive := now lib w\<rparr>) = (Inr None :: 'l any_encoder option result)"
      "os' = os" "w' = w"
      "j' = (set_state aborted PWG_UNSUPPORTED_DOCUMENT_FORMAT j)\<lparr>sj_lastActive := now lib w\<rparr>"
  | (document) e j1 e1 e2 j2 e3 where
      "make_encoder sc (j\<lparr>sj_lastActive := now lib w\<rparr>) = Inr (Some e)"
      "prepare_encoder os (j\<lparr>sj_lastActive := now lib w\<rparr>) e = Inr (j1, e1)"
      "read_pages lib en e1 j1 w = Some (Inr (e2, j2, w'))" "any_endDocument en e2 = Inr e3"
      "os' = the (any_dest e3)" "j' = j2\<lparr>sj_lastActive := now lib w'\<rparr>"
proof -
  let ?j = "j\<lparr>sj_lastActive := now lib w\<rparr>"
  let ?m = "make_encoder sc ?j :: 'l any_encoder option result"
  consider (err) x where "?m = Inl x" | (none) "?m = Inr None" | (some) e where "?m = Inr (Some e)"
    by (cases ?m) (metis option.exhaust)+
  then show thesis
  proof cases
    case err
    with assms show ?thesis by (simp add: finishTransfer_def Let_def isProcessing_def)
  next
    case none
    with assms have "os' = os" "w' = w" "j' = (set_state aborted PWG_UNSUPPORTED_DOCUMENT_FORMAT j)\<lparr>sj_lastActive := now lib w\<rparr>"
      by (auto simp: finishTransfer_def Let_def isProcessing_def set_state_def)
    with none show ?thesis by (rule unsupported)
  next
    case (some e)
    show ?thesis
    proof (cases "prepare_encoder os ?j e")
      case (Inl x)
      with some assms show ?thesis by (simp add: finishTransfer_def Let_def isProcessing_def)
    next
      case (Inr p)
      obtain j1 e1 where p: "p = (j1, e1)" by (cases p)
      from some Inr p assms obtain r where r: "read_pages lib en e1 j1 w = Some r"
        "bind_result r (\<lambda>(e2, j2, w2). bind_result (any_endDocument en e2) (\<lambda>e3.
           Inr (the (any_dest e3), j2\<lparr>sj_lastActive := now lib w2\<rparr>, w2))) = Inr (os', j', w')"
        by (auto simp: finishTransfer_def Let_def isProcessing_def)
      from r(2) obtain e2 j2 e3 where "r = Inr (e2, j2, w')" "any_endDocument en e2 = Inr e3"
        "os' = the (any_dest e3)" "j' = j2\<lparr>sj_lastActive := now lib w'\<rparr>"
        by (auto simp: bind_result_Inr_iff)
      with some Inr p r(1) show ?thesis by (intro document) simp_all
    qed
  qed
qed

subsection \<open>Lines and images of a document\<close>

lemma base_truncate [simp]: "base (encoder.truncate x) = base x"
  by (simp add: base_def has_dest_def encoder.defs)

lemma base_advance_line: "base a = base b \<Longrightarrow> base (advance_line a) = base (advance_line b)"
  by (auto simp: base_def advance_line_def has_dest_def)

lemma advance_line_truncate: "base (advance_line (encoder.truncate x)) = base (advance_line x)"
  by (rule base_advance_line) simp

lemma any_writeLine_base:
  assumes "any_writeLine en p e = Inr e'"
  shows "base (any_base e') = base (advance_line (any_base e))"
proof (cases e)
  case (E_Pdf x)
  with assms obtain y where "writeLine (pdf_hooks (en_now en) (en_uuid en)) p x = Inr y" "e' = E_Pdf y"
    by (auto simp: any_writeLine_def map_encoder_def bind_result_Inr_iff)
  with pdf.writeLine_base E_Pdf show ?thesis by (fastforce simp: any_base_def advance_line_truncate)
next
  case (E_Png x)
  with assms obtain y where "writeLine (png_hooks (en_png en)) p x = Inr y" "e' = E_Png y"
    by (auto simp: any_writeLine_def map_encoder_def bind_result_Inr_iff)
  with png.writeLine_base E_Png show ?thesis by (fastforce simp: any_base_def advance_line_truncate)
next
  case (E_Jpeg x)
  with assms obtain y where "writeLine (jpeg_hooks (en_jpeg en)) p x = Inr y" "e' = E_Jpeg y"
    by (auto simp: any_writeLine_def map_encoder_def bind_result_Inr_iff)
  with jpeg.writeLine_base E_Jpeg show ?thesis by (fastforce simp: any_base_def advance_line_truncate)
qed

lemma any_flush_base [simp]: "base (any_base (any_flush e)) = base (any_base e)"
  by (cases e) (auto simp: any_flush_def any_base_def base_def has_dest_def encoder.defs)

lemma base_funpow: "base a = base b \<Longrightarrow> base ((advance_line ^^ n) a) = base ((advance_line ^^ n) b)"
  by (induction n) (auto intro: base_advance_line)

lemma send_lines_base:
  "send_lines en ls e = Inr e' \<Longrightarrow> base (any_base e') = base ((advance_line ^^ length ls) (any_base e))"
proof (induction ls arbitrary: e)
  case (Cons l ls)
  then obtain e1 where w: "any_writeLine en l e = Inr e1" "send_lines en ls (any_flush e1) = Inr e'"
    by (auto simp: bind_result_Inr_iff)
  have "base (any_base (any_flush e1)) = base (advance_line (any_base e))"
    using any_writeLine_base[OF w(1)] by simp
  from base_funpow[OF this, of "length ls"] Cons.IH[OF w(2)] show ?case by (simp add: funpow_swap1)
qed simp

lemma any_endDocument_base: "any_endDocument en e = Inr e' \<Longrightarrow> base (any_base e') = base (any_base e)"
  by (cases e) (auto simp: any_endDocument_def map_encoder_def any_base_def bind_result_Inr_iff
      dest!: pdf.endDocument_base png.endDocument_base jpeg.endDocument_base)

lemma send_lines_append:
  "send_lines en (a @ b) e = bind_result (send_lines en a e) (send_lines en b)"
proof (induction a arbitrary: e)
  case (Cons l a)
  then show ?case by (cases "any_writeLine en l e") simp_all
qed simp

lemma document_sent_lines:
  "document_sent lib en h j k e e' \<Longrightarrow> \<exists>ls. send_lines en ls e = Inr e'"
proof (induction rule: document_sent.induct)
  case (sent_nothing e)
  show ?case by (rule exI[of _ "[]"]) simp
next
  case (sent_page n e w e1 k e2)
  then obtain ls ls' where "send_lines en ls e = Inr e1" "send_lines en ls' e1 = Inr e2"
    by (auto simp: page_sent_def)
  then show ?case by (intro exI[of _ "ls @ ls'"]) (simp add: send_lines_append)
qed

lemma any_configure_ok:
  assumes "ie_currentLine (any_base e) = 0" "ie_currentImage (any_base e) = 0"
  obtains e' where "any_configure dpi cs p os e = Inr e'" "ie_height (any_base e') = sp_lines p"
    "ie_currentLine (any_base e') = 0" "ie_currentImage (any_base e') = 0" "any_dest e' = Some os"
proof -
  note c = configure_ok[where dpi = dpi and cs = cs and w = "sp_pixels_per_line p" and h = "sp_lines p"
      and depth = "sp_depth p" and os = os]
  show thesis
  proof (cases e)
    case (E_Pdf x)
    with c[of x] assms that show ?thesis
      by (auto simp: any_configure_def map_encoder_def any_base_def any_dest_def encoder.defs Let_def)
  next
    case (E_Png x)
    with c[of x] assms that show ?thesis
      by (auto simp: any_configure_def map_encoder_def any_base_def any_dest_def encoder.defs Let_def)
  next
    case (E_Jpeg x)
    with c[of x] assms that show ?thesis
      by (auto simp: any_configure_def map_encoder_def any_base_def any_dest_def encoder.defs Let_def)
  qed
qed

lemma make_encoder_fresh:
  assumes "make_encoder sc j = Inr (Some e)"
  shows "ie_currentLine (any_base e) = 0 \<and> ie_currentImage (any_base e) = 0"
  using assms
  by (auto simp: make_encoder_def setGamma_def setQualityPercent_def onParamChange_def raster_init_def pdf_init_def
      encoder_init_def any_base_def encoder.defs bind_result_Inr_iff Let_def split: if_splits)

end
