(* ===== verification/Uuid.thy ===== *)
theory Uuid
  imports AirSane_Prelude "HOL-Library.Word"
begin

unbundle bit_operations_syntax

text \<open>
  \<open>src/basic/uuid.cpp\<close>: UUIDs that are derived from strings, on a little-endian machine where
  \<open>size_t\<close> has 64 bits. The hash function of the C++ library (\<open>std::hash\<close>) is the parameter
  \<open>hashfn\<close>; the machine id \<open>mid\<close> is what \<open>getMachineId\<close> finds. The 16 bytes are a list of characters.
\<close>

text \<open>
  The machine id is the first line of \<open>/etc/machine-id\<close>, whose content is \<open>file\<close> when it can be opened, else what
  \<open>gethostname\<close> stores (up to 1023 characters, \<open>None\<close> when it fails).
\<close>

definition getMachineId :: "string option \<Rightarrow> string option \<Rightarrow> string" where
  "getMachineId file host =
     (let id = (case Option.bind file (getline chr_nl) of None \<Rightarrow> [] | Some (line, _) \<Rightarrow> line)
      in if id \<noteq> [] then id else (case host of None \<Rightarrow> [] | Some h \<Rightarrow> take 1023 h))"

lemma getMachineId_first_line:
  "line \<noteq> [] \<Longrightarrow> chr_nl \<notin> set line \<Longrightarrow> getMachineId (Some (line @ chr_nl # rest)) host = line"
  by (simp add: getMachineId_def str_simps)

lemma getMachineId_host: "file \<in> {None, Some [], Some (chr_nl # rest)} \<Longrightarrow> getMachineId file (Some h) = take 1023 h"
  by (auto simp: getMachineId_def getline_def)

definition byte_xor :: "char \<Rightarrow> char \<Rightarrow> char" where
  "byte_xor a b = char_of ((of_char a :: nat) XOR of_char b)"

text \<open>The bytes of the union \<open>hash\<close>.\<close>

definition hash_bytes :: "64 word \<Rightarrow> string" where
  "hash_bytes h = map (\<lambda>i. char_of (unat (drop_bit (8 * i) h) mod 256)) [0..<8]"

definition xor_at :: "string \<Rightarrow> nat \<Rightarrow> string \<Rightarrow> string" where
  "xor_at s pos bs = take pos s @ map2 byte_xor (drop pos s) bs @ drop (pos + length bs) s"

lemma length_hash_bytes [simp]: "length (hash_bytes h) = 8"
  by (simp add: hash_bytes_def)

lemma length_xor_at [simp]: "length (xor_at s pos bs) = length s"
  by (simp add: xor_at_def)

function scramble :: "(string \<Rightarrow> 64 word) \<Rightarrow> nat \<Rightarrow> string \<Rightarrow> string" where
  "scramble hashfn pos s =
     (if pos < length s then scramble hashfn (pos + 8) (xor_at s pos (hash_bytes (hashfn s))) else s)"
  by pat_completeness auto
termination
  by (relation "measure (\<lambda>(h, pos, s). length s - pos)") auto

function fill_up :: "(string \<Rightarrow> 64 word) \<Rightarrow> string \<Rightarrow> string" where
  "fill_up hashfn s = (if length s < 16 then fill_up hashfn (s @ hash_bytes (hashfn s)) else s)"
  by pat_completeness auto
termination
  by (relation "measure (\<lambda>(h, s). 16 - length s)") auto

declare scramble.simps [simp del] fill_up.simps [simp del]

text \<open>\<open>mData[i % sizeof(mData)] ^= s[i]\<close> for all \<open>i\<close> from \<open>k\<close> on.\<close>

fun fold_bytes :: "nat \<Rightarrow> string \<Rightarrow> string \<Rightarrow> string" where
  "fold_bytes k [] d = d"
| "fold_bytes k (c # cs) d = fold_bytes (k + 1) cs (d[k mod 16 := byte_xor (d ! (k mod 16)) c])"

definition mark_byte :: "nat \<Rightarrow> nat \<Rightarrow> char \<Rightarrow> char" where
  "mark_byte keep mark c = char_of (((of_char c :: nat) AND keep) OR mark)"

text \<open>The version nibble and the variant bits.\<close>

definition mark_uuid :: "nat \<Rightarrow> string \<Rightarrow> string" where
  "mark_uuid version d =
     (let d1 = d[6 := mark_byte 0x0F version (d ! 6)] in d1[8 := mark_byte 0x3F 0x80 (d1 ! 8)])"

definition Uuid_nil :: string where
  "Uuid_nil = replicate 16 (CHR 0x00)"

definition initFromString :: "(string \<Rightarrow> 64 word) \<Rightarrow> string \<Rightarrow> string \<Rightarrow> string" where
  "initFromString hashfn mid inStringData =
     mark_uuid 0x50 (fold_bytes 0 (fill_up hashfn (scramble hashfn 0 (mid @ inStringData))) Uuid_nil)"

text \<open>\<open>Uuid::Random\<close> with the bytes that \<open>/dev/random\<close> delivers; a short read leaves zeros.\<close>

definition Uuid_Random :: "string \<Rightarrow> string" where
  "Uuid_Random bytes = mark_uuid 0x40 (take 16 bytes @ drop (length bytes) Uuid_nil)"

definition printByteGroup :: "string \<Rightarrow> nat \<Rightarrow> nat \<Rightarrow> string" where
  "printByteGroup d b e =
     concat (map (\<lambda>c. [digit_char (of_char c div 16), digit_char (of_char c mod 16)]) (drop b (take e d)))"

definition Uuid_toString :: "string \<Rightarrow> string" where
  "Uuid_toString d =
     printByteGroup d 0 4 @ ''-'' @ printByteGroup d 4 6 @ ''-'' @ printByteGroup d 6 8 @ ''-'' @
     printByteGroup d 8 10 @ ''-'' @ printByteGroup d 10 16"

text \<open>\<open>Uuid(s)\<close> and \<open>Uuid(s, time, rand)\<close>, printed.\<close>

definition uuid_of :: "(string \<Rightarrow> 64 word) \<Rightarrow> string \<Rightarrow> string \<Rightarrow> string" where
  "uuid_of hashfn mid s = Uuid_toString (initFromString hashfn mid s)"

subsection \<open>Length, version and variant\<close>

lemma length_fold_bytes [simp]: "length (fold_bytes k s d) = length d"
  by (induction k s d rule: fold_bytes.induct) auto

lemma length_mark_uuid [simp]: "length (mark_uuid v d) = length d"
  by (simp add: mark_uuid_def Let_def)

lemma length_initFromString [simp]: "length (initFromString hashfn mid s) = 16"
  by (simp add: initFromString_def Uuid_nil_def)

lemma length_Uuid_Random [simp]: "length (Uuid_Random bytes) = 16"
  by (simp add: Uuid_Random_def Uuid_nil_def)

lemma mark_byte_version:
  assumes "v \<in> {0x40, 0x50}"
  shows "(of_char (mark_byte 0x0F v c) :: nat) div 16 = v div 16"
proof -
  have "(of_char c :: nat) AND 0x0F = of_char c mod 2 ^ 4"
    by (subst take_bit_eq_mod[symmetric]) (simp add: take_bit_eq_mask mask_eq_exp_minus_1)
  moreover have "(n OR 0x40) div 16 = (4 :: nat) \<and> (n OR 0x50) div 16 = (5 :: nat) \<and> n OR 0x40 < 256 \<and> n OR 0x50 < 256"
    if "n < 16" for n :: nat
    using that by (subgoal_tac "n \<in> {0,1,2,3,4,5,6,7,8,9,10,11,12,13,14,15}") (auto, presburger)
  ultimately show ?thesis using assms by (auto simp: mark_byte_def)
qed

lemma mark_byte_variant: "(of_char (mark_byte 0x3F 0x80 c) :: nat) div 16 \<in> {8, 9, 10, 11}"
proof -
  have "(of_char c :: nat) AND 0x3F = of_char c mod 2 ^ 6"
    by (subst take_bit_eq_mod[symmetric]) (simp add: take_bit_eq_mask mask_eq_exp_minus_1)
  moreover have "\<forall>n \<in> set [0..<64]. ((n OR 0x80) mod 256) div 16 \<in> {8, 9, 10, 11 :: nat}" by code_simp
  then have "((n mod 64 OR 0x80) mod 256) div 16 \<in> {8, 9, 10, 11}" for n :: nat by simp
  ultimately show ?thesis by (simp add: mark_byte_def)
qed

definition hex_pair :: "char \<Rightarrow> string" where
  "hex_pair c = [digit_char (of_char c div 16), digit_char (of_char c mod 16)]"

lemma nibble_bounds: "(of_char c :: nat) div 16 < 16" "(of_char c :: nat) mod 16 < 16"
  by (rule less_mult_imp_div_less) simp_all

lemma digit_char_inj: "m < 16 \<Longrightarrow> n < 16 \<Longrightarrow> digit_char m = digit_char n \<Longrightarrow> m = n"
proof -
  assume a: "m < 16" "n < 16" "digit_char m = digit_char n"
  have "Some m = digit_val (digit_char m)" using a(1) by (subst digit_val_char) simp_all
  also have "\<dots> = Some n" unfolding a(3) using a(2) by (subst digit_val_char) simp_all
  finally show "m = n" by (simp only: option.inject)
qed

lemma hex_pair_inj: "hex_pair a = hex_pair b \<longleftrightarrow> a = b"
proof
  assume h: "hex_pair a = hex_pair b"
  have "(of_char a :: nat) div 16 = of_char b div 16"
    by (rule digit_char_inj[OF nibble_bounds(1) nibble_bounds(1)]) (use h in \<open>simp only: hex_pair_def list.inject\<close>)
  moreover have "(of_char a :: nat) mod 16 = of_char b mod 16"
    by (rule digit_char_inj[OF nibble_bounds(2) nibble_bounds(2)]) (use h in \<open>simp only: hex_pair_def list.inject\<close>)
  ultimately have "(of_char a :: nat) = of_char b" by (metis div_mult_mod_eq)
  then show "a = b" by (simp only: of_char_eq_iff)
qed simp

definition lower_hex :: string where
  "lower_hex = ''0123456789abcdef''"

lemma digit_char_lower_hex: "n < 16 \<Longrightarrow> digit_char n \<in> set lower_hex"
proof -
  have "\<forall>n \<in> set [0..<16]. digit_char n \<in> set lower_hex" by code_simp
  then show "n < 16 \<Longrightarrow> digit_char n \<in> set lower_hex" by simp
qed

lemma digit_char_not_hyphen: "n < 16 \<Longrightarrow> digit_char n \<noteq> CHR ''-''"
  using digit_char_lower_hex[of n] by (auto simp: lower_hex_def)

lemma length_16_conv:
  assumes "length d = 16"
  obtains a0 a1 a2 a3 a4 a5 a6 a7 a8 a9 a10 a11 a12 a13 a14 a15
  where "d = [a0, a1, a2, a3, a4, a5, a6, a7, a8, a9, a10, a11, a12, a13, a14, a15]"
  using assms by (auto simp: eval_nat_numeral length_Suc_conv)

lemma Uuid_toString_16:
  "Uuid_toString [a0, a1, a2, a3, a4, a5, a6, a7, a8, a9, a10, a11, a12, a13, a14, a15] =
     hex_pair a0 @ hex_pair a1 @ hex_pair a2 @ hex_pair a3 @ ''-'' @ hex_pair a4 @ hex_pair a5 @ ''-'' @
     hex_pair a6 @ hex_pair a7 @ ''-'' @ hex_pair a8 @ hex_pair a9 @ ''-'' @ hex_pair a10 @ hex_pair a11 @
     hex_pair a12 @ hex_pair a13 @ hex_pair a14 @ hex_pair a15"
  by (simp add: Uuid_toString_def printByteGroup_def hex_pair_def)

text \<open>The form of a printed UUID with its version digit and one of the four variant digits.\<close>

definition uuid_form :: "char \<Rightarrow> string \<Rightarrow> bool" where
  "uuid_form version s \<longleftrightarrow> length s = 36 \<and>
     (\<forall>i \<in> {0..<36}. if i \<in> {8, 13, 18, 23} then s ! i = CHR ''-'' else s ! i \<in> set lower_hex) \<and>
     s ! 14 = version \<and> s ! 19 \<in> {CHR ''8'', CHR ''9'', CHR ''a'', CHR ''b''}"

lemma upt_36: "[0..<36] = [0, 1, 2, 3, 4, 5, 6, 7, 8, 9, 10, 11, 12, 13, 14, 15, 16, 17, 18, 19, 20, 21, 22, 23, 24, 25,
     26, 27, 28, 29, 30, 31, 32, 33, 34, 35]"
  by code_simp

lemma marked_form:
  assumes "length d = 16" "(of_char (d ! 6) :: nat) div 16 = v" "(of_char (d ! 8) :: nat) div 16 \<in> {8, 9, 10, 11}"
  shows "uuid_form (digit_char v) (Uuid_toString d)"
proof -
  obtain a0 a1 a2 a3 a4 a5 a6 a7 a8 a9 a10 a11 a12 a13 a14 a15 where
    d: "d = [a0, a1, a2, a3, a4, a5, a6, a7, a8, a9, a10, a11, a12, a13, a14, a15]"
    using length_16_conv[OF assms(1)] .
  have h: "digit_char (of_char c div 16) \<in> set lower_hex \<and> digit_char (of_char c mod 16) \<in> set lower_hex" for c :: char
    using nibble_bounds[of c] by (simp add: digit_char_lower_hex)
  have 8: "digit_char 8 = CHR ''8''" "digit_char 9 = CHR ''9''" "digit_char 10 = CHR ''a''" "digit_char 11 = CHR ''b''"
    by code_simp+
  have "digit_char (of_char a8 div 16) \<in> {CHR ''8'', CHR ''9'', CHR ''a'', CHR ''b''}"
    using assms(3) by (auto simp: d 8)
  moreover have "v = of_char a6 div 16" using assms(2) by (simp add: d)
  ultimately show ?thesis using h
    unfolding uuid_form_def atLeastLessThan_upt upt_36 d Uuid_toString_16 by (simp add: hex_pair_def)
qed

lemma mark_uuid_bytes:
  assumes "length d = 16" "v \<in> {0x40, 0x50}"
  shows "(of_char (mark_uuid v d ! 6) :: nat) div 16 = v div 16"
    "(of_char (mark_uuid v d ! 8) :: nat) div 16 \<in> {8, 9, 10, 11}"
  using assms mark_byte_version[OF assms(2)] mark_byte_variant by (simp_all add: mark_uuid_def Let_def)

lemma uuid_of_form: "uuid_form (CHR ''5'') (uuid_of hashfn mid s)"
proof -
  let ?d = "fold_bytes 0 (fill_up hashfn (scramble hashfn 0 (mid @ s))) Uuid_nil"
  have n: "length ?d = 16" by (simp add: Uuid_nil_def)
  have "digit_char (0x50 div 16) = CHR ''5''" by code_simp
  then show ?thesis
    using marked_form[of "mark_uuid 0x50 ?d" "0x50 div 16"] mark_uuid_bytes[OF n, of "0x50"] n
    by (simp add: uuid_of_def initFromString_def)
qed

lemma uuid_random_form: "uuid_form (CHR ''4'') (Uuid_toString (Uuid_Random bytes))"
proof -
  let ?r = "take 16 bytes @ drop (length bytes) Uuid_nil"
  have m: "length ?r = 16" by (simp add: Uuid_nil_def)
  have "digit_char (0x40 div 16) = CHR ''4''" by code_simp
  then show ?thesis
    using marked_form[of "mark_uuid 0x40 ?r" "0x40 div 16"] mark_uuid_bytes[OF m, of "0x40"] m
    by (simp add: Uuid_Random_def)
qed

lemma uuid_form_chars:
  assumes "uuid_form v s" "c \<in> set s"
  shows "c \<in> set lower_hex \<or> c = CHR ''-''"
proof -
  obtain i where i: "i < 36" "s ! i = c" using assms by (auto simp: uuid_form_def in_set_conv_nth)
  then have "if i \<in> {8, 13, 18, 23} then s ! i = CHR ''-'' else s ! i \<in> set lower_hex"
    using assms(1) unfolding uuid_form_def by (meson atLeastLessThan_iff le0)
  with i show ?thesis by (auto split: if_splits)
qed

subsection \<open>Properties\<close>

text \<open>C40: Every UUID that the server makes has the standard form: 32 lower case hexadecimal digits in five
  groups of 8, 4, 4, 4 and 12, and the variant digit. Those made from strings carry version 5, the random
  ones version 4, whatever the machine id, the string, the hash function and the random bytes are.\<close>

theorem uuid_well_formed:
  "uuid_form (CHR ''5'') (uuid_of hashfn mid s) \<and> uuid_form (CHR ''4'') (Uuid_toString (Uuid_Random bytes))"
proof
  show "uuid_form (CHR ''5'') (uuid_of hashfn mid s)" by (rule uuid_of_form)
  show "uuid_form (CHR ''4'') (Uuid_toString (Uuid_Random bytes))" by (rule uuid_random_form)
qed

text \<open>Different UUIDs are printed differently, so the printed form can serve as key.\<close>

theorem uuid_print_injective:
  assumes "length d = 16" "length e = 16" "Uuid_toString d = Uuid_toString e"
  shows "d = e"
proof -
  obtain a0 a1 a2 a3 a4 a5 a6 a7 a8 a9 a10 a11 a12 a13 a14 a15 where
    d: "d = [a0, a1, a2, a3, a4, a5, a6, a7, a8, a9, a10, a11, a12, a13, a14, a15]"
    using length_16_conv[OF assms(1)] .
  obtain b0 b1 b2 b3 b4 b5 b6 b7 b8 b9 b10 b11 b12 b13 b14 b15 where
    e: "e = [b0, b1, b2, b3, b4, b5, b6, b7, b8, b9, b10, b11, b12, b13, b14, b15]"
    using length_16_conv[OF assms(2)] .
  have l: "length (hex_pair a) = length (hex_pair b)" for a b by (simp add: hex_pair_def)
  from assms(3) show ?thesis
    unfolding d e Uuid_toString_16 by (simp add: append_eq_append_conv[OF disjI1, OF l] hex_pair_inj)
qed

theorem uuid_print_injective_witness:
  "Uuid_toString (initFromString (\<lambda>s. of_nat (length s)) ''m'' ''a'') \<noteq> Uuid_toString (Uuid_Random ''xyz'')"
proof
  assume a: "Uuid_toString (initFromString (\<lambda>s. of_nat (length s)) ''m'' ''a'') = Uuid_toString (Uuid_Random ''xyz'')"
  have "initFromString (\<lambda>s. of_nat (length s)) ''m'' ''a'' = Uuid_Random ''xyz''"
    by (rule uuid_print_injective[OF _ _ a]) simp_all
  moreover have "initFromString (\<lambda>s. of_nat (length s)) ''m'' ''a'' \<noteq> Uuid_Random ''xyz''" by code_simp
  ultimately show False by simp
qed

end
