(* ===== verification/ScannerCaps.thy ===== *)
theory ScannerCaps
  imports ScanJob Uuid
begin

text \<open>
  The capabilities of a scanner, \<open>src/server/scanner.cpp\<close>: names of sources and modes, resolutions, the
  stable name, initialisation from the options of the SANE device, and the eSCL documents.

  The members that \<open>init2\<close> leaves uninitialised when it fails early are optional values. A \<open>double\<close> that is
  out of range for \<open>int\<close> has an undetermined value after conversion, here \<open>None\<close>; where such a value is
  used the result is \<open>ConversionUB\<close>.
\<close>

subsection \<open>Helpers\<close>

definition xml_char :: "char \<Rightarrow> string" where
  "xml_char c =
     (if c = chr_dquote then ''&quot;''
      else if c = chr_squote then ''&apos;''
      else if c = CHR ''&'' then ''&amp;''
      else if c = CHR ''<'' then ''&lt;''
      else if c = CHR ''>'' then ''&gt;''
      else [c])"

definition xmlEscape :: "string \<Rightarrow> string" where
  "xmlEscape s = concat (map xml_char s)"

definition colorMode :: "string \<Rightarrow> int \<Rightarrow> string" where
  "colorMode colorSpace bitDepth =
     (if colorSpace = ''grayscale'' then ''Grayscale'' @ dec_int bitDepth
      else if colorSpace = ''color'' then ''RGB'' @ dec_int (3 * bitDepth)
      else [])"

text \<open>The first of the candidates that is among the names; else the first name with a property.\<close>

fun first_of :: "string list \<Rightarrow> string list \<Rightarrow> string option" where
  "first_of [] names = None"
| "first_of (c # cs) names = (if c \<in> set names then Some c else first_of cs names)"

definition or_find :: "string option \<Rightarrow> (string \<Rightarrow> bool) \<Rightarrow> string list \<Rightarrow> string" where
  "or_find r P names = (case r of Some n \<Rightarrow> n
     | None \<Rightarrow> (case List.find P names of Some n \<Rightarrow> n | None \<Rightarrow> []))"

definition contains :: "string \<Rightarrow> string \<Rightarrow> bool" where
  "contains p s = (find_str p s \<noteq> None)"

definition findFlatbedName :: "string list \<Rightarrow> string" where
  "findFlatbedName names =
     or_find (first_of [''Flatbed'', ''FlatBed'', ''Platen'', ''Auto'', ''Normal''] names) (\<lambda>_. False) names"

definition findAdfSimplexName :: "string list \<Rightarrow> string" where
  "findAdfSimplexName names =
     or_find (first_of [''Automatic Document Feeder'', ''ADF Simplex'', ''ADF Front'', ''ADF''] names)
       (contains ''Automatic Document Feeder'') names"

definition findAdfDuplexName :: "string list \<Rightarrow> string" where
  "findAdfDuplexName names =
     or_find (first_of [''ADF Duplex''] names)
       (\<lambda>n. contains ''Automatic Document Feeder'' n \<and> contains ''Duplex'' n) names"

definition findGrayName :: "string list \<Rightarrow> string" where
  "findGrayName names = or_find (first_of [''True Gray'', ''Gray''] names) (contains ''Gray'') names"

definition findColorName :: "string list \<Rightarrow> string" where
  "findColorName names = or_find (first_of [''Color''] names) (contains ''Color'') names"

definition roundToNearestStep :: "dbl \<Rightarrow> dbl \<Rightarrow> dbl \<Rightarrow> dbl" where
  "roundToNearestStep v mn step = dadd mn (dmul (dfloor (ddiv (dsub v mn) step)) step)"

definition push_greater :: "dbl \<Rightarrow> dbl list \<Rightarrow> dbl list" where
  "push_greater r2 rs = (if dlt (last rs) r2 then rs @ [r2] else rs)"

partial_function (option) resolution_loop :: "dbl \<Rightarrow> dbl \<Rightarrow> dbl \<Rightarrow> dbl \<Rightarrow> dbl list \<Rightarrow> dbl list option" where
  [code]: "resolution_loop mn mx step r rs =
     (let r2 = roundToNearestStep r mn step in
      if dle r2 mx then resolution_loop mn mx step (dmul r (Fin 2)) (push_greater r2 rs) else Some rs)"

definition discretizeResolutions :: "dbl \<Rightarrow> dbl \<Rightarrow> dbl \<Rightarrow> dbl list option" where
  "discretizeResolutions mn mx step0 =
     (let step = (if dlt step0 (Fin 1) then Fin 1 else step0) in
      map_option (push_greater (roundToNearestStep mx mn step)) (resolution_loop mn mx step (Fin 75) [mn]))"

subsection \<open>The scanner\<close>

record input_source =
  is_sourceName :: string
  is_supportedIntents :: "string list"
  is_minWidth :: dbl
  is_maxWidth :: dbl
  is_minHeight :: dbl
  is_maxHeight :: dbl
  is_maxPhysicalWidth :: dbl
  is_maxPhysicalHeight :: dbl
  is_maxBits :: "int option"

record scanner =
  sc_info :: device_info
  sc_makeAndModel :: string
  sc_stableUniqueName :: string
  sc_uuid :: string
  sc_publishedName :: string
  sc_uri :: string
  sc_adminUrl :: string
  sc_iconUrl :: string
  sc_minResDpi :: "int option"
  sc_maxResDpi :: "int option"
  sc_resStepDpi :: "int option"
  sc_maxWidthPx300dpi :: "dbl option"
  sc_maxHeightPx300dpi :: "dbl option"
  sc_discreteResolutions :: "dbl list"
  sc_documentFormats :: "string list"
  sc_txtColorSpaces :: "string list"
  sc_colorModes :: "string list"
  sc_inputSources :: "string list"
  sc_platen :: "input_source option"
  sc_adfSimplex :: "input_source option"
  sc_adfDuplex :: "input_source option"
  sc_grayScanModeName :: string
  sc_colorScanModeName :: string
  sc_deviceOptions :: options
  sc_jobs :: "(string \<times> scan_job) list"
  sc_temporaryAdfStatus :: sane_status
  sc_error :: "string option"

definition stable_prefix :: "device_info \<Rightarrow> string \<Rightarrow> string" where
  "stable_prefix info mm =
     (case find_str '':'' (di_name info) of
        None \<Rightarrow> di_name info @ '':''
      | Some pos \<Rightarrow> take (pos + 1) (di_name info)) @ mm @ '':''"

text \<open>The numbers are tried in turn until no other instance has the name.\<close>

lemma finite_suffixes: "finite {k. pre @ dec_nat k \<in> set others}"
proof -
  have "inj_on (\<lambda>k. pre @ dec_nat k) {k. pre @ dec_nat k \<in> set others}" by (auto simp: inj_on_def dec_nat_inj)
  moreover have "finite ((\<lambda>k. pre @ dec_nat k) ` {k. pre @ dec_nat k \<in> set others})"
    by (rule finite_subset[of _ "set others"]) auto
  ultimately show ?thesis by (simp add: finite_image_iff)
qed

function unique_name :: "string \<Rightarrow> string list \<Rightarrow> nat \<Rightarrow> string" where
  "unique_name pre others i =
     (if pre @ dec_nat (i + 1) \<in> set others then unique_name pre others (i + 1) else pre @ dec_nat (i + 1))"
  by pat_completeness auto
termination
proof (relation "measure (\<lambda>(pre, others, i). card {k. i < k \<and> pre @ dec_nat k \<in> set others})", goal_cases)
  case (2 pre others i)
  have "{k. i + 1 < k \<and> pre @ dec_nat k \<in> set others} \<subset> {k. i < k \<and> pre @ dec_nat k \<in> set others}"
    using 2 by auto
  moreover have "finite {k. i < k \<and> pre @ dec_nat k \<in> set others}"
    by (rule finite_subset[OF _ finite_suffixes[of pre others]]) auto
  ultimately show ?case by (simp add: psubset_card_mono)
qed simp

declare unique_name.simps [simp del]

definition generateStableUniqueName :: "string list \<Rightarrow> device_info \<Rightarrow> string \<Rightarrow> string" where
  "generateStableUniqueName others info mm = unique_name (stable_prefix info mm) others 0"

text \<open>The constructor; \<open>others\<close> are the names of the other instances in \<open>sInstances\<close>.\<close>

definition scanner_init ::
  "(string \<Rightarrow> 64 word) \<Rightarrow> string \<Rightarrow> string list \<Rightarrow> device_info \<Rightarrow> scanner" where
  "scanner_init hashfn mid others info =
     (let mm = di_vendor info @ '' '' @ di_model info;
          name = generateStableUniqueName others info mm
      in \<lparr>sc_info = info, sc_makeAndModel = mm, sc_stableUniqueName = name, sc_uuid = uuid_of hashfn mid name,
          sc_publishedName = mm, sc_uri = [], sc_adminUrl = [], sc_iconUrl = [], sc_minResDpi = None,
          sc_maxResDpi = None, sc_resStepDpi = None, sc_maxWidthPx300dpi = None, sc_maxHeightPx300dpi = None,
          sc_discreteResolutions = [], sc_documentFormats = [], sc_txtColorSpaces = [], sc_colorModes = [],
          sc_inputSources = [], sc_platen = None, sc_adfSimplex = None, sc_adfDuplex = None,
          sc_grayScanModeName = [], sc_colorScanModeName = [], sc_deviceOptions = default_options,
          sc_jobs = [], sc_temporaryAdfStatus = GOOD, sc_error = None\<rparr>)"

definition conv_int :: "dbl \<Rightarrow> int option" where
  "conv_int d = (case int_of_dbl d of Inl _ \<Rightarrow> None | Inr i \<Rightarrow> Some i)"

definition use_int :: "int option \<Rightarrow> int result" where
  "use_int i = (case i of None \<Rightarrow> Inl ConversionUB | Some n \<Rightarrow> Inr n)"

subsection \<open>Input sources\<close>

definition new_source :: "string \<Rightarrow> int option \<Rightarrow> input_source" where
  "new_source name bits =
     \<lparr>is_sourceName = name, is_supportedIntents = [], is_minWidth = Fin 0, is_maxWidth = Fin 216,
      is_minHeight = Fin 0, is_maxHeight = Fin 297, is_maxPhysicalWidth = Fin 216,
      is_maxPhysicalHeight = Fin 297, is_maxBits = bits\<rparr>"

definition scale_source :: "dbl \<Rightarrow> input_source \<Rightarrow> input_source" where
  "scale_source f s =
     (let g = (\<lambda>v. dfloor (dadd (dmul v f) (Fin (1 / 2)))) in
      s\<lparr>is_minWidth := g (is_minWidth s), is_maxWidth := g (is_maxWidth s), is_minHeight := g (is_minHeight s),
        is_maxHeight := g (is_maxHeight s), is_maxPhysicalWidth := g (is_maxPhysicalWidth s),
        is_maxPhysicalHeight := g (is_maxPhysicalHeight s)\<rparr>)"

definition scan_area :: "'s sane_lib \<Rightarrow> 's opts \<Rightarrow> input_source \<Rightarrow> (string option \<times> sane_unit \<times> input_source)" where
  "scan_area lib st s =
     (let os = fst st; w = snd st;
          tl_x = option_ref os SANE_NAME_SCAN_TL_X; tl_y = option_ref os SANE_NAME_SCAN_TL_Y;
          br_x = option_ref os SANE_NAME_SCAN_BR_X; br_y = option_ref os SANE_NAME_SCAN_BR_Y;
          u = option_unit lib tl_x w in
      if is_null tl_x \<or> is_null tl_y \<or> is_null br_x \<or> is_null br_y then (None, U_MM, s)
      else if option_unit lib tl_y w \<noteq> u \<or> option_unit lib br_x w \<noteq> u \<or> option_unit lib br_y w \<noteq> u
      then (Some ''inconsistent unit in scan area parameters'', u, s)
      else (None, u, s\<lparr>is_minWidth := dmax (Fin 0) (dsub (option_min lib br_x w) (option_max lib tl_x w)),
                 is_maxWidth := dsub (option_max lib br_x w) (option_min lib tl_x w),
                 is_maxPhysicalWidth := option_max lib br_x w,
                 is_minHeight := dmax (Fin 0) (dsub (option_min lib br_y w) (option_max lib tl_y w)),
                 is_maxHeight := dsub (option_max lib br_y w) (option_min lib tl_y w),
                 is_maxPhysicalHeight := option_max lib br_y w\<rparr>))"

definition source_init :: "'s sane_lib \<Rightarrow> 's opts \<Rightarrow> string option \<times> input_source" where
  "source_init lib st =
     (let os = fst st; w = snd st;
          depth = option_ref os SANE_NAME_BIT_DEPTH;
          s0 = new_source (string_value lib (option_ref os SANE_NAME_SCAN_SOURCE) 0 os w)
                 (if is_null depth then Some 8 else conv_int (option_max lib depth w));
          (err, u, s1) = scan_area lib st s0
      in if err \<noteq> None then (err, s1)
         else if u = U_MM then (None, scale_source (ddiv (Fin 300) (to_dbl (254 / 10))) s1)
         else if u = U_PIXEL
         then (None, scale_source (ddiv (Fin 300)
                 (numeric_value lib (option_ref os SANE_NAME_SCAN_RESOLUTION) 0 os w)) s1)
         else (Some ''unexpected unit in scan area parameters'', s1))"

subsection \<open>Initialisation\<close>

fun apply_sane_options :: "'s sane_lib \<Rightarrow> (string \<times> string) list \<Rightarrow> 's opts \<Rightarrow> 's opts result" where
  "apply_sane_options lib [] st = Inr st"
| "apply_sane_options lib (nv # nvs) st =
     bind_result (if is_null (option_ref (fst st) (fst nv)) then Inr st else assign_string lib nv st)
       (apply_sane_options lib nvs)"

text \<open>\<open>None\<close> when the loop of \<open>discretizeResolutions\<close> does not end.\<close>

definition init_resolutions :: "'s sane_lib \<Rightarrow> 's opts \<Rightarrow> scanner \<Rightarrow> scanner result option" where
  "init_resolutions lib st sc =
     (let res = option_ref (fst st) SANE_NAME_SCAN_RESOLUTION; w = snd st;
          sc1 = sc\<lparr>sc_minResDpi := conv_int (option_min lib res w), sc_maxResDpi := conv_int (option_max lib res w),
                   sc_resStepDpi := conv_int (option_quant lib res w)\<rparr>;
          vals = allowed_numeric_values lib res w
      in if vals \<noteq> [] then Some (Inr (sc1\<lparr>sc_discreteResolutions := vals\<rparr>))
         else (case (sc_minResDpi sc1, sc_maxResDpi sc1, sc_resStepDpi sc1) of
                 (Some mn, Some mx, Some step) \<Rightarrow>
                   map_option (\<lambda>rs. Inr (sc1\<lparr>sc_discreteResolutions := rs\<rparr>))
                     (discretizeResolutions (dbl_of_int mn) (dbl_of_int mx) (dbl_of_int step))
               | _ \<Rightarrow> Some (Inl ConversionUB)))"

definition init_modes :: "string list \<Rightarrow> scanner \<Rightarrow> scanner" where
  "init_modes allowed sc =
     (let modes = (if allowed = [] then [''Gray'', ''Color''] else allowed);
          gray = findGrayName modes; color = findColorName modes;
          gray2 = (if gray = [] \<and> color = [] then ''Gray'' else gray)
      in sc\<lparr>sc_documentFormats := [MIME_TYPE_PDF, MIME_TYPE_JPEG, MIME_TYPE_PNG],
            sc_grayScanModeName := gray2, sc_colorScanModeName := color,
            sc_txtColorSpaces := sc_txtColorSpaces sc @ (if gray2 \<noteq> [] then [''grayscale''] else [])
              @ (if color \<noteq> [] then [''color''] else []),
            sc_colorModes := sc_colorModes sc @ (if gray2 \<noteq> [] then [''Grayscale8''] else [])
              @ (if color \<noteq> [] then [''RGB24''] else [])\<rparr>)"

text \<open>
  The running values of \<open>init2\<close>: the error of the source that was initialised last, the number of bits
  and the size. A source is selected unless its name is the placeholder \<open>-\<close>.
\<close>

type_synonym 's probe = "string option \<times> int \<times> dbl \<times> dbl \<times> 's opts"

definition probe_source ::
  "'s sane_lib \<Rightarrow> string \<Rightarrow> string list \<Rightarrow> 's probe \<Rightarrow> (input_source \<times> 's probe) result" where
  "probe_source lib name intents = (\<lambda>(err0, bits, mw, mh, st).
     bind_result
       (if name = ''-'' then Inr (True, st)
        else set_string_value lib (option_ref (fst st) SANE_NAME_SCAN_SOURCE) 0 name (fst st) (snd st))
       (\<lambda>(ok, st1).
          let (err, s) = source_init lib st1 in
          if err \<noteq> None then Inr (s, err, bits, mw, mh, st1)
          else bind_result (use_int (is_maxBits s)) (\<lambda>b.
            Inr (s\<lparr>is_supportedIntents := intents\<rparr>, None, max bits b, dmax mw (is_maxWidth s), dmax mh (is_maxHeight s), st1))))"

definition maybe_probe ::
  "'s sane_lib \<Rightarrow> string \<Rightarrow> string list \<Rightarrow> 's probe \<Rightarrow> (input_source option \<times> 's probe) result" where
  "maybe_probe lib name intents pr =
     (if name = [] then Inr (None, pr)
      else bind_result (probe_source lib name intents pr) (\<lambda>(s, pr'). Inr (Some s, pr')))"

definition init_sources :: "'s sane_lib \<Rightarrow> 's opts \<Rightarrow> scanner \<Rightarrow> (string option \<times> scanner \<times> 's opts) result" where
  "init_sources lib st sc =
     (let sources = allowed_string_values lib (option_ref (fst st) SANE_NAME_SCAN_SOURCE) (snd st);
          flat0 = findFlatbedName sources; simplex = findAdfSimplexName sources; duplex = findAdfDuplexName sources;
          flat = (if duplex = [] \<and> simplex = [] \<and> flat0 = [] then ''-'' else flat0)
      in bind_result (maybe_probe lib flat [''Preview'', ''TextAndGraphic'', ''Photo''] (None, 8, Fin 0, Fin 0, st)) (\<lambda>(pl, pr1).
         bind_result (maybe_probe lib simplex [''TextAndGraphic'', ''Photo''] pr1) (\<lambda>(si, pr2).
         bind_result (maybe_probe lib duplex [''TextAndGraphic'', ''Photo''] pr2) (\<lambda>(du, err, bits, mw, mh, st').
           Inr (err,
             sc\<lparr>sc_platen := pl, sc_adfSimplex := si, sc_adfDuplex := du,
                sc_inputSources := sc_inputSources sc @ (if flat \<noteq> [] then [''Platen''] else []) @
                  (if simplex \<noteq> [] \<or> duplex \<noteq> [] then [''Feeder''] else []),
                sc_maxWidthPx300dpi := Some mw, sc_maxHeightPx300dpi := Some mh,
                sc_colorModes := sc_colorModes sc @
                  (if bits = 16 \<and> ''Grayscale8'' \<in> set (sc_colorModes sc) then [''Grayscale16''] else []) @
                  (if bits = 16 \<and> ''RGB24'' \<in> set (sc_colorModes sc) then [''RGB48''] else [])\<rparr>,
             st')))))"

text \<open>The work of \<open>init2\<close> on an open device; the device is closed when it returns.\<close>

definition init_device ::
  "(string \<Rightarrow> (string \<Rightarrow> bool) option) \<Rightarrow> 's sane_lib \<Rightarrow> options_file \<Rightarrow> 's opts \<Rightarrow> scanner
    \<Rightarrow> (string option \<times> scanner \<times> 's opts) result option" where
  "init_device regex lib ofile st sc =
     (case scannerOptions regex ofile (di_name (sc_info sc)) (sc_makeAndModel sc) of Inl e \<Rightarrow> Some (Inl e)
      | Inr opts \<Rightarrow>
          let sc1 = sc\<lparr>sc_deviceOptions := opts\<rparr> in
          (case apply_sane_options lib (of_sane_options opts) st of Inl e \<Rightarrow> Some (Inl e)
           | Inr st1 \<Rightarrow>
               if is_null (option_ref (fst st1) SANE_NAME_SCAN_RESOLUTION)
               then Some (Inr (Some ''missing SANE parameter: resolution'', sc1, st1))
               else map_option (\<lambda>r. bind_result r (\<lambda>sc2.
                      init_sources lib st1 (init_modes
                        (allowed_string_values lib (option_ref (fst st1) SANE_NAME_SCAN_MODE) (snd st1)) sc2)))
                    (init_resolutions lib st1 sc1)))"

definition init2 ::
  "(string \<Rightarrow> (string \<Rightarrow> bool) option) \<Rightarrow> 's sane_lib \<Rightarrow> options_file \<Rightarrow> scanner \<Rightarrow> 's world
    \<Rightarrow> (string option \<times> scanner \<times> 's world) result option" where
  "init2 regex lib ofile sc w =
     (case sane_open_device lib (di_name (sc_info sc)) w of Inl e \<Rightarrow> Some (Inl e)
      | Inr (dev, status, w1) \<Rightarrow>
          if dev = None then Some (Inr (Some ''failed to open device'', sc, w1))
          else map_option (\<lambda>r. bind_result r (\<lambda>(err, sc', st').
                 bind_result (close_device lib dev (snd st')) (\<lambda>w2. Inr (err, sc', w2))))
               (init_device regex lib ofile (option_set_init lib dev w1, w1) sc))"

definition initWithOptions ::
  "(string \<Rightarrow> (string \<Rightarrow> bool) option) \<Rightarrow> 's sane_lib \<Rightarrow> options_file \<Rightarrow> scanner \<Rightarrow> 's world
    \<Rightarrow> (bool \<times> scanner \<times> 's world) result option" where
  "initWithOptions regex lib ofile sc w =
     map_option (\<lambda>r. bind_result r (\<lambda>(err, sc', w'). Inr (err = None, sc'\<lparr>sc_error := err\<rparr>, w')))
       (init2 regex lib ofile sc w)"

subsection \<open>Accessors\<close>

definition hasPlaten :: "scanner \<Rightarrow> bool" where
  "hasPlaten sc = (sc_platen sc \<noteq> None)"

definition hasAdf :: "scanner \<Rightarrow> bool" where
  "hasAdf sc = (sc_adfSimplex sc \<noteq> None)"

definition hasDuplexAdf :: "scanner \<Rightarrow> bool" where
  "hasDuplexAdf sc = (sc_adfDuplex sc \<noteq> None)"

definition sourceName :: "input_source option \<Rightarrow> string" where
  "sourceName s = (case s of None \<Rightarrow> [] | Some i \<Rightarrow> is_sourceName i)"

definition supportedIntents :: "input_source option \<Rightarrow> string list" where
  "supportedIntents s = (case s of None \<Rightarrow> [] | Some i \<Rightarrow> is_supportedIntents i)"

definition maxWidthPx300dpi :: "scanner \<Rightarrow> int option" where
  "maxWidthPx300dpi sc = Option.bind (sc_maxWidthPx300dpi sc) conv_int"

definition maxHeightPx300dpi :: "scanner \<Rightarrow> int option" where
  "maxHeightPx300dpi sc = Option.bind (sc_maxHeightPx300dpi sc) conv_int"

text \<open>What a scan job sees of its scanner; the accessors of the size convert the members to \<open>int\<close>.\<close>

definition scanner_view :: "scanner \<Rightarrow> scanner_info" where
  "scanner_view sc =
     \<lparr>si_saneName = di_name (sc_info sc), si_makeAndModel = sc_makeAndModel sc, si_uri = sc_uri sc,
      si_platen = map_option is_sourceName (sc_platen sc),
      si_adfSimplex = map_option is_sourceName (sc_adfSimplex sc),
      si_adfDuplex = map_option is_sourceName (sc_adfDuplex sc),
      si_grayScanModeName = sc_grayScanModeName sc, si_colorScanModeName = sc_colorScanModeName sc,
      si_maxWidthPx300dpi = (case sc_maxWidthPx300dpi sc of None \<Rightarrow> NaN | Some d \<Rightarrow> d),
      si_maxHeightPx300dpi = (case sc_maxHeightPx300dpi sc of None \<Rightarrow> NaN | Some d \<Rightarrow> d)\<rparr>"

end
