(* ===== verification/ScanTicket.thy ===== *)
theory ScanTicket
  imports ScanSettings
begin

text \<open>
  Properties of the scan settings of a job: the expression search of \<open>ScanSettingsXml::getString\<close> agrees
  with reading the document as XML, and what \<open>ScanJob::Private::init\<close> makes of a ticket.
\<close>

subsection \<open>The settings document as XML\<close>

text \<open>
  A reference: documents of elements with a name space prefix, attributes, text and declarations, their
  text form, and the name and text of their leaf elements (no attributes, no inner elements) in document
  order.
\<close>

datatype xml = Text string | Decl string | Elem (prefix_of: string) (name_of: string) (attrs: string) "xml list"

fun xml_print :: "xml \<Rightarrow> string" where
  "xml_print (Text t) = t"
| "xml_print (Decl t) = ''<?'' @ t @ ''?>''"
| "xml_print (Elem p n a cs) =
     ''<'' @ p @ '':'' @ n @ a @ ''>'' @ concat (map xml_print cs) @ ''</'' @ p @ '':'' @ n @ ''>''"

fun is_text :: "xml \<Rightarrow> bool" where
  "is_text (Text t) = True"
| "is_text _ = False"

fun xml_leaves :: "xml \<Rightarrow> (string \<times> string) list" where
  "xml_leaves (Elem p n a cs) =
     (if a = [] \<and> list_all is_text cs then [(n, concat (map xml_print cs))]
      else concat (map xml_leaves cs))"
| "xml_leaves _ = []"

definition xml_name :: "string \<Rightarrow> bool" where
  "xml_name n \<longleftrightarrow> n \<noteq> [] \<and> (\<forall>c \<in> set n. is_alpha c)"

fun xml_wf :: "xml \<Rightarrow> bool" where
  "xml_wf (Text t) = (CHR ''<'' \<notin> set t)"
| "xml_wf (Decl t) = (CHR ''<'' \<notin> set t)"
| "xml_wf (Elem p n a cs) =
     (xml_name p \<and> xml_name n \<and> CHR ''<'' \<notin> set a \<and> CHR ''>'' \<notin> set a \<and> (a = [] \<or> \<not> is_alpha (hd a))
      \<and> list_all xml_wf cs)"

definition first_leaf :: "(string \<times> string) list \<Rightarrow> string \<Rightarrow> string option" where
  "first_leaf ls n = map_of ls n"

lemma is_alpha_special [simp]:
  "\<not> is_alpha (CHR ''<'')" "\<not> is_alpha (CHR ''>'')" "\<not> is_alpha (CHR '':'')" "\<not> is_alpha (CHR ''/'')"
  "\<not> is_alpha (CHR ''?'')"
  by (simp_all add: is_alpha_def)

lemma xml_match_other: "c \<noteq> CHR ''<'' \<Longrightarrow> xml_match name (c # r) = None"
  by (simp add: xml_match_def Let_def)

lemma getString_skip: "CHR ''<'' \<notin> set t \<Longrightarrow> xml_getString (t @ r) name = xml_getString r name"
  by (induction t) (auto simp: xml_match_other)

lemma xml_match_not_tag: "\<not> is_alpha c \<Longrightarrow> xml_match name (CHR ''<'' # c # r) = None"
  by (simp add: xml_match_def Let_def)

lemma getString_not_tag:
  assumes "\<not> is_alpha c" "CHR ''<'' \<notin> set t" "c \<noteq> CHR ''<''"
  shows "xml_getString (CHR ''<'' # c # t @ r) name = xml_getString r name"
  using assms getString_skip[of "c # t" r name] by (simp add: xml_match_not_tag)

lemma alpha_span:
  assumes "\<forall>c \<in> set p. is_alpha c" "\<not> is_alpha d"
  shows "takeWhile is_alpha (p @ d # r) = p" "dropWhile is_alpha (p @ d # r) = d # r"
  using assms by (simp_all add: takeWhile_append2 dropWhile_append2)

lemma xml_name_no: "xml_name n \<Longrightarrow> \<not> is_alpha d \<Longrightarrow> d \<notin> set n"
  by (auto simp: xml_name_def)

text \<open>A name followed by a character outside of names is found at the start only if it is that name.\<close>

lemma prefix_name_iff:
  assumes "xml_name n" "xml_name m" "a = [] \<or> \<not> is_alpha (hd a)" "CHR ''>'' \<notin> set a"
  shows "prefix (n @ ''>'') (m @ a @ CHR ''>'' # r) \<longleftrightarrow> n = m \<and> a = []"
proof
  assume "prefix (n @ ''>'') (m @ a @ CHR ''>'' # r)"
  then obtain s where eq: "m @ a @ CHR ''>'' # r = n @ CHR ''>'' # s" by (auto simp: prefix_def)
  obtain d x where d: "a @ CHR ''>'' # r = d # x" "\<not> is_alpha d" using assms(3) by (cases a) auto
  have e: "m @ d # x = n @ CHR ''>'' # s" using eq d by simp
  have "takeWhile is_alpha (m @ d # x) = m" "takeWhile is_alpha (n @ CHR ''>'' # s) = n"
    using d(2) assms(1,2) by (auto intro!: alpha_span(1) simp: xml_name_def)
  then have "m = n" unfolding e by simp
  with e have "m = n" "d # x = CHR ''>'' # s" by simp_all
  then show "n = m \<and> a = []" using d(1) assms(4) by (cases a) auto
qed simp

lemma dropWhile_texts:
  "list_all xml_wf cs \<Longrightarrow> list_all is_text cs \<Longrightarrow>
     takeWhile (\<lambda>c. c \<noteq> CHR ''<'') (concat (map xml_print cs) @ CHR ''<'' # r) = concat (map xml_print cs) \<and>
     dropWhile (\<lambda>c. c \<noteq> CHR ''<'') (concat (map xml_print cs) @ CHR ''<'' # r) = CHR ''<'' # r"
proof (induction cs)
  case (Cons c cs)
  then obtain t where t: "c = Text t" by (cases c) auto
  then have "\<forall>x \<in> set t. x \<noteq> CHR ''<''" using Cons.prems by auto
  with t Cons show ?case by (simp add: takeWhile_append2 dropWhile_append2)
qed simp

text \<open>The first inner element, behind leading text, starts with \<open><\<close> and not with \<open></\<close>.\<close>

lemma dropWhile_inner:
  assumes "list_all xml_wf cs" "\<not> list_all is_text cs"
  shows "\<exists>c r'. dropWhile (\<lambda>c. c \<noteq> CHR ''<'') (concat (map xml_print cs) @ r) = CHR ''<'' # c # r' \<and> c \<noteq> CHR ''/''"
  using assms
proof (induction cs)
  case (Cons x cs)
  show ?case
  proof (cases x)
    case (Text t)
    then have "\<forall>c \<in> set t. c \<noteq> CHR ''<''" using Cons.prems by auto
    with Text Cons show ?thesis by (simp add: dropWhile_append2)
  next
    case (Elem p n a ds)
    then have "p \<noteq> []" "\<forall>c \<in> set p. is_alpha c" using Cons.prems by (auto simp: xml_name_def)
    with Elem show ?thesis by (cases p) auto
  qed simp
qed simp

lemma xml_match_elem:
  assumes "xml_wf (Elem p n a cs)" "xml_name name"
  shows "xml_match name (xml_print (Elem p n a cs) @ r) =
    (if name = n \<and> a = [] \<and> list_all is_text cs then Some (concat (map xml_print cs)) else None)"
proof -
  let ?close = "''</'' @ p @ '':'' @ n @ ''>'' @ r"
  let ?body = "concat (map xml_print cs) @ ?close"
  have p: "\<forall>c \<in> set p. is_alpha c" "p \<noteq> []" using assms(1) by (auto simp: xml_name_def)
  have cs: "list_all xml_wf cs" using assms(1) by simp
  have split: "xml_print (Elem p n a cs) @ r = CHR ''<'' # p @ CHR '':'' # n @ a @ CHR ''>'' # ?body" by simp
  have span: "takeWhile is_alpha (p @ CHR '':'' # n @ a @ CHR ''>'' # ?body) = p"
    "dropWhile is_alpha (p @ CHR '':'' # n @ a @ CHR ''>'' # ?body) = CHR '':'' # n @ a @ CHR ''>'' # ?body"
    using p by (auto intro!: alpha_span)
  have pre: "prefix ('':'' @ name @ ''>'') (CHR '':'' # n @ a @ CHR ''>'' # ?body) \<longleftrightarrow> name = n \<and> a = []"
    using prefix_name_iff[of name n a ?body] assms by simp
  show ?thesis
  proof (cases "name = n \<and> a = []")
    case False
    then show ?thesis unfolding split xml_match_def list.case Let_def span pre by auto
  next
    case True
    have body: "drop (length ('':'' @ name @ ''>'')) (CHR '':'' # n @ a @ CHR ''>'' # ?body) = ?body"
      using True by simp
    show ?thesis
    proof (cases "list_all is_text cs")
      case tx: True
      note d = dropWhile_texts[OF cs tx, of "''/'' @ p @ '':'' @ n @ ''>'' @ r"]
      have "prefix (''</'' @ p @ '':'' @ name @ ''>'') ?close" using True by simp
      with d show ?thesis unfolding split xml_match_def list.case Let_def span pre body using True tx p by simp
    next
      case False
      obtain c r' where "dropWhile (\<lambda>c. c \<noteq> CHR ''<'') ?body = CHR ''<'' # c # r'" "c \<noteq> CHR ''/''"
        using dropWhile_inner[OF cs False] by blast
      then show ?thesis unfolding split xml_match_def list.case Let_def span pre body using False by simp
    qed
  qed
qed

lemma getString_xml:
  "xml_wf x \<Longrightarrow> xml_name name \<Longrightarrow> xml_getString (xml_print x @ r) name =
     (case first_leaf (xml_leaves x) name of Some v \<Rightarrow> v | None \<Rightarrow> xml_getString r name)"
proof (induction x arbitrary: r)
  case (Text t)
  then show ?case by (simp add: getString_skip first_leaf_def)
next
  case (Decl t)
  then show ?case using getString_not_tag[of "CHR ''?''" "t @ ''?>''" r name] by (simp add: first_leaf_def)
next
  case (Elem p n a cs)
  let ?close = "''</'' @ p @ '':'' @ n @ ''>'' @ r"
  have m: "xml_match name (xml_print (Elem p n a cs) @ r) =
      (if name = n \<and> a = [] \<and> list_all is_text cs then Some (concat (map xml_print cs)) else None)"
    by (rule xml_match_elem[OF Elem.prems])
  have inner: "xml_getString (concat (map xml_print ds) @ s) name =
      (case first_leaf (concat (map xml_leaves ds)) name of Some v \<Rightarrow> v | None \<Rightarrow> xml_getString s name)"
    if "set ds \<subseteq> set cs" for ds s
    using that
  proof (induction ds arbitrary: s)
    case (Cons d ds)
    then have "xml_wf d" "d \<in> set cs" using Elem.prems(1) by (auto simp: list_all_iff)
    from Elem.IH[OF this(2,1) Elem.prems(2)] Cons show ?case
      by (auto simp: first_leaf_def map_add_def split: option.splits)
  qed (simp add: first_leaf_def)
  have no: "CHR ''<'' \<notin> set (p @ '':'' @ n @ a @ ''>'')" "CHR ''<'' \<notin> set (p @ '':'' @ n @ ''>'')"
    using Elem.prems(1) xml_name_no[of p "CHR ''<''"] xml_name_no[of n "CHR ''<''"] by auto
  have close: "xml_getString ?close name = xml_getString r name"
    using getString_not_tag[of "CHR ''/''" "p @ '':'' @ n @ ''>''" r name] no by simp
  have skip: "xml_getString (xml_print (Elem p n a cs) @ r) name =
      (case xml_match name (xml_print (Elem p n a cs) @ r) of Some v \<Rightarrow> v
       | None \<Rightarrow> xml_getString (concat (map xml_print cs) @ ?close) name)"
    using getString_skip[OF no(1), of "concat (map xml_print cs) @ ?close" name] by (simp split: option.split)
  show ?case
  proof (cases "a = [] \<and> list_all is_text cs")
    case True
    have "concat (map xml_leaves cs) = []" using True by (induction cs) (auto elim!: is_text.elims)
    with True show ?thesis unfolding skip m inner[OF order_refl] close
      by (simp add: first_leaf_def del: concat_eq_Nil_conv)
  next
    case False
    then show ?thesis unfolding skip m inner[OF order_refl] close by auto
  qed
qed



subsection \<open>What becomes of a ticket\<close>

lemma init_region_keeps:
  "init_region sc xml j = Inr (err, j') \<Longrightarrow>
     sj_colorScan j' = sj_colorScan j \<and> sj_intent j' = sj_intent j \<and> sj_session j' = sj_session j \<and>
     sj_uuid j' = sj_uuid j \<and> sj_colorMode j' = sj_colorMode j"
  by (auto simp: init_region_def Let_def bind_result_Inr_iff)

lemma initGammaTable_keeps:
  assumes "initGammaTable pow g j = Inr j'"
  shows "\<exists>t. j' = j\<lparr>sj_gammaTable := t\<rparr> \<and> (t = [] \<or> length t = nat (wrap32 (2 ^ nat (sj_bitDepth j))))"
proof (cases "deq (flt g) (Fin 1)")
  case True
  with assms show ?thesis by (auto simp: initGammaTable_def)
next
  case False
  with assms obtain t where "map_result (gamma_entry pow (flt g) (wrap32 (2 ^ nat (sj_bitDepth j))))
      [0..<nat (wrap32 (2 ^ nat (sj_bitDepth j)))] = Inr t" "j' = j\<lparr>sj_gammaTable := t\<rparr>"
    by (auto simp: initGammaTable_def Let_def bind_result_Inr_iff split: if_splits)
  then show ?thesis using map_result_Inr_length by fastforce
qed

lemma applyDeviceOptions_keeps:
  "applyDeviceOptions pow sc opts j = Inr j' \<Longrightarrow>
     sj_kind j' = sj_kind j \<and> sj_documentFormat j' = sj_documentFormat j \<and> sj_session j' = sj_session j \<and>
     sj_imagesCompleted j' = sj_imagesCompleted j \<and> sj_colorScan j' = sj_colorScan j \<and>
     sj_deviceOptions j' = opts \<and> sj_bitDepth j' = sj_bitDepth j \<and> sj_scanSource j' = sj_scanSource j \<and>
     (sj_colorScan j = Some False \<longrightarrow> sj_colorMode j' =
        (if of_synthesize_gray opts then si_colorScanModeName sc else si_grayScanModeName sc))"
  by (auto simp: applyDeviceOptions_def Let_def bind_result_Inr_iff dest!: initGammaTable_keeps split: option.splits)

lemma init_source_keeps:
  "init_source sc xml j = (err, j') \<Longrightarrow>
     sj_documentFormat j' = sj_documentFormat j \<and> sj_session j' = sj_session j \<and>
     sj_colorScan j' = sj_colorScan j \<and> sj_imagesCompleted j' = sj_imagesCompleted j \<and>
     (\<not> err \<longrightarrow> sj_kind j' \<noteq> None) \<and>
     (sj_kind j' = Some adfConcat \<longrightarrow> sj_kind j = Some adfConcat \<or> sj_documentFormat j = MIME_TYPE_PDF)"
  by (auto simp: init_source_def Let_def split: if_splits)

lemma init_format_keeps [simp]:
  "sj_session (init_format xml a j) = sj_session j" "sj_colorScan (init_format xml a j) = sj_colorScan j"
  "sj_kind (init_format xml a j) = sj_kind j" "sj_documentFormat (init_format xml a j) \<noteq> []"
  by (auto simp: init_format_def Let_def MIME_TYPE_PNG_def MIME_TYPE_PDF_def MIME_TYPE_JPEG_def)

lemma init_color_keeps [simp]:
  "sj_session (init_color sc xml j) = sj_session j" "sj_kind (init_color sc xml j) = sj_kind j"
  by (auto simp: init_color_def Let_def split: option.splits prod.splits)

text \<open>What a job is after initialisation, whatever the client sent: it is either queued, and then it
  has a kind, or aborted with the reason that the ticket is invalid; it has no images yet, and a document
  format. Several pages are put into one document only when the document is a PDF, which is the one
  encoder that can hold them.\<close>

theorem job_init_state:
  assumes "job_init pow sc xml autoselect opts (job_create uuid t) = Inr j'"
  shows "(sj_state j' = pending \<and> sj_stateReason j' = PWG_JOB_QUEUED \<and> sj_kind j' \<noteq> None \<or>
          sj_state j' = aborted \<and> sj_stateReason j' = PWG_INVALID_SCAN_TICKET) \<and>
    sj_imagesCompleted j' = 0 \<and> sj_session j' = None \<and> sj_documentFormat j' \<noteq> [] \<and> sj_colorScan j' \<noteq> None \<and>
    (sj_kind j' = Some adfConcat \<longrightarrow> sj_documentFormat j' = MIME_TYPE_PDF)"
proof -
  let ?j1 = "(job_create uuid t)\<lparr>sj_intent := (if xml_getString xml ''Intent'' = [] then ''Photo''
      else xml_getString xml ''Intent'')\<rparr>"
  from assms obtain err1 j2 where r: "init_region sc xml ?j1 = Inr (err1, j2)"
    by (auto simp: job_init_def Let_def bind_result_Inr_iff)
  obtain err2 j4 where
    s: "init_source sc xml ((init_format xml autoselect (init_color sc xml j2))\<lparr>sj_imagesCompleted := 0\<rparr>) = (err2, j4)"
    by (metis surj_pair)
  from assms r s obtain j5 where a: "applyDeviceOptions pow sc opts j4 = Inr j5"
    and j': "j' = (if err1 \<or> err2 then j5\<lparr>sj_state := aborted, sj_stateReason := PWG_INVALID_SCAN_TICKET\<rparr>
                   else j5\<lparr>sj_state := pending, sj_stateReason := PWG_JOB_QUEUED\<rparr>)"
    by (auto simp: job_init_def Let_def bind_result_Inr_iff)
  have k2: "sj_kind j2 = None" "sj_session j2 = None"
    using r by (auto simp: init_region_def Let_def bind_result_Inr_iff job_create_def)
  have c: "sj_colorScan j4 \<noteq> None" using a by (auto simp: applyDeviceOptions_def Let_def split: option.splits)
  show ?thesis
    using init_source_keeps[OF s] applyDeviceOptions_keeps[OF a] k2 c by (auto simp: j')
qed

text \<open>A scanner and two tickets: a minimal one, and an empty one.\<close>

definition ticket_scanner :: scanner_info where
  "ticket_scanner = \<lparr>si_saneName = ''test:0'', si_makeAndModel = ''Noname Scanner'', si_uri = ''/scanner'',
     si_platen = Some ''Flatbed'', si_adfSimplex = None, si_adfDuplex = None, si_grayScanModeName = ''Gray'',
     si_colorScanModeName = ''Color'', si_maxWidthPx300dpi = Fin 2551, si_maxHeightPx300dpi = Fin 3508\<rparr>"

lemma ticket_scanner_simps [simp]:
  "si_platen ticket_scanner = Some ''Flatbed''" "si_colorScanModeName ticket_scanner = ''Color''"
  by (simp_all add: ticket_scanner_def)

definition ticket :: string where
  "ticket = ''<scan:ColorMode>RGB24</scan:ColorMode>''"

lemma strtod_c_Nil [simp]: "strtod_c [] = NaN"
  by (simp add: strtod_c_def read_double_def skip_ws_def read_sign_def read_fraction_def)

lemma flt_1 [simp]: "flt (Fin 1) = Fin 1"
proof -
  have "fround 24 (- 149) (of_int 1) = of_int 1" by (rule fround_int) auto
  then show ?thesis by (simp add: flt_def to_flt_def)
qed

lemma ticket_values:
  "xml_getString ticket ''ColorMode'' = ''RGB24''" "xml_getString ticket ''Intent'' = []"
  "xml_getString ticket ''XResolution'' = []" "xml_getString ticket ''YResolution'' = []"
  "xml_getString ticket ''XOffset'' = []" "xml_getString ticket ''YOffset'' = []"
  "xml_getString ticket ''Width'' = []" "xml_getString ticket ''Height'' = []"
  "xml_getString ticket ''ContentRegionUnits'' = []" "xml_getString ticket ''InputSource'' = []"
  "xml_getString ticket ''DocumentFormat'' = []" "xml_getString ticket ''DocumentFormatExt'' = []"
  "xml_getString ticket ''Duplex'' = []" "xml_getString ticket ''ConcatIfPossible'' = []"
  by code_simp+

lemma ticket_region:
  "init_region ticket_scanner xml j = Inr (False, j\<lparr>sj_left_px := dmul (Fin 0) (Fin 1), sj_top_px := dmul (Fin 0) (Fin 1),
     sj_width_px := dbl_of_int 2551, sj_height_px := dbl_of_int 3508, sj_res_dpi := 300\<rparr>)"
  if "\<forall>n \<in> {''XResolution'', ''XOffset'', ''YOffset'', ''Width'', ''Height'', ''ContentRegionUnits''}. xml_getString xml n = []"
  using that
  by (simp add: init_region_def Let_def xml_getNumber_def nan_default_def dmul_def int_of_dbl_def dtrunc_def ticket_scanner_def)

theorem job_init_state_witness:
  "\<exists>j'. job_init (\<lambda>a b. a) ticket_scanner ticket False default_options (job_create ''id'' 0) = Inr j' \<and>
     sj_state j' = pending \<and> sj_kind j' = Some single \<and> sj_documentFormat j' \<noteq> []"
proof -
  have c: "color_mode_match ''RGB24'' = Some (''RGB'', ''24'')" by code_simp
  obtain j' where j': "job_init (\<lambda>a b. a) ticket_scanner ticket False default_options (job_create ''id'' 0) = Inr j'"
    "sj_state j' = pending" "sj_kind j' = Some single"
    by (simp add: job_init_def ticket_region ticket_values init_color_def c init_format_def init_source_def
        applyDeviceOptions_def initGammaTable_def default_options_def deq_def job_create_def
        MIME_TYPE_JPEG_def Let_def)
  from job_init_state[OF j'(1)] j' show ?thesis by blast
qed

text \<open>A ticket without a colour mode the code knows leaves \<open>mColorScan\<close> uninitialised, and initialising
  the job reads it: \<open>applyDeviceOptions\<close> decides by it between the gray and the colour gamma.\<close>

theorem job_init_needs_color_mode:
  assumes "init_region sc xml ((job_create uuid t)\<lparr>sj_intent :=
      (if xml_getString xml ''Intent'' = [] then ''Photo'' else xml_getString xml ''Intent'')\<rparr>) = Inr (err, j2)"
    and "\<forall>c d. color_mode_match (xml_getString xml ''ColorMode'') = Some (c, d) \<longrightarrow> c \<noteq> ''RGB'' \<and> c \<noteq> ''Grayscale''"
  shows "job_init pow sc xml autoselect opts (job_create uuid t) = Inl Uninitialized"
proof -
  have "sj_colorScan j2 = None" using init_region_keeps[OF assms(1)] by (simp add: job_create_def)
  with assms(2) have "sj_colorScan (init_color sc xml j2) = None"
    by (auto simp: init_color_def Let_def split: option.splits prod.splits)
  then have "sj_colorScan j4 = None"
    if "init_source sc xml ((init_format xml autoselect (init_color sc xml j2))\<lparr>sj_imagesCompleted := 0\<rparr>) = (err2, j4)" for err2 j4
    using init_source_keeps[OF that] by simp
  then show ?thesis using assms(1)
    by (simp add: job_init_def Let_def applyDeviceOptions_def split: prod.split)
qed

theorem job_init_needs_color_mode_witness:
  "job_init (\<lambda>a b. a) ticket_scanner [] False default_options (job_create ''id'' 0) = Inl Uninitialized"
proof -
  have "color_mode_match (xml_getString [] ''ColorMode'') = None" by (simp add: color_mode_match_def)
  then show ?thesis using job_init_needs_color_mode[OF ticket_region] by simp
qed

end
