(* ===== verification/Scanner.thy ===== *)
theory Scanner
  imports ScannerCaps ScanTicket "HOL-Library.List_Lexorder" "HOL-Library.Char_ord"
begin

text \<open>
  A scanner as a component of the server, \<open>src/server/scanner.cpp\<close>: the documents that describe it to eSCL
  clients and the list of its jobs.

  The job list is the \<open>std::map\<close> of the source: an association list sorted by the job's UUID. Time and random
  numbers are arguments. Whether the scanner is open (\<open>mpSession\<close> has not expired) is an argument of the
  operations that ask for it.
\<close>

subsection \<open>Capabilities\<close>

definition tagged :: "string \<Rightarrow> string \<Rightarrow> string" where
  "tagged t s = ''<'' @ t @ ''>'' @ s @ ''</'' @ t @ ''>'' @ crlf"

definition open_tag :: "string \<Rightarrow> string" where
  "open_tag t = ''<'' @ t @ ''>'' @ crlf"

definition close_tag :: "string \<Rightarrow> string" where
  "close_tag t = ''</'' @ t @ ''>'' @ crlf"

definition bit_depths :: "int \<Rightarrow> int list" where
  "bit_depths bits = map (\<lambda>k. 8 * (int k + 1)) [0..<nat (bits div 8)]"

definition resolution_range :: "string \<Rightarrow> int \<Rightarrow> int \<Rightarrow> int \<Rightarrow> string" where
  "resolution_range t mn mx step =
     open_tag t @ tagged ''scan:Min'' (dec_int mn) @ tagged ''scan:Max'' (dec_int mx) @
     tagged ''scan:Step'' (dec_int step) @ close_tag t"

definition supported_resolutions :: "scanner \<Rightarrow> string result" where
  "supported_resolutions sc =
     (if sc_discreteResolutions sc = [] then
        bind_result (use_int (sc_minResDpi sc)) (\<lambda>mn.
        bind_result (use_int (sc_maxResDpi sc)) (\<lambda>mx.
        bind_result (use_int (sc_resStepDpi sc)) (\<lambda>step.
          Inr (''<scan:ResolutionRange />'' @ crlf @ resolution_range ''scan:XResolutionRange'' mn mx step @
               resolution_range ''scan:YResolutionRange'' mn mx step))))
      else Inr (open_tag ''scan:DiscreteResolutions'' @
        concat (map (\<lambda>res. open_tag ''scan:DiscreteResolution'' @ tagged ''scan:XResolution'' (dbl_str res) @
          tagged ''scan:YResolution'' (dbl_str res) @ close_tag ''scan:DiscreteResolution'') (sc_discreteResolutions sc)) @
        close_tag ''scan:DiscreteResolutions''))"

text \<open>\<open>mCurrentProfile\<close> counts the profiles of a document.\<close>

definition writeSettingProfile :: "scanner \<Rightarrow> int option \<Rightarrow> nat \<Rightarrow> (string \<times> nat) result" where
  "writeSettingProfile sc bits profile =
     bind_result (use_int bits) (\<lambda>b.
     bind_result (supported_resolutions sc) (\<lambda>res.
       Inr (''<scan:SettingProfile name='' @ squote @ dec_nat profile @ squote @ ''>'' @ crlf @
         open_tag ''scan:ColorModes'' @
         concat (map (\<lambda>cs. concat (map (\<lambda>i. tagged ''scan:ColorMode'' (colorMode cs i)) (bit_depths b)))
           (sc_txtColorSpaces sc)) @
         close_tag ''scan:ColorModes'' @
         open_tag ''scan:ColorSpaces'' @ tagged ''scan:ColorSpace'' ''RGB'' @ close_tag ''scan:ColorSpaces'' @
         open_tag ''scan:SupportedResolutions'' @ res @ close_tag ''scan:SupportedResolutions'' @
         open_tag ''scan:DocumentFormats'' @
         concat (map (\<lambda>f. tagged ''pwg:DocumentFormat'' f) (sc_documentFormats sc)) @
         close_tag ''scan:DocumentFormats'' @ close_tag ''scan:SettingProfile'', profile + 1)))"

definition source_capabilities :: "scanner \<Rightarrow> input_source \<Rightarrow> nat \<Rightarrow> (string \<times> nat) result" where
  "source_capabilities sc s profile =
     bind_result (writeSettingProfile sc (is_maxBits s) profile) (\<lambda>(prof, profile').
       Inr (tagged ''scan:MinWidth'' (dbl_str (is_minWidth s)) @ tagged ''scan:MinHeight'' (dbl_str (is_minHeight s)) @
         tagged ''scan:MaxWidth'' (dbl_str (is_maxWidth s)) @ tagged ''scan:MaxHeight'' (dbl_str (is_maxHeight s)) @
         tagged ''scan:MaxPhysicalWidth'' (dbl_str (is_maxPhysicalWidth s)) @
         tagged ''scan:MaxPhysicalHeight'' (dbl_str (is_maxPhysicalHeight s)) @
         tagged ''scan:MaxScanRegions'' ''1'' @
         open_tag ''scan:SettingProfiles'' @ prof @ close_tag ''scan:SettingProfiles'' @
         open_tag ''scan:SupportedIntents'' @
         concat (map (tagged ''scan:SupportedIntent'') (is_supportedIntents s)) @
         close_tag ''scan:SupportedIntents'', profile'))"

definition platen_caps :: "scanner \<Rightarrow> nat \<Rightarrow> (string \<times> nat) result" where
  "platen_caps sc n = (case sc_platen sc of None \<Rightarrow> Inr ([], n)
     | Some s \<Rightarrow> bind_result (source_capabilities sc s n) (\<lambda>(caps, n').
         Inr (open_tag ''scan:Platen'' @ open_tag ''scan:PlatenInputCaps'' @ caps @
              close_tag ''scan:PlatenInputCaps'' @ close_tag ''scan:Platen'', n')))"

definition duplex_caps :: "scanner \<Rightarrow> nat \<Rightarrow> (string \<times> nat) result" where
  "duplex_caps sc n = (case sc_adfDuplex sc of None \<Rightarrow> Inr ([], n)
     | Some d \<Rightarrow> bind_result (source_capabilities sc d n) (\<lambda>(caps, n').
         Inr (open_tag ''scan:AdfDuplexInputCaps'' @ caps @ close_tag ''scan:AdfDuplexInputCaps'', n')))"

definition adf_caps :: "scanner \<Rightarrow> nat \<Rightarrow> (string \<times> nat) result" where
  "adf_caps sc n = (case sc_adfSimplex sc of None \<Rightarrow> Inr ([], n)
     | Some s \<Rightarrow> bind_result (source_capabilities sc s n) (\<lambda>(caps, n1).
         bind_result (duplex_caps sc n1) (\<lambda>(dcaps, n2).
         Inr (open_tag ''scan:Adf'' @ open_tag ''scan:AdfSimplexInputCaps'' @ caps @
              close_tag ''scan:AdfSimplexInputCaps'' @ dcaps @
              open_tag ''scan:AdfOptions'' @ tagged ''scan:AdfOption'' ''DetectPaperLoaded'' @
              (if sc_adfDuplex sc \<noteq> None then tagged ''scan:AdfOption'' ''Duplex'' else []) @
              close_tag ''scan:AdfOptions'' @ close_tag ''scan:Adf'', n2))))"

definition xml_declaration :: string where
  "xml_declaration = ''<?xml version='' @ squote @ ''1.0'' @ squote @ '' encoding='' @ squote @ ''UTF-8'' @ squote @ ''?>'' @ crlf"

definition escl_root :: "string \<Rightarrow> string" where
  "escl_root t = ''<'' @ t @ '' xmlns:pwg='' @ squote @ ''http://www.pwg.org/schemas/2010/12/sm'' @ squote @
     '' xmlns:scan='' @ squote @ ''http://schemas.hp.com/imaging/escl/2011/05/03'' @ squote @ ''>'' @ crlf"

definition writeScannerCapabilitiesXml :: "scanner \<Rightarrow> string result" where
  "writeScannerCapabilitiesXml sc =
     bind_result (platen_caps sc 0) (\<lambda>(platen, n).
     bind_result (adf_caps sc n) (\<lambda>(adf, _).
       Inr (xml_declaration @ escl_root ''scan:ScannerCapabilities'' @
         tagged ''pwg:Version'' ''2.0'' @ tagged ''pwg:MakeAndModel'' (xmlEscape (sc_makeAndModel sc)) @
         tagged ''pwg:SerialNumber'' ''1.0'' @ tagged ''scan:UUID'' (sc_uuid sc) @
         (if sc_adminUrl sc \<noteq> [] then tagged ''scan:AdminURI'' (sc_adminUrl sc) else []) @
         (if sc_iconUrl sc \<noteq> [] then tagged ''scan:IconURI'' (sc_iconUrl sc) else []) @
         platen @ adf @ close_tag ''scan:ScannerCapabilities'')))"

subsection \<open>Status\<close>

definition statusString :: "bool \<Rightarrow> string" where
  "statusString isOpen = (if isOpen then ''Processing'' else ''Idle'')"

text \<open>Asking for the status of the feeder resets it.\<close>

definition temporaryAdfStatusString :: "scanner \<Rightarrow> string \<times> scanner" where
  "temporaryAdfStatusString sc =
     (case sc_temporaryAdfStatus sc of
        GOOD \<Rightarrow> ''ScannerAdfLoaded''
      | JAMMED \<Rightarrow> ''ScannerAdfJam''
      | COVER_OPEN \<Rightarrow> ''ScannerAdfDoorOpen''
      | NO_DOCS \<Rightarrow> ''ScannerAdfEmpty''
      | _ \<Rightarrow> [], sc\<lparr>sc_temporaryAdfStatus := GOOD\<rparr>)"

definition setTemporaryAdfStatus :: "sane_status \<Rightarrow> scanner \<Rightarrow> scanner" where
  "setTemporaryAdfStatus st sc = sc\<lparr>sc_temporaryAdfStatus := st\<rparr>"

definition writeScannerStatusXml :: "bool \<Rightarrow> int \<Rightarrow> scanner \<Rightarrow> string \<times> scanner" where
  "writeScannerStatusXml isOpen t sc =
     (let (adf, sc') = (if sc_adfSimplex sc \<noteq> None \<or> sc_adfDuplex sc \<noteq> None
                        then (let (s, sc1) = temporaryAdfStatusString sc in (tagged ''scan:AdfState'' s, sc1))
                        else ([], sc))
      in (xml_declaration @ escl_root ''scan:ScannerStatus'' @ tagged ''pwg:Version'' ''2.0'' @
          tagged ''pwg:State'' (statusString isOpen) @ adf @ open_tag ''scan:Jobs'' @
          concat (map (\<lambda>(u, j). writeJobInfoXml t (scanner_view sc) j) (sc_jobs sc)) @
          close_tag ''scan:Jobs'' @ close_tag ''scan:ScannerStatus'', sc'))"

definition setPublishedName :: "string \<Rightarrow> scanner \<Rightarrow> scanner" where
  "setPublishedName n sc = sc\<lparr>sc_publishedName := n\<rparr>"

definition setUri :: "string \<Rightarrow> scanner \<Rightarrow> scanner" where
  "setUri u sc = sc\<lparr>sc_uri := u\<rparr>"

definition setAdminUrl :: "string \<Rightarrow> scanner \<Rightarrow> scanner" where
  "setAdminUrl u sc = sc\<lparr>sc_adminUrl := u\<rparr>"

definition setIconUrl :: "string \<Rightarrow> scanner \<Rightarrow> scanner" where
  "setIconUrl u sc = sc\<lparr>sc_iconUrl := u\<rparr>"

subsection \<open>Jobs\<close>

text \<open>\<open>mJobs[uuid] = job\<close> on the sorted list.\<close>

fun map_put :: "string \<Rightarrow> 'v \<Rightarrow> (string \<times> 'v) list \<Rightarrow> (string \<times> 'v) list" where
  "map_put k v [] = [(k, v)]"
| "map_put k v (e # es) =
     (if k = fst e then (k, v) # es else if k < fst e then (k, v) # e # es else e # map_put k v es)"

text \<open>
  \<open>createJob\<close>: the pairs of time and random number that the successive rounds of the loop draw are given as
  a list; \<open>None\<close> when all of them led to the UUID of an existing job. A number is printed in decimal when it
  is appended to the name.
\<close>

definition job_uuid :: "(string \<Rightarrow> 64 word) \<Rightarrow> string \<Rightarrow> string \<Rightarrow> int \<times> int \<Rightarrow> string" where
  "job_uuid hashfn mid uuid d = uuid_of hashfn mid (uuid @ dec_int (fst d) @ dec_int (snd d))"

fun fresh_uuid :: "(string \<Rightarrow> 64 word) \<Rightarrow> string \<Rightarrow> (int \<times> int) list \<Rightarrow> scanner \<Rightarrow> string option" where
  "fresh_uuid hashfn mid [] sc = None"
| "fresh_uuid hashfn mid (d # ds) sc =
     (let u = job_uuid hashfn mid (sc_uuid sc) d in
      if u \<in> fst ` set (sc_jobs sc) then fresh_uuid hashfn mid ds sc else Some u)"

definition createJob ::
  "(string \<Rightarrow> 64 word) \<Rightarrow> string \<Rightarrow> (int \<times> int) list \<Rightarrow> int \<Rightarrow> scanner \<Rightarrow> (string \<times> scanner) option" where
  "createJob hashfn mid draws t sc =
     map_option (\<lambda>u. (u, sc\<lparr>sc_jobs := map_put u (job_create u t) (sc_jobs sc)\<rparr>)) (fresh_uuid hashfn mid draws sc)"

definition getJob :: "string \<Rightarrow> scanner \<Rightarrow> scan_job option" where
  "getJob u sc = map_of (sc_jobs sc) u"

text \<open>A job that a handler has worked on, written back through its shared pointer.\<close>

definition update_job :: "scan_job \<Rightarrow> scanner \<Rightarrow> scanner" where
  "update_job j sc = sc\<lparr>sc_jobs := map (\<lambda>(u, j0). (u, if u = sj_uuid j then j else j0)) (sc_jobs sc)\<rparr>"

definition createJobFromScanSettingsXml ::
  "(string \<Rightarrow> 64 word) \<Rightarrow> string \<Rightarrow> (dbl \<Rightarrow> dbl \<Rightarrow> dbl) \<Rightarrow> (int \<times> int) list \<Rightarrow> int \<Rightarrow> string \<Rightarrow> bool \<Rightarrow> scanner
    \<Rightarrow> (scan_job \<times> scanner) result option" where
  "createJobFromScanSettingsXml hashfn mid pow draws t xml autoselect sc =
     map_option (\<lambda>(u, sc1).
       bind_result (job_init pow (scanner_view sc1) xml autoselect (sc_deviceOptions sc1) (job_create u t)) (\<lambda>j.
         Inr (j, update_job j sc1)))
       (createJob hashfn mid draws t sc)"

definition cancelJob :: "'s sane_lib \<Rightarrow> string \<Rightarrow> scanner \<Rightarrow> 's world \<Rightarrow> (bool \<times> scanner \<times> 's world) result" where
  "cancelJob lib u sc w = (case getJob u sc of None \<Rightarrow> Inr (False, sc, w)
     | Some j \<Rightarrow> bind_result (job_cancel lib j w) (\<lambda>(j', w'). Inr (True, update_job j' sc, w')))"

text \<open>
  Erasing a job from the list destroys it, and with it the session it may still hold. The clock does not
  advance while the list is purged.
\<close>

definition destroy_job :: "'s sane_lib \<Rightarrow> scan_job \<Rightarrow> 's world \<Rightarrow> 's world result" where
  "destroy_job lib j w = (case sj_session j of None \<Rightarrow> Inr w | Some se \<Rightarrow> session_destroy lib se w)"

fun purge_loop ::
  "'s sane_lib \<Rightarrow> int \<Rightarrow> int \<Rightarrow> (string \<times> scan_job) list \<Rightarrow> 's world \<Rightarrow> (nat \<times> (string \<times> scan_job) list \<times> 's world) result" where
  "purge_loop lib t maxIdle [] w = Inr (0, [], w)"
| "purge_loop lib t maxIdle (e # es) w =
     (if idleSeconds t (snd e) > maxIdle
      then bind_result (destroy_job lib (snd e) w) (\<lambda>w1.
             bind_result (purge_loop lib t maxIdle es w1) (\<lambda>(n, es', w2). Inr (n + 1, es', w2)))
      else bind_result (purge_loop lib t maxIdle es w) (\<lambda>(n, es', w2). Inr (n, e # es', w2)))"

definition purgeJobs :: "'s sane_lib \<Rightarrow> int \<Rightarrow> int \<Rightarrow> scanner \<Rightarrow> 's world \<Rightarrow> (nat \<times> scanner \<times> 's world) result" where
  "purgeJobs lib t maxIdle sc w =
     bind_result (purge_loop lib t maxIdle (sc_jobs sc) w) (\<lambda>(n, js, w'). Inr (n, sc\<lparr>sc_jobs := js\<rparr>, w'))"

definition jobs :: "scanner \<Rightarrow> scan_job list" where
  "jobs sc = map snd (sc_jobs sc)"

subsection \<open>The job list is a key/value store\<close>

definition sorted_keys :: "(string \<times> 'v) list \<Rightarrow> bool" where
  "sorted_keys m \<longleftrightarrow> sorted_wrt (<) (map fst m)"

lemma map_put_keys: "fst ` set (map_put k v m) = insert k (fst ` set m)"
  by (induction m) auto

lemma sorted_keys_put: "sorted_keys m \<Longrightarrow> sorted_keys (map_put k v m)"
proof (induction m)
  case (Cons e es)
  show ?case
  proof (cases "k = fst e \<or> k < fst e")
    case True
    with Cons.prems show ?thesis by (fastforce simp: sorted_keys_def)
  next
    case False
    then have "fst e < k" by auto
    with Cons False map_put_keys[of k v es] show ?thesis by (auto simp: sorted_keys_def)
  qed
qed (simp add: sorted_keys_def)

lemma map_of_put: "map_of (map_put k v m) = (map_of m)(k \<mapsto> v)" if "sorted_keys m"
  using that
proof (induction m)
  case (Cons e es)
  have "map_of es k = None" if "k < fst e"
  proof -
    have "k \<notin> fst ` set es" using Cons.prems that by (fastforce simp: sorted_keys_def)
    then show ?thesis by (simp add: map_of_eq_None_iff)
  qed
  with Cons show ?case by (auto simp: fun_eq_iff sorted_keys_def)
qed simp

lemma sorted_keys_distinct: "sorted_keys m \<Longrightarrow> distinct (map fst m)"
  by (auto simp: sorted_keys_def strict_sorted_iff)

interpretation job_map: kv_store "[]" "\<lambda>m k v. map_put k v m" map_of "map fst" sorted_keys
proof unfold_locales
  fix m :: "(string \<times> 'a) list" and k v
  assume m: "sorted_keys m"
  show "map_of (map_put k v m) = (map_of m)(k \<mapsto> v)" using m by (rule map_of_put)
  show "sorted_keys (map_put k v m)" using m by (rule sorted_keys_put)
  show "k \<in> set (map fst m) \<longleftrightarrow> map_of m k \<noteq> None" by (simp add: map_of_eq_None_iff)
  show "distinct (map fst m)" using m by (rule sorted_keys_distinct)
qed (simp_all add: sorted_keys_def)

text \<open>The list is sorted and every job is filed under its own UUID.\<close>

definition jobs_inv :: "scanner \<Rightarrow> bool" where
  "jobs_inv sc \<longleftrightarrow> sorted_keys (sc_jobs sc) \<and> (\<forall>(u, j) \<in> set (sc_jobs sc). sj_uuid j = u)"

lemma set_map_put: "set (map_put k v m) \<subseteq> insert (k, v) (set m)"
  by (induction m) auto

lemma fresh_uuid_new: "fresh_uuid hashfn mid ds sc = Some u \<Longrightarrow> u \<notin> fst ` set (sc_jobs sc)"
  by (induction ds) (auto simp: Let_def split: if_splits)

lemma createJob_inv:
  assumes "jobs_inv sc" "createJob hashfn mid draws t sc = Some (u, sc')"
  shows "jobs_inv sc' \<and> getJob u sc = None \<and> getJob u sc' = Some (job_create u t) \<and>
    (\<forall>v. v \<noteq> u \<longrightarrow> getJob v sc' = getJob v sc) \<and> sc' = sc\<lparr>sc_jobs := sc_jobs sc'\<rparr>"
proof -
  have f: "fresh_uuid hashfn mid draws sc = Some u"
    and sc': "sc' = sc\<lparr>sc_jobs := map_put u (job_create u t) (sc_jobs sc)\<rparr>"
    using assms(2) by (auto simp: createJob_def)
  have s: "sorted_keys (sc_jobs sc)" using assms(1) by (simp add: jobs_inv_def)
  have "getJob u sc = None" using fresh_uuid_new[OF f] by (simp add: getJob_def map_of_eq_None_iff)
  moreover have "jobs_inv sc'"
    using assms(1) sorted_keys_put[OF s] set_map_put[of u "job_create u t" "sc_jobs sc"]
    by (auto simp: jobs_inv_def sc' job_create_def)
  ultimately show ?thesis by (simp add: sc' getJob_def map_of_put[OF s])
qed

lemma map_fst_update [simp]: "map fst (sc_jobs (update_job j sc)) = map fst (sc_jobs sc)"
  by (simp add: update_job_def comp_def case_prod_beta)

lemma update_job_inv:
  assumes "jobs_inv sc"
  shows "jobs_inv (update_job j sc)"
proof -
  have "sorted_keys (sc_jobs (update_job j sc))"
    using assms by (simp only: jobs_inv_def sorted_keys_def map_fst_update)
  moreover have "sj_uuid x = u" if x: "(u, x) \<in> set (sc_jobs (update_job j sc))" for u x
  proof -
    from x obtain j0 where j0: "(u, j0) \<in> set (sc_jobs sc)" "x = (if u = sj_uuid j then j else j0)"
      by (auto simp: update_job_def)
    from j0(1) assms have "sj_uuid j0 = u" by (auto simp: jobs_inv_def)
    with j0(2) show ?thesis by simp
  qed
  ultimately show ?thesis by (auto simp: jobs_inv_def)
qed

lemma getJob_update:
  "getJob u (update_job j sc) = (if u = sj_uuid j then map_option (\<lambda>_. j) (getJob u sc) else getJob u sc)"
proof -
  have "map_of (map (\<lambda>(u, j0). (u, if u = sj_uuid j then j else j0)) m) u =
      (if u = sj_uuid j then map_option (\<lambda>_. j) (map_of m u) else map_of m u)" for m :: "(string \<times> scan_job) list"
    by (induction m) auto
  then show ?thesis by (simp add: getJob_def update_job_def)
qed

lemma getJob_uuid: "jobs_inv sc \<Longrightarrow> getJob u sc = Some j \<Longrightarrow> sj_uuid j = u"
  by (auto simp: jobs_inv_def getJob_def dest!: map_of_SomeD)

lemma job_init_uuid:
  assumes "job_init pow sv xml auto opts j = Inr j'"
  shows "sj_uuid j' = sj_uuid j"
proof -
  have r: "sj_uuid b = sj_uuid a" if "init_region sv xml a = Inr (e, b)" for a b e
    using init_region_keeps[OF that] by simp
  have c: "sj_uuid (init_color sv xml a) = sj_uuid a" for a
    by (simp add: init_color_def Let_def split: option.split prod.split)
  have f: "sj_uuid (init_format xml auto a) = sj_uuid a" for a by (simp add: init_format_def Let_def)
  have s: "sj_uuid b = sj_uuid a" if "init_source sv xml a = (e, b)" for a b e
    using that by (auto simp: init_source_def Let_def split: if_splits)
  have d: "sj_uuid b = sj_uuid a" if "applyDeviceOptions pow sv opts a = Inr b" for a b
    using that by (auto simp: applyDeviceOptions_def Let_def bind_result_Inr_iff
        dest!: initGammaTable_keeps split: option.splits)
  let ?j1 = "j\<lparr>sj_intent := (if xml_getString xml ''Intent'' = [] then ''Photo'' else xml_getString xml ''Intent'')\<rparr>"
  from assms obtain e1 j2 where j2: "init_region sv xml ?j1 = Inr (e1, j2)"
    by (auto simp: job_init_def Let_def bind_result_Inr_iff)
  obtain e2 j4 where j4: "init_source sv xml ((init_format xml auto (init_color sv xml j2))\<lparr>sj_imagesCompleted := 0\<rparr>) = (e2, j4)"
    by (metis surj_pair)
  from assms j2 j4 obtain j5 where "applyDeviceOptions pow sv opts j4 = Inr j5" "sj_uuid j' = sj_uuid j5"
    by (auto simp: job_init_def Let_def bind_result_Inr_iff)
  with r[OF j2] s[OF j4] d show ?thesis by (simp add: c f)
qed

text \<open>The sessions held by jobs, each of which holds one reference to the SANE library.\<close>

definition jobs_held :: "(string \<times> scan_job) list \<Rightarrow> int" where
  "jobs_held js = sum_list (map (\<lambda>(u, j). held j) js)"

lemma destroy_job_ok:
  assumes "held j \<le> w_refcount w"
  obtains w' where "destroy_job lib j w = Inr w'" "w_refcount w' = w_refcount w - held j"
proof (cases "sj_session j")
  case None
  with that show ?thesis by (simp add: destroy_job_def held_def)
next
  case (Some se)
  with assms obtain w' where "session_destroy lib se w = Inr w'"
      "w_refcount w' = w_refcount w - handles_of (se_device se)"
    using session_destroy_ok[of se w lib] by (auto simp: held_def)
  with Some that show ?thesis by (simp add: destroy_job_def held_def)
qed

lemma held_nonneg: "0 \<le> held j"
  by (simp add: held_def handles_of_def split: option.split)

lemma jobs_held_nonneg: "0 \<le> jobs_held js"
  by (induction js) (auto simp: jobs_held_def held_nonneg)

lemma held_le_jobs_held: "(u, j) \<in> set js \<Longrightarrow> held j \<le> jobs_held js"
proof (induction js)
  case (Cons e js)
  then show ?case using held_nonneg[of "snd e"] jobs_held_nonneg[of js]
    by (cases e) (auto simp: jobs_held_def)
qed simp

definition idle_jobs :: "int \<Rightarrow> int \<Rightarrow> (string \<times> scan_job) list \<Rightarrow> (string \<times> scan_job) list" where
  "idle_jobs t maxIdle js = filter (\<lambda>(u, j). idleSeconds t j > maxIdle) js"

lemma purge_loop_ok:
  assumes "jobs_held js \<le> w_refcount w"
  shows "\<exists>w'. purge_loop lib t maxIdle js w =
      Inr (length (idle_jobs t maxIdle js), filter (\<lambda>(u, j). \<not> idleSeconds t j > maxIdle) js, w') \<and>
    w_refcount w' = w_refcount w - jobs_held (idle_jobs t maxIdle js)"
  using assms
proof (induction js arbitrary: w)
  case (Cons e js)
  obtain u j where e: "e = (u, j)" by (cases e)
  have h: "held j + jobs_held js \<le> w_refcount w" using Cons.prems by (simp add: jobs_held_def e)
  show ?case
  proof (cases "idleSeconds t j > maxIdle")
    case True
    have "held j \<le> w_refcount w" using h jobs_held_nonneg[of js] by simp
    then obtain w1 where w1: "destroy_job lib j w = Inr w1" "w_refcount w1 = w_refcount w - held j"
      by (rule destroy_job_ok)
    with Cons.IH[of w1] h True show ?thesis by (auto simp: e idle_jobs_def jobs_held_def)
  next
    case False
    with Cons.IH[of w] h held_nonneg[of j] show ?thesis by (auto simp: e idle_jobs_def)
  qed
qed (simp add: idle_jobs_def jobs_held_def)

lemma createJob_xml_inv:
  assumes "jobs_inv sc" "createJobFromScanSettingsXml hashfn mid pow draws t xml auto sc = Some (Inr (j, sc'))"
    and "sj_uuid j = u"
  shows "jobs_inv sc' \<and> getJob u sc = None \<and> getJob u sc' = Some j \<and> (\<forall>v. v \<noteq> u \<longrightarrow> getJob v sc' = getJob v sc)"
proof -
  from assms(2) obtain u1 sc1 where c: "createJob hashfn mid draws t sc = Some (u1, sc1)"
    and i: "job_init pow (scanner_view sc1) xml auto (sc_deviceOptions sc1) (job_create u1 t) = Inr j"
    and sc': "sc' = update_job j sc1"
    by (auto simp: createJobFromScanSettingsXml_def bind_result_Inr_iff)
  have u: "u1 = u" using job_init_uuid[OF i] assms(3) by (simp add: job_create_def)
  from createJob_inv[OF assms(1) c] update_job_inv[of sc1 j] assms(3) show ?thesis
    by (auto simp: sc' getJob_update u)
qed

lemma purgeJobs_ok:
  assumes "jobs_inv sc" "jobs_held (sc_jobs sc) \<le> w_refcount w"
  shows "\<exists>sc' w'. purgeJobs lib t maxIdle sc w = Inr (length (idle_jobs t maxIdle (sc_jobs sc)), sc', w') \<and>
    jobs_inv sc' \<and> jobs sc' = filter (\<lambda>j. idleSeconds t j \<le> maxIdle) (jobs sc) \<and>
    w_refcount w' = w_refcount w - jobs_held (idle_jobs t maxIdle (sc_jobs sc)) \<and>
    jobs_held (sc_jobs sc') \<le> w_refcount w'"
proof -
  let ?js = "filter (\<lambda>(u, j). \<not> idleSeconds t j > maxIdle) (sc_jobs sc)"
  from purge_loop_ok[OF assms(2), of lib t maxIdle] obtain w' where
    p: "purge_loop lib t maxIdle (sc_jobs sc) w = Inr (length (idle_jobs t maxIdle (sc_jobs sc)), ?js, w')"
      "w_refcount w' = w_refcount w - jobs_held (idle_jobs t maxIdle (sc_jobs sc))"
    by blast
  have "sorted_keys ?js" using assms(1) by (simp add: jobs_inv_def sorted_keys_def sorted_wrt_map sorted_wrt_filter)
  then have inv: "jobs_inv (sc\<lparr>sc_jobs := ?js\<rparr>)" using assms(1) by (auto simp: jobs_inv_def)
  have split: "jobs_held m = jobs_held (idle_jobs t maxIdle m) + jobs_held (filter (\<lambda>(u, j). \<not> idleSeconds t j > maxIdle) m)" for m
    by (induction m) (auto simp: jobs_held_def idle_jobs_def)
  have "jobs (sc\<lparr>sc_jobs := ?js\<rparr>) = filter (\<lambda>j. idleSeconds t j \<le> maxIdle) (jobs sc)"
    by (auto simp: jobs_def filter_map comp_def not_less intro!: arg_cong[where f = "map snd"] filter_cong)
  with p inv split[of "sc_jobs sc"] assms(2) show ?thesis by (simp add: purgeJobs_def)
qed

subsection \<open>Properties\<close>

text \<open>A new job is filed under a new UUID. Creating a job from a scan ticket keeps the list sorted and
  every job under its own UUID, the UUID of the new job was not in use, the new job can be found under it,
  and no other job is touched.\<close>

theorem job_creation_fresh:
  assumes "jobs_inv sc" "createJobFromScanSettingsXml hashfn mid pow draws t xml auto sc = Some (Inr (j, sc'))"
    and "sj_uuid j = u"
  shows "jobs_inv sc' \<and> getJob u sc = None \<and> getJob u sc' = Some j \<and> (\<forall>v. v \<noteq> u \<longrightarrow> getJob v sc' = getJob v sc)"
  using assms by (rule createJob_xml_inv)

definition demo_scanner :: scanner where
  "demo_scanner = (scanner_init (\<lambda>s. 0) ''m'' []
     \<lparr>di_name = ''test:0'', di_vendor = ''Noname'', di_model = ''Scanner'', di_type = ''virtual''\<rparr>)
     \<lparr>sc_uri := ''/scanner'', sc_platen := Some (new_source ''Flatbed'' (Some 8)),
      sc_maxWidthPx300dpi := Some (Fin 2551), sc_maxHeightPx300dpi := Some (Fin 3508),
      sc_colorScanModeName := ''Color'', sc_grayScanModeName := ''Gray''\<rparr>"

lemma demo_scanner_view: "scanner_view demo_scanner = ticket_scanner"
  "sc_jobs demo_scanner = []" "sc_deviceOptions demo_scanner = default_options"
  by (simp_all add: demo_scanner_def scanner_view_def ticket_scanner_def scanner_init_def new_source_def Let_def)

lemma ticket_accepted:
  "\<exists>j. job_init (\<lambda>a b. a) ticket_scanner ticket False default_options (job_create u t) = Inr j \<and> sj_state j = pending"
proof -
  have c: "color_mode_match ''RGB24'' = Some (''RGB'', ''24'')" by code_simp
  show ?thesis
    by (simp add: job_init_def ticket_region ticket_values init_color_def c init_format_def init_source_def
        applyDeviceOptions_def initGammaTable_def default_options_def deq_def job_create_def
        MIME_TYPE_JPEG_def Let_def)
qed

theorem job_creation_fresh_witness:
  "\<exists>j sc'. createJobFromScanSettingsXml (\<lambda>s. 0) ''m'' (\<lambda>a b. a) [(1000, 7)] 1000 ticket False demo_scanner = Some (Inr (j, sc')) \<and>
     getJob (sj_uuid j) demo_scanner = None \<and> getJob (sj_uuid j) sc' = Some j"
proof -
  let ?u = "job_uuid (\<lambda>s. 0) ''m'' (sc_uuid demo_scanner) (1000, 7)"
  let ?sc = "demo_scanner\<lparr>sc_jobs := [(?u, job_create ?u 1000)]\<rparr>"
  obtain j where j: "job_init (\<lambda>a b. a) ticket_scanner ticket False default_options (job_create ?u 1000) = Inr j"
    using ticket_accepted by blast
  have v: "scanner_view ?sc = ticket_scanner" "sc_deviceOptions ?sc = default_options"
    using demo_scanner_view by (simp_all add: scanner_view_def)
  have "createJob (\<lambda>s. 0) ''m'' [(1000, 7)] 1000 demo_scanner = Some (?u, ?sc)"
    by (simp add: createJob_def demo_scanner_view Let_def)
  then have r: "createJobFromScanSettingsXml (\<lambda>s. 0) ''m'' (\<lambda>a b. a) [(1000, 7)] 1000 ticket False demo_scanner =
      Some (Inr (j, update_job j ?sc))"
    using v j by (simp add: createJobFromScanSettingsXml_def)
  have "jobs_inv demo_scanner" by (simp add: jobs_inv_def sorted_keys_def demo_scanner_view)
  from job_creation_fresh[OF this r refl] r show ?thesis by auto
qed

text \<open>Two jobs, one of them idle for an hour and with a session.\<close>

definition demo_jobs :: scanner where
  "demo_jobs = demo_scanner\<lparr>sc_jobs := [(''a'', (job_create ''a'' 0)\<lparr>sj_session :=
      Some \<lparr>se_device = Some 1, se_options = \<lparr>os_device = Some 1, os_options = Map.empty\<rparr>, se_status = GOOD,
            se_parameters = no_parameters\<rparr>\<rparr>), (''b'', job_create ''b'' 3600)]\<rparr>"

lemma demo_jobs_inv: "jobs_inv demo_jobs" "jobs_held (sc_jobs demo_jobs) \<le> 1"
  by (simp_all add: jobs_inv_def sorted_keys_def demo_jobs_def job_create_def jobs_held_def held_def handles_of_def
      less_char_def)

text \<open>Cancelling works on the job that was asked for. For an unknown UUID nothing changes and the answer is
  no; otherwise the job ends up cancelled without a session, with its device handle given back, and the
  other jobs are untouched.\<close>

theorem job_cancellation:
  assumes "jobs_inv sc" "jobs_held (sc_jobs sc) \<le> w_refcount w"
  shows "\<exists>found sc' w'. cancelJob lib u sc w = Inr (found, sc', w') \<and> jobs_inv sc' \<and>
    found = (getJob u sc \<noteq> None) \<and> (\<forall>v. v \<noteq> u \<longrightarrow> getJob v sc' = getJob v sc) \<and>
    (case getJob u sc of None \<Rightarrow> sc' = sc \<and> w' = w
     | Some j \<Rightarrow> (\<exists>j'. getJob u sc' = Some j' \<and> sj_state j' = canceled \<and> sj_session j' = None) \<and>
         w_refcount w' = w_refcount w - held j)"
proof (cases "getJob u sc")
  case None
  with assms(1) show ?thesis by (auto simp: cancelJob_def)
next
  case (Some j)
  let ?j = "set_state canceled PWG_JOB_CANCELED_BY_USER j"
  have u: "sj_uuid j = u" using getJob_uuid[OF assms(1) Some] .
  have "held j \<le> w_refcount w"
    using held_le_jobs_held[of u j "sc_jobs sc"] Some assms(2) by (auto simp: getJob_def dest: map_of_SomeD)
  then obtain w' where c: "closeSession lib ?j w = Inr (?j\<lparr>sj_session := None\<rparr>, w')" "w_refcount w' = w_refcount w - held j"
    using closeSession_ok[of ?j w lib] by auto
  let ?sc = "update_job (?j\<lparr>sj_session := None\<rparr>) sc"
  have uu: "sj_uuid (?j\<lparr>sj_session := None\<rparr>) = u" using u by (simp add: set_state_def)
  have "cancelJob lib u sc w = Inr (True, ?sc, w')" using Some c(1) by (simp add: cancelJob_def job_cancel_def)
  moreover have "getJob u ?sc = Some (?j\<lparr>sj_session := None\<rparr>)" using Some uu by (simp add: getJob_update)
  moreover have "getJob v ?sc = getJob v sc" if "v \<noteq> u" for v using that uu by (simp add: getJob_update)
  ultimately show ?thesis using Some c(2) update_job_inv[OF assms(1)]
    by (intro exI[of _ True] exI[of _ ?sc] exI[of _ w']) simp
qed

text \<open>Purging removes exactly the jobs that have been idle for too long and reports their number; the
  others keep their order, the list stays well formed, and the device handles that the removed jobs still
  held are given back.\<close>

theorem job_purging:
  assumes "jobs_inv sc" "jobs_held (sc_jobs sc) \<le> w_refcount w"
  shows "\<exists>sc' w'. purgeJobs lib t maxIdle sc w = Inr (length (idle_jobs t maxIdle (sc_jobs sc)), sc', w') \<and>
    jobs_inv sc' \<and> jobs sc' = filter (\<lambda>j. idleSeconds t j \<le> maxIdle) (jobs sc) \<and>
    w_refcount w' = w_refcount w - jobs_held (idle_jobs t maxIdle (sc_jobs sc)) \<and>
    jobs_held (sc_jobs sc') \<le> w_refcount w'"
  using assms by (rule purgeJobs_ok)

theorem job_cancellation_witness:
  "\<forall>lib s. \<exists>sc' w'. cancelJob lib ''a'' demo_jobs \<lparr>w_sane = s, w_refcount = 1\<rparr> = Inr (True, sc', w') \<and> w_refcount w' = 0"
proof (intro allI)
  fix lib :: "'a sane_lib" and s :: 'a
  have "jobs_held (sc_jobs demo_jobs) \<le> w_refcount \<lparr>w_sane = s, w_refcount = 1\<rparr>" using demo_jobs_inv(2) by simp
  from job_cancellation[OF demo_jobs_inv(1) this, of lib "''a''"]
  show "\<exists>sc' w'. cancelJob lib ''a'' demo_jobs \<lparr>w_sane = s, w_refcount = 1\<rparr> = Inr (True, sc', w') \<and> w_refcount w' = 0"
    by (auto simp: getJob_def demo_jobs_def held_def handles_of_def)
qed

theorem job_purging_witness:
  "\<forall>lib s. \<exists>sc' w'. purgeJobs lib 3600 300 demo_jobs \<lparr>w_sane = s, w_refcount = 1\<rparr> = Inr (1, sc', w') \<and>
     length (jobs sc') = 1 \<and> w_refcount w' = 0"
proof (intro allI)
  fix lib :: "'a sane_lib" and s :: 'a
  have "jobs_held (sc_jobs demo_jobs) \<le> w_refcount \<lparr>w_sane = s, w_refcount = 1\<rparr>" using demo_jobs_inv(2) by simp
  from job_purging[OF demo_jobs_inv(1) this, of lib 3600 300]
  show "\<exists>sc' w'. purgeJobs lib 3600 300 demo_jobs \<lparr>w_sane = s, w_refcount = 1\<rparr> = Inr (1, sc', w') \<and>
     length (jobs sc') = 1 \<and> w_refcount w' = 0"
    by (auto simp: idle_jobs_def demo_jobs_def idleSeconds_def job_create_def jobs_def jobs_held_def held_def handles_of_def)
qed

end
