(* ===== verification/DocumentStream.thy ===== *)
theory DocumentStream
  imports ScanJob HttpProtocol Scanner
begin

text \<open>
  Sending the document of a scan job to the client: \<open>job->finishTransfer(response.send())\<close>, as
  \<open>src/server/server.cpp\<close> and \<open>src/server/scannerpage.cpp\<close> do.

  The encoder works on the stream that \<open>send\<close> returns. When the response is chunked this is the chunk stream: it
  counts positions from the start of the document, and a flush that has something to write succeeds when the flush of
  the connection does. What was written to it, with the positions of the flushes, is then what the chunk buffer
  was given.
\<close>

definition document_stream :: "response \<Rightarrow> ostream" where
  "document_stream r = (case rs_chunk r of None \<Rightarrow> rs_stream r
     | Some cb \<Rightarrow> \<lparr>os_data = [], os_fail = cb_fail cb,
         os_flushes = (if os_fail (rs_stream r) then [False] else os_flushes (rs_stream r)), os_cuts = []\<rparr>)"

fun document_ops :: "nat \<Rightarrow> nat list \<Rightarrow> string \<Rightarrow> stream_op list" where
  "document_ops pos [] d = [Put d]"
| "document_ops pos (c # cs) d = Put (take (c - pos) d) # Flush # document_ops c cs (drop (c - pos) d)"

definition put_document :: "ostream \<Rightarrow> response \<Rightarrow> response" where
  "put_document os r = (if rs_chunk r = None then r\<lparr>rs_stream := os\<rparr>
     else fold resp_op (document_ops 0 (os_cuts os) (os_data os)) r)"

definition send_document ::
  "'s sane_lib \<Rightarrow> 'l encoder_env \<Rightarrow> scanner_info \<Rightarrow> scan_job \<Rightarrow> response \<Rightarrow> 's world
    \<Rightarrow> (response \<times> scan_job \<times> 's world) result option" where
  "send_document lib en sv j r w =
     (case response_send r of Inl e \<Rightarrow> Some (Inl e)
      | Inr r1 \<Rightarrow> map_option (\<lambda>x. bind_result x (\<lambda>(os, j', w'). Inr (put_document os r1, j', w')))
                   (finishTransfer lib en sv (document_stream r1) j w))"

lemma document_ops_data: "concat (map op_data (document_ops pos cs d)) = d"
  by (induction pos cs d rule: document_ops.induct) simp_all

lemma document_stream_reliable:
  "os_reliable (rs_stream r) \<Longrightarrow> rs_chunk r = Some cb \<Longrightarrow> \<not> cb_fail cb \<Longrightarrow>
     os_reliable (document_stream r) \<and> os_data (document_stream r) = []"
  by (auto simp: document_stream_def os_reliable_def)

text \<open>What the client decodes is the document, as a whole.\<close>

lemma send_document_decoded:
  assumes "response_header r HTTP_HEADER_TRANSFER_ENCODING = ''chunked''" "os_reliable (rs_stream r)"
    "rs_chunk r = None" "headers_inv (rs_headers r)"
    and "send_document lib en sv j r w = Some (Inr (r', j', w'))"
  shows "\<exists>r1 os enc. response_send r = Inr r1 \<and> os_reliable (document_stream r1) \<and> os_data (document_stream r1) = [] \<and>
    finishTransfer lib en sv (document_stream r1) j w = Some (Inr (os, j', w')) \<and>
    os_data (response_end r') = os_data (rs_stream r) @ status_line (rs_status r) @ print_headers (rs_headers r1) @ crlf @ enc \<and>
    unchunk_all enc = Some (os_data os)"
proof -
  from assms(5) obtain r1 os where r1: "response_send r = Inr r1"
      "finishTransfer lib en sv (document_stream r1) j w = Some (Inr (os, j', w'))" "r' = put_document os r1"
    by (auto simp: send_document_def bind_result_Inr_iff split: sum.splits)
  let ?ops = "document_ops 0 (os_cuts os) (os_data os)"
  from chunked_send_ops[OF assms(1-4), of ?ops] r1(1) obtain enc where
    c: "rs_chunk r1 = Some chunk_init" "os_reliable (rs_stream r1)"
      "os_data (response_end (fold resp_op ?ops r1)) = os_data (rs_stream r) @ status_line (rs_status r)
        @ print_headers (rs_headers r1) @ crlf @ enc" "unchunk_all enc = Some (concat (map op_data ?ops))"
    by auto
  with r1 document_stream_reliable[OF c(2,1)] show ?thesis
    by (auto simp: put_document_def document_ops_data chunk_init_def)
qed

end
