(* ===== verification/ScannerPage.thy ===== *)
theory ScannerPage
  imports DocumentStream WebPage
begin

text \<open>
  The pages of the web interface, \<open>src/server/mainpage.cpp\<close> and \<open>src/server/scannerpage.cpp\<close>. The page of a scanner
  also runs scans: the form is turned into a scan ticket, and the result is sent instead of the page.

  What the handlers need beyond the sources is the record \<open>server_env\<close>: SANE, the image libraries, \<open>std::hash\<close>, the
  machine's id, \<open>std::pow\<close>, what \<open>time\<close> and \<open>rand\<close> return when a job gets its UUID, the host's name, the files on disk, and
  the strings that the build generates. Whether the session opened last is still alive (\<open>mpSession\<close>) is \<open>env_isOpen\<close>.
\<close>

record build_info =
  bi_timestamp :: string
  bi_commit :: string
  bi_branch :: string
  bi_revision :: string

record ('s, 'l) server_env =
  env_lib :: "'s sane_lib"
  env_encoders :: "'l encoder_env"
  env_hash :: "string \<Rightarrow> 64 word"
  env_machineId :: string
  env_pow :: "dbl \<Rightarrow> dbl \<Rightarrow> dbl"
  env_draws :: "(int \<times> int) list"
  env_hostname :: string
  env_file :: "string \<Rightarrow> string option"
  env_isOpen :: bool
  env_build :: build_info

subsection \<open>The main page\<close>

definition icon_img :: "string \<Rightarrow> string \<Rightarrow> string" where
  "icon_img padding url =
     ''<img src='' @ quoted url @ '' alt='' @ quoted ''Scanner Icon'' @ '' style='' @
     quoted (''width:1.2em;height:1.2em;vertical-align:bottom;padding-right:'' @ padding) @ ''>''"

fun main_items :: "scanner list \<Rightarrow> element \<Rightarrow> element result" where
  "main_items [] l = Inr l"
| "main_items (sc # scs) l =
     bind_result (toRelativeUrl (sc_iconUrl sc)) (\<lambda>icon.
     bind_result (toRelativeUrl (sc_adminUrl sc)) (\<lambda>url.
       main_items scs (addContent nl (addItemElement
         (addText (sc_publishedName sc) (addContent (if icon \<noteq> [] then icon_img ''0.6em'' icon else []) (anchor url))) l))))"

definition main_scanners :: "scanner list \<Rightarrow> string result" where
  "main_scanners scs =
     (if scs = [] then Inr (element_toString (addText ''No scanners available'' paragraph_el))
      else bind_result (main_items scs html_list) (\<lambda>l. Inr (element_toString l @ nl)))"

definition main_build :: "build_info \<Rightarrow> string" where
  "main_build b =
     element_toString (addText ''Build'' (heading 2)) @
     element_toString (addContent nl (addItemElement (addText (''commit: '' @ bi_commit b @ '' (branch '' @ bi_branch b @
         '', revision '' @ bi_revision b @ '')'') paragraph_el)
       (addContent nl (addItemElement (addText (''date: '' @ bi_timestamp b) paragraph_el) html_list)))) @ nl"

definition main_maintenance :: string where
  "main_maintenance =
     element_toString (addText ''Server Maintenance'' (heading 2)) @
     element_toString (addContent nl (addItemElement (addText ''Reset'' (anchor ''/reset'')) html_list)) @ nl"

definition main_onRender :: "build_info \<Rightarrow> scanner list \<Rightarrow> bool \<Rightarrow> bool \<Rightarrow> 'w renderer" where
  "main_onRender b scs resetoption discloseversion p rq r w =
     Some (bind_result (main_scanners scs) (\<lambda>scanners.
       Inr (p, element_toString (addText (pg_title p) (heading 1)) @ nl @
         element_toString (addText ''Scanners'' (heading 2)) @ scanners @
         (if discloseversion then main_build b else []) @
         (if resetoption then main_maintenance else []), rq, r, w)))"

subsection \<open>Scanning from the page\<close>

definition paperSizes :: "(string \<times> int \<times> int) list" where
  "paperSizes = [(''A4 Portrait'', 2480, 3508), (''A4 Landscape'', 3508, 2480), (''A5 Portrait'', 1748, 2480),
     (''A5 Landscape'', 2480, 1748), (''A6 Portrait'', 1240, 1748), (''A6 Landscape'', 1748, 1240),
     (''US Letter'', 2550, 3300), (''US Legal'', 2550, 4200), (''Full'', 0, 0)]"

definition ticket_line :: "string \<times> string \<Rightarrow> string" where
  "ticket_line s = ''<x:'' @ fst s @ ''>'' @ snd s @ ''</x:'' @ fst s @ ''>'' @ nl"

definition ticket_entries :: "dictionary \<Rightarrow> dictionary" where
  "ticket_entries dict =
     (let d1 = eraseKey (eraseKey dict ''preview'') ''Resolution'';
          d2 = dict_set d1 ''XResolution'' (getString dict ''Resolution'');
          d3 = dict_set d2 ''YResolution'' (getString dict ''Resolution'');
          d4 = eraseKey d3 ''PaperSize''
      in dict_set (dict_set (dict_set d4 ''XOffset'' ''0'') ''YOffset'' ''0'') ''ConcatIfPossible'' ''1'')"

definition buildScanJobTicket :: "dictionary \<Rightarrow> string" where
  "buildScanJobTicket dict =
     ''<x:ContentRegionUnits>escl:ThreeHundredthsOfInches</x:ContentRegionUnits>'' @ nl @
     concat (map ticket_line (ticket_entries dict))"

text \<open>A size of zero stands for the size of the scanner. Looking for \<open>PaperSize\<close> creates the entry.\<close>

fun apply_paper :: "scanner \<Rightarrow> (string \<times> int \<times> int) list \<Rightarrow> dictionary \<Rightarrow> dictionary result" where
  "apply_paper sc [] d = Inr d"
| "apply_paper sc ((name, w, h) # ps) d =
     (let d1 = fst (dict_ref d ''PaperSize'') in
      if getString d1 ''PaperSize'' = name then
        bind_result (if w = 0 then use_int (maxWidthPx300dpi sc) else Inr w) (\<lambda>width.
        bind_result (if h = 0 then use_int (maxHeightPx300dpi sc) else Inr h) (\<lambda>height.
          Inr (dict_set (dict_set d1 ''Width'' (wp_numtostr (dbl_of_int width))) ''Height'' (wp_numtostr (dbl_of_int height)))))
      else apply_paper sc ps d1)"

definition scan_dictionary :: "scanner \<Rightarrow> bool \<Rightarrow> dictionary \<Rightarrow> dictionary result" where
  "scan_dictionary sc preview d =
     bind_result
       (if preview then bind_result (use_int (sc_minResDpi sc)) (\<lambda>mn.
          Inr (dict_set (dict_set (dict_set (dict_set (dict_set d ''Resolution'' (wp_numtostr (dbl_of_int (max 50 mn))))
            ''Intent'' ''Preview'') ''PaperSize'' ''Full'') ''DocumentFormat'' MIME_TYPE_JPEG) ''ColorMode'' ''RGB24''))
        else Inr (dict_set d ''Intent'' ''TextAndGraphic''))
       (apply_paper sc paperSizes)"

definition document_headers :: "string \<Rightarrow> response \<Rightarrow> response" where
  "document_headers format r =
     setHeader HTTP_HEADER_TRANSFER_ENCODING ''chunked'' (setHeader HTTP_HEADER_CONTENT_TYPE format
       (setHeader HTTP_HEADER_CONTENT_DISPOSITION
         (''attachment;filename='' @ dquote @ ''Scan'' @ fileExtension format @ dquote) r))"

text \<open>
  The job of the form. The outer option is \<open>None\<close> when the job was sent, and otherwise the address of the preview
  image and the text for the status line.
\<close>

type_synonym 's page_scan = "(string \<times> string) option \<times> response \<times> scanner \<times> 's world"

definition scan_from_page ::
  "('s, 'l) server_env \<Rightarrow> bool \<Rightarrow> bool \<Rightarrow> dictionary \<Rightarrow> response \<Rightarrow> scanner \<Rightarrow> 's world \<Rightarrow> 's page_scan result option" where
  "scan_from_page env download preview dict r sc w =
     (let lib = env_lib env in
      case createJobFromScanSettingsXml (env_hash env) (env_machineId env) (env_pow env) (env_draws env) (now lib w)
             (buildScanJobTicket dict) False sc of
        None \<Rightarrow> None | Some (Inl e) \<Rightarrow> Some (Inl e)
      | Some (Inr (j, sc1)) \<Rightarrow>
          let sv = scanner_view sc1; uri = (if preview then job_uri sv j @ ''/NextDocument'' else []) in
          if \<not> download then Some (Inr (Some (uri, []), r, sc1, w))
          else (case beginTransfer lib sv j w of None \<Rightarrow> None | Some (Inl e) \<Rightarrow> Some (Inl e)
             | Some (Inr (ok, j1, w1)) \<Rightarrow>
                 if ok then
                   map_option (\<lambda>x. bind_result x (\<lambda>(r', j2, w2). Inr (None, r', update_job j2 sc1, w2)))
                     (send_document lib (env_encoders env) sv j1 (document_headers (sj_documentFormat j1) r) w1)
                 else Some (Inr (Some (uri, ''Error: '' @ job_statusString j1 @ '': '' @ sj_stateReason j1),
                        setHeader HTTP_HEADER_REFRESH ''5; url=/'' r, update_job j1 sc1, w1))))"

subsection \<open>The form\<close>

definition offered_resolutions :: "scanner \<Rightarrow> string list result" where
  "offered_resolutions sc =
     bind_result (use_int (sc_minResDpi sc)) (\<lambda>mn.
     bind_result (use_int (sc_maxResDpi sc)) (\<lambda>mx.
       Inr (map (\<lambda>r. wp_numtostr (dbl_of_int r) @ '' dpi'') (mn # filter (\<lambda>r. r \<le> mx) [300, 600, 1200]))))"

definition offered_papers :: "scanner \<Rightarrow> string list result" where
  "offered_papers sc =
     bind_result (use_int (maxWidthPx300dpi sc)) (\<lambda>mw.
     bind_result (use_int (maxHeightPx300dpi sc)) (\<lambda>mh.
       Inr (map fst (filter (\<lambda>(name, w, h). w \<le> mw \<and> h \<le> mh) paperSizes))))"

text \<open>\<open>front()\<close> of an empty vector is undefined.\<close>

definition front :: "'a list \<Rightarrow> 'a result" where
  "front xs = (case xs of [] \<Rightarrow> Inl MemoryUB | x # _ \<Rightarrow> Inr x)"

definition int_ok :: "int \<Rightarrow> bool" where
  "int_ok n \<longleftrightarrow> - (2 ^ 31) \<le> n \<and> n < 2 ^ 31"

definition preview_height :: "scanner \<Rightarrow> int result" where
  "preview_height sc =
     bind_result (use_int (maxHeightPx300dpi sc)) (\<lambda>h.
     bind_result (use_int (maxWidthPx300dpi sc)) (\<lambda>w.
       if \<not> int_ok (h * 320) \<or> w = 0 then Inl OverflowUB
       else Inr (sgn (h * 320) * sgn w * (\<bar>h * 320\<bar> div \<bar>w\<bar>))))"

definition form_select :: "dictionary \<Rightarrow> string \<times> string \<times> string list \<Rightarrow> string" where
  "form_select d s = (case s of (name, label, options) \<Rightarrow>
     ''<nobr>'' @ element_toString (setValue (getString d name) (setLabel label (setName name (addOptions options formSelect)))) @
     ''</nobr>'' @ element_toString br)"

definition feeder_note :: "scanner \<Rightarrow> string" where
  "feeder_note sc = (if ''Feeder'' \<in> set (sc_inputSources sc)
     then ''Choose '' @ dquote @ ''Feeder'' @ dquote @ '' input source and '' @ dquote @ ''PDF'' @ dquote @
       ''<br>document type to scan multiple pages.'' else [])"

definition preview_image :: "string \<Rightarrow> int \<Rightarrow> string" where
  "preview_image imageuri imgheight =
     (if imageuri = [] then element_toString (addText ''Preview'' (setAttribute ''id'' ''previewlabel'' (new_element ''span'')))
      else element_toString (setAttributeNum ''height'' (dbl_of_int imgheight) (setAttributeNum ''width'' (Fin 320)
        (setAttribute ''alt'' ''Preview'' (setAttribute ''src'' imageuri (new_element ''img''))))))"

definition scanner_form :: "scanner \<Rightarrow> page \<Rightarrow> dictionary \<Rightarrow> string \<Rightarrow> string \<Rightarrow> string result" where
  "scanner_form sc p d0 imageuri statusinfo =
     bind_result (if sc_iconUrl sc = [] then Inr [] else bind_result (toRelativeUrl (sc_iconUrl sc)) (\<lambda>u. Inr (icon_img ''0.3em'' u))) (\<lambda>icondef.
     bind_result (front (sc_colorModes sc)) (\<lambda>color.
     bind_result (offered_resolutions sc) (\<lambda>resolutions.
     bind_result (offered_papers sc) (\<lambda>papers.
     bind_result (front papers) (\<lambda>paper.
     bind_result (preview_height sc) (\<lambda>imgheight.
       let d = fold (\<lambda>(k, v) d. fst (applyDefaultValue d k v))
                 [(''InputSource'', ''Platen''), (''DocumentFormat'', ''image/jpeg''), (''Resolution'', ''300 dpi''),
                  (''ColorMode'', color), (''PaperSize'', paper)] d0 in
       Inr ((if pg_title p = [] then [] else element_toString (addText (pg_title p) (addContent icondef (heading 1)))) @
         ''<form id='' @ quoted ''scanform'' @ '' method='' @ quoted ''POST'' @ ''>'' @ nl @
         ''<div id='' @ quoted ''maindiv'' @ ''>'' @ nl @ ''<div id='' @ quoted ''settings'' @ ''>'' @ nl @
         concat (map (form_select d)
           [(''DocumentFormat'', ''Document type'', sc_documentFormats sc), (''ColorMode'', ''Color mode'', sc_colorModes sc),
            (''InputSource'', ''Input source'', sc_inputSources sc), (''PaperSize'', ''Paper size'', papers),
            (''Resolution'', ''Resolution'', resolutions)]) @
         ''<div id='' @ quoted ''note'' @ ''>'' @ feeder_note sc @ ''</div>'' @ nl @
         ''<div id='' @ quoted ''status'' @ ''>'' @ statusinfo @ ''</div>'' @ nl @
         ''</div>'' @ nl @ ''<div id='' @ quoted ''downloadbtn'' @ ''>'' @ nl @
         element_toString (setValue ''Scan and download'' (setName ''download'' (formInput ''submit''))) @ ''</div>'' @ nl @
         ''<div id='' @ quoted ''previewpane'' @ ''>'' @ ''<div id='' @ quoted ''previewimg'' @ '' style='' @
         quoted (''width:320px;height:'' @ wp_numtostr (dbl_of_int imgheight) @ ''px'') @ ''>'' @ nl @
         preview_image imageuri imgheight @ ''</div>'' @ nl @
         element_toString (setAttribute ''id'' ''previewbtn'' (setValue ''Update preview'' (setName ''preview'' (formInput ''submit'')))) @
         ''</div>'' @ nl @ ''</div>'' @ nl @ ''</form>'' @ nl)))))))"

definition scanner_style :: string where
  "scanner_style = nl @ concat (map (\<lambda>l. ''        '' @ l @ nl)
     [''#scanform { position:relative; float:left; overflow:hidden; background-color:lightsteelblue }'',
      ''#maindiv { float:left; overflow:hidden; padding:0 }'',
      ''#settings { float:left; min-width:45%; padding:0.2em }'',
      ''#downloadbtn { position:absolute; bottom:8px; margin-left:8px }'',
      ''#previewbtn  { position:absolute; bottom:8px; margin-left:8px }'',
      ''#note { padding:2em; font-size:small }'',
      ''#status { padding-top:2em; color:red }'',
      ''#previewpane { overflow:hidden }'',
      ''#previewimg { background-color:lightgray; line-height:2.5em; text-align:left }'',
      ''#previewlabel { position:absolute; top 8px; margin-left:8px }'',
      ''label { display:inline-block; padding-right:5%; padding-top:0.5em; width:40%; text-align:right; }'',
      ''input[type=text], input[type=number] { display:inline-block; width:40%; text-align:left; }'']) @ ''    ''"

definition ScannerPage_init :: "scanner \<Rightarrow> page result" where
  "ScannerPage_init sc = bind_result (toRelativeUrl (sc_iconUrl sc)) (\<lambda>u. Inr (setFavicon MIME_TYPE_PNG u page_init))"

definition scanner_onRender :: "('s, 'l) server_env \<Rightarrow> (scanner \<times> 's world) renderer" where
  "scanner_onRender env p rq r = (\<lambda>(sc, w).
     (case request_formData rq of Inl e \<Rightarrow> Some (Inl e)
      | Inr (rq', d) \<Rightarrow>
          let preview = hasKey d ''preview''; download = hasKey d ''download'' in
          (case (if preview \<or> download then
                   (case scan_dictionary sc preview d of Inl e \<Rightarrow> Some (Inl e)
                    | Inr sd \<Rightarrow> scan_from_page env download preview sd r sc w)
                 else Some (Inr (Some ([], []), r, sc, w))) of
             None \<Rightarrow> None | Some (Inl e) \<Rightarrow> Some (Inl e)
           | Some (Inr (None, r', sc', w')) \<Rightarrow> Some (Inr (p, [], rq', r', (sc', w')))
           | Some (Inr (Some (imageuri, statusinfo), r', sc', w')) \<Rightarrow>
               Some (bind_result (scanner_form sc' p d imageuri statusinfo) (\<lambda>body.
                 Inr (addStyle scanner_style p, body, rq', r', (sc', w')))))))"

end
