(* ===== verification/Url.thy ===== *)
theory Url
  imports AirSane_Prelude
begin

text \<open>
  \<open>src/basic/url.cpp\<close>: taking a URL apart and printing it. The searches of the source are relative to a
  position that only moves forward; here the part before that position is dropped.
\<close>

record url =
  ur_protocol :: string
  ur_host :: string
  ur_port :: string
  ur_user :: string
  ur_password :: string
  ur_path :: string

definition split_colon :: "string \<Rightarrow> string \<times> string" where
  "split_colon s = (case find_str '':'' s of
      Some pos3 \<Rightarrow> (take pos3 s, drop (pos3 + 1) s)
    | None \<Rightarrow> (s, []))"

definition Url_parse :: "string \<Rightarrow> url" where
  "Url_parse u =
     (let (protocol, s1) = (case find_str ''://'' u of
              Some pos \<Rightarrow> (take pos u, drop (pos + 3) u)
            | None \<Rightarrow> ([], u));
          ((user, password), s2) = (case find_str ''@'' s1 of
              Some pos2 \<Rightarrow> (split_colon (take pos2 s1), drop (pos2 + 1) s1)
            | None \<Rightarrow> (([], []), s1));
          (hostandport, path) = (case find_str ''/'' s2 of
              Some pos2 \<Rightarrow> (take pos2 s2, drop pos2 s2)
            | None \<Rightarrow> (s2, []));
          (host, port) = split_colon hostandport
      in \<lparr>ur_protocol = protocol, ur_host = host, ur_port = port, ur_user = user,
          ur_password = password, ur_path = path\<rparr>)"

definition Url_print :: "url \<Rightarrow> string" where
  "Url_print u =
     (if ur_protocol u \<noteq> [] then ur_protocol u @ ''://'' else []) @
     (if ur_user u \<noteq> []
      then ur_user u @ (if ur_password u \<noteq> [] then '':'' @ ur_password u else []) @ ''@''
      else []) @
     ur_host u @
     (if ur_port u \<noteq> [] then '':'' @ ur_port u else []) @
     ur_path u"

subsection \<open>Parsing what was printed\<close>

text \<open>The parts of a URL hold no character that separates them; an \<open>@\<close> in the path needs a user.\<close>

definition url_ok :: "url \<Rightarrow> bool" where
  "url_ok u \<longleftrightarrow>
     ur_protocol u \<noteq> [] \<and> CHR '':'' \<notin> set (ur_protocol u) \<and>
     (ur_user u = [] \<longrightarrow> ur_password u = [] \<and> CHR ''@'' \<notin> set (ur_path u)) \<and>
     CHR '':'' \<notin> set (ur_user u) \<and> CHR ''@'' \<notin> set (ur_user u @ ur_password u @ ur_host u @ ur_port u) \<and>
     CHR '':'' \<notin> set (ur_host u) \<and> CHR ''/'' \<notin> set (ur_host u @ ur_port u) \<and>
     (ur_path u = [] \<or> hd (ur_path u) = CHR ''/'')"

lemma split_colon_join:
  "CHR '':'' \<notin> set a \<Longrightarrow> split_colon (a @ (if b \<noteq> [] then '':'' @ b else [])) = (a, b)"
  by (auto simp: split_colon_def find_str_singleton_append find_str_None_first)

lemma split_path:
  assumes "CHR ''/'' \<notin> set a" "p = [] \<or> hd p = CHR ''/''"
  shows "(case find_str ''/'' (a @ p) of Some i \<Rightarrow> (take i (a @ p), drop i (a @ p)) | None \<Rightarrow> (a @ p, [])) = (a, p)"
proof (cases p)
  case Nil
  with assms show ?thesis by (simp add: find_str_None_first)
next
  case (Cons c r)
  with assms show ?thesis by (simp add: find_str_singleton_append)
qed

lemma split_user:
  assumes "CHR ''@'' \<notin> set up" "up = [] \<longrightarrow> CHR ''@'' \<notin> set r"
  shows "(case find_str ''@'' ((if up \<noteq> [] then up @ ''@'' else []) @ r) of
      Some i \<Rightarrow> (split_colon (take i ((if up \<noteq> [] then up @ ''@'' else []) @ r)),
                  drop (i + 1) ((if up \<noteq> [] then up @ ''@'' else []) @ r))
    | None \<Rightarrow> (([], []), (if up \<noteq> [] then up @ ''@'' else []) @ r)) =
    (if up \<noteq> [] then split_colon up else ([], []), r)"
  using assms by (auto simp: find_str_singleton_append find_str_None_first)

subsection \<open>Properties\<close>

text \<open>A URL whose parts hold none of the separators is read back from its printed form.\<close>

theorem url_roundtrip:
  assumes "url_ok u"
  shows "Url_parse (Url_print u) = u"
proof -
  let ?up = "ur_user u @ (if ur_password u \<noteq> [] then '':'' @ ur_password u else [])"
  let ?upw = "if ur_user u \<noteq> [] then ?up else []"
  let ?hp = "ur_host u @ (if ur_port u \<noteq> [] then '':'' @ ur_port u else [])"
  let ?s2 = "?hp @ ur_path u"
  let ?s1 = "(if ?upw \<noteq> [] then ?upw @ ''@'' else []) @ ?s2"
  note ok = assms[unfolded url_ok_def]
  have p: "Url_print u = ur_protocol u @ ''://'' @ ?s1" using ok by (simp add: Url_print_def)
  have f: "find_str ''://'' (Url_print u) = Some (length (ur_protocol u))"
    using find_str_append_first[of "CHR '':''" "ur_protocol u" "''//''" ?s1] ok p by simp
  have d: "drop (length (ur_protocol u) + 3) (Url_print u) = ?s1" by (simp add: p)
  have 1: "(if ?upw \<noteq> [] then split_colon ?upw else ([], [])) = (ur_user u, ur_password u)"
    using ok split_colon_join[of "ur_user u" "ur_password u"] by auto
  have 2: "(case find_str ''@'' ?s1 of Some i \<Rightarrow> (split_colon (take i ?s1), drop (i + 1) ?s1)
      | None \<Rightarrow> (([], []), ?s1)) = ((ur_user u, ur_password u), ?s2)"
    unfolding 1[symmetric] using ok by (intro split_user) auto
  have 3: "(case find_str ''/'' ?s2 of Some i \<Rightarrow> (take i ?s2, drop i ?s2) | None \<Rightarrow> (?s2, [])) = (?hp, ur_path u)"
    using ok by (intro split_path) auto
  have 4: "split_colon ?hp = (ur_host u, ur_port u)" using ok by (intro split_colon_join) simp
  show ?thesis
    unfolding Url_parse_def f option.case d Let_def prod.case 2 3 4 by (simp add: p)
qed

theorem url_roundtrip_witness:
  "Url_parse (Url_print \<lparr>ur_protocol = ''http'', ur_host = ''host.org'', ur_port = ''1234'', ur_user = ''user'',
       ur_password = ''password'', ur_path = ''/some/path/''\<rparr>) =
     \<lparr>ur_protocol = ''http'', ur_host = ''host.org'', ur_port = ''1234'', ur_user = ''user'',
      ur_password = ''password'', ur_path = ''/some/path/''\<rparr>"
  by (intro url_roundtrip) (simp add: url_ok_def)

text \<open>An \<open>@\<close> in the path is taken for the end of the user name: the host of such a URL is what follows
  the last part of its path.\<close>

theorem url_at_in_path:
  "ur_host (Url_parse ''http://host/mail@b'') = ''b'' \<and> ur_user (Url_parse ''http://host/mail@b'') = ''host/mail''"
  by code_simp

end
