(* ===== verification/Server.thy ===== *)
theory Server
  imports HttpServer ScannerPage Url
begin

text \<open>
  The server, \<open>src/server/server.cpp\<close>: command line, list of scanners, service records for mDNS
  (\<open>src/zeroconf/mdnspublisher.cpp\<close>), and the requests of the eSCL protocol and of the web interface.

  A scanner entry is the scanner with its service. Handlers work on the list of entries and on the world of SANE; a
  request to terminate is recorded. Requests are handled one at a time here: what a handler does between two
  locks of the job list is not interleaved with other handlers.
\<close>

subsection \<open>Services\<close>

record service =
  srv_type :: string
  srv_name :: string
  srv_ifIndex :: int
  srv_port :: int
  srv_txt :: "(string \<times> string) list"

definition service_init :: service where
  "service_init = \<lparr>srv_type = [], srv_name = [], srv_ifIndex = - 1, srv_port = 0, srv_txt = []\<rparr>"

fun txt_put :: "string \<Rightarrow> string \<Rightarrow> (string \<times> string) list \<Rightarrow> (string \<times> string) list" where
  "txt_put k v [] = [(k, v)]"
| "txt_put k v (e # es) = (if fst e = k then (k, v) # es else e # txt_put k v es)"

definition setTxt :: "string \<Rightarrow> string \<Rightarrow> service \<Rightarrow> service" where
  "setTxt key v s = (if key = [] then s else s\<lparr>srv_txt := txt_put key v (srv_txt s)\<rparr>)"

definition comma_list :: "string list \<Rightarrow> string" where
  "comma_list xs = drop 1 (concat (map (\<lambda>x. '','' @ x) xs))"

definition setTxt_list :: "string \<Rightarrow> string list \<Rightarrow> service \<Rightarrow> service" where
  "setTxt_list key xs s = (if concat (map (\<lambda>x. '','' @ x) xs) = [] then s else setTxt key (comma_list xs) s)"

subsection \<open>State\<close>

record server =
  sv_http :: http_server
  sv_announce :: bool
  sv_webinterface :: bool
  sv_resetoption :: bool
  sv_discloseversion :: bool
  sv_localonly :: bool
  sv_hotplug :: bool
  sv_networkhotplug :: bool
  sv_randompaths :: bool
  sv_compatiblepath :: bool
  sv_announcesecure :: bool
  sv_optionsfile :: string
  sv_accessfile :: string
  sv_ignorelist :: string
  sv_hostname :: string
  sv_basePath :: string
  sv_reloadDelay :: int
  sv_jobtimeout :: int
  sv_purgeinterval :: int
  sv_startupTime :: dbl
  sv_doRun :: bool

type_synonym entries = "(scanner \<times> service) list"

definition buildMdnsService :: "server \<Rightarrow> scanner \<Rightarrow> service" where
  "buildMdnsService sv sc =
     (let s0 = service_init\<lparr>srv_type := (if sv_announcesecure sv then ''_uscans._tcp'' else ''_uscan._tcp''),
                 srv_name := sc_publishedName sc, srv_ifIndex := hs_interfaceIndex (sv_http sv)\<rparr>;
          s1 = setTxt_list ''pdl'' (sc_documentFormats sc) (setTxt ''vers'' ''2.0'' (setTxt ''txtvers'' ''1'' s0));
          note = of_note (sc_deviceOptions sc);
          s2 = setTxt ''note'' (if note = [] then sv_hostname sv else note) (setTxt ''ty'' (sc_makeAndModel sc) s1);
          uri = sc_uri sc;
          s3 = setTxt ''rs'' (if uri \<noteq> [] \<and> hd uri = CHR ''/'' then tl uri else uri) (setTxt ''uuid'' (sc_uuid sc) s2);
          s4 = setTxt_list ''cs'' (sc_txtColorSpaces sc) s3;
          s5 = setTxt_list ''is'' ((if hasPlaten sc then [''platen''] else []) @ (if hasAdf sc then [''adf''] else [])) s4;
          s6 = setTxt ''duplex'' (if hasDuplexAdf sc then ''T'' else ''F'') s5;
          s7 = (if sc_adminUrl sc \<noteq> [] then setTxt ''adminurl'' (sc_adminUrl sc) s6 else s6)
      in if sc_iconUrl sc \<noteq> [] then setTxt ''representation'' (sc_iconUrl sc) s7 else s7)"

subsection \<open>Requests to a scanner\<close>

definition clientIsAirscan :: "request \<Rightarrow> bool" where
  "clientIsAirscan rq = contains ''AirScanScanner'' (request_header rq HTTP_HEADER_USER_AGENT)"

definition send_status :: "int \<Rightarrow> response \<Rightarrow> response result" where
  "send_status status r = response_send (setStatus status r)"

definition send_xml :: "(string \<Rightarrow> response \<Rightarrow> response) \<Rightarrow> string result \<Rightarrow> response \<Rightarrow> response result" where
  "send_xml put xml r =
     bind_result (response_send (setHeader HTTP_HEADER_CONTENT_TYPE ''text/xml'' (setStatus HTTP_OK r))) (\<lambda>r1.
     bind_result xml (\<lambda>x. Inr (put x r1)))"

text \<open>Copying an empty file into a stream sets its fail bit.\<close>

definition put_file :: "string \<Rightarrow> response \<Rightarrow> response" where
  "put_file s r = (if s \<noteq> [] then resp_flush (resp_put s r)
     else case rs_chunk r of None \<Rightarrow> r\<lparr>rs_stream := (rs_stream r)\<lparr>os_fail := True\<rparr>\<rparr>
       | Some cb \<Rightarrow> r\<lparr>rs_chunk := Some (cb\<lparr>cb_fail := True\<rparr>)\<rparr>)"

definition send_icon :: "string option \<Rightarrow> response \<Rightarrow> response result" where
  "send_icon file r = (case file of
       Some s \<Rightarrow> bind_result (response_send (setHeader HTTP_HEADER_CONTENT_TYPE MIME_TYPE_PNG r)) (\<lambda>r1. Inr (put_file s r1))
     | None \<Rightarrow> send_status HTTP_NOT_FOUND r)"

text \<open>The first three requests that only read; the last of them resets the status of the feeder.\<close>

type_synonym 's scanner_reply = "(request \<times> response \<times> scanner \<times> 's world) result option"

definition reply :: "request \<Rightarrow> scanner \<Rightarrow> 's world \<Rightarrow> response result \<Rightarrow> 's scanner_reply" where
  "reply rq sc w res = Some (bind_result res (\<lambda>r. Inr (rq, r, sc, w)))"

definition post_job :: "('s, 'l) server_env \<Rightarrow> request \<Rightarrow> response \<Rightarrow> scanner \<Rightarrow> 's world \<Rightarrow> 's scanner_reply" where
  "post_job env rq r sc w =
     (case request_content rq of Inl e \<Rightarrow> Some (Inl e)
      | Inr (rq1, content) \<Rightarrow>
          (case createJobFromScanSettingsXml (env_hash env) (env_machineId env) (env_pow env) (env_draws env)
                  (now (env_lib env) w) content (clientIsAirscan rq) sc of
             None \<Rightarrow> None | Some (Inl e) \<Rightarrow> Some (Inl e)
           | Some (Inr (j, sc1)) \<Rightarrow>
               reply rq1 sc1 w (response_send
                 (setHeader HTTP_HEADER_LOCATION (job_uri (scanner_view sc1) j) (setStatus HTTP_CREATED r)))))"

definition delete_job :: "('s, 'l) server_env \<Rightarrow> string \<Rightarrow> request \<Rightarrow> response \<Rightarrow> scanner \<Rightarrow> 's world \<Rightarrow> 's scanner_reply" where
  "delete_job env u rq r sc w =
     (case cancelJob (env_lib env) u sc w of Inl e \<Rightarrow> Some (Inl e)
      | Inr (found, sc1, w1) \<Rightarrow>
          if found then reply rq sc1 w1 (send_status HTTP_OK r) else Some (Inr (rq, r, sc1, w1)))"

definition document_response :: "string \<Rightarrow> response \<Rightarrow> response" where
  "document_response format r =
     setHeader HTTP_HEADER_TRANSFER_ENCODING ''chunked'' (setHeader HTTP_HEADER_CONTENT_TYPE format (setStatus HTTP_OK r))"

definition next_document :: "('s, 'l) server_env \<Rightarrow> scan_job \<Rightarrow> request \<Rightarrow> response \<Rightarrow> scanner \<Rightarrow> 's world \<Rightarrow> 's scanner_reply" where
  "next_document env j rq r sc w =
     (let lib = env_lib env; sv = scanner_view sc in
      if isFinished j then reply rq sc w (send_status HTTP_NOT_FOUND r)
      else case beginTransfer lib sv j w of None \<Rightarrow> None | Some (Inl e) \<Rightarrow> Some (Inl e)
         | Some (Inr (ok, j1, w1)) \<Rightarrow>
             if ok then
               map_option (\<lambda>x. bind_result x (\<lambda>(r', j2, w2). Inr (rq, r', update_job j2 sc, w2)))
                 (send_document lib (env_encoders env) sv j1 (document_response (sj_documentFormat j1) r) w1)
             else if sj_adfStatus j1 \<noteq> GOOD
             then reply rq (setTemporaryAdfStatus (sj_adfStatus j1) (update_job j1 sc)) w1 (send_status HTTP_CONFLICT r)
             else reply rq (update_job j1 sc) w1 (send_status HTTP_SERVICE_UNAVAILABLE r))"

text \<open>Requests below \<open>/ScanJobs\<close>; a request that no rule fits is left unanswered.\<close>

definition job_request ::
  "('s, 'l) server_env \<Rightarrow> string \<Rightarrow> request \<Rightarrow> response \<Rightarrow> scanner \<Rightarrow> 's world \<Rightarrow> 's scanner_reply" where
  "job_request env partialUri rq r sc w =
     (let unhandled = Some (Inr (rq, r, sc, w)) in
      if \<not> prefix ''/ScanJobs'' partialUri then unhandled
      else let rest = drop (length ''/ScanJobs'') partialUri in
      if rest = [] \<or> hd rest \<noteq> CHR ''/'' then unhandled
      else let res = tl rest in
      (case find_str ''/'' res of
         None \<Rightarrow> if rq_method rq = HTTP_DELETE then delete_job env res rq r sc w else unhandled
       | Some pos \<Rightarrow>
           if drop pos res = ''/NextDocument'' \<and> rq_method rq = HTTP_GET
           then (case getJob (take pos res) sc of None \<Rightarrow> unhandled | Some j \<Rightarrow> next_document env j rq r sc w)
           else unhandled))"

definition scanner_page :: "('s, 'l) server_env \<Rightarrow> request \<Rightarrow> response \<Rightarrow> scanner \<Rightarrow> 's world \<Rightarrow> 's scanner_reply" where
  "scanner_page env rq r sc w =
     (case ScannerPage_init sc of Inl e \<Rightarrow> Some (Inl e)
      | Inr p \<Rightarrow> map_option (\<lambda>x. bind_result x (\<lambda>(p', rq', r', (sc', w')). Inr (rq', r', sc', w')))
          (render (scanner_onRender env) (setTitle (sc_publishedName sc @ '' on '' @ env_hostname env) p) rq
            (setHeader HTTP_HEADER_CONTENT_TYPE ''text/html'' (setStatus HTTP_OK r)) (sc, w)))"

definition handleScannerRequest ::
  "('s, 'l) server_env \<Rightarrow> server \<Rightarrow> string \<Rightarrow> request \<Rightarrow> response \<Rightarrow> scanner \<Rightarrow> 's world \<Rightarrow> 's scanner_reply" where
  "handleScannerRequest env sv partialUri rq r sc w =
     (let GET = (rq_method rq = HTTP_GET) in
      if (partialUri = [] \<or> partialUri = ''/'') \<and> sv_webinterface sv then scanner_page env rq r sc w
      else if partialUri = ''/ScannerIcon'' \<and> GET
      then reply rq sc w (send_icon (env_file env (of_icon (sc_deviceOptions sc))) r)
      else if partialUri = ''/ScannerCapabilities'' \<and> GET
      then reply rq sc w (send_xml resp_put (writeScannerCapabilitiesXml sc) r)
      else if partialUri = ''/ScannerStatus'' \<and> GET
      then (let (xml, sc') = writeScannerStatusXml (env_isOpen env) (now (env_lib env) w) sc
            in reply rq sc' w (send_xml (\<lambda>x r. resp_flush (resp_put x r)) (Inr xml) r))
      else if partialUri = ''/ScanJobs'' \<and> rq_method rq = HTTP_POST then post_job env rq r sc w
      else job_request env partialUri rq r sc w)"

subsection \<open>All requests\<close>

definition SIGHUP :: int where "SIGHUP = 1"
definition SIGTERM :: int where "SIGTERM = 15"

text \<open>The entries, the world, and the status with which \<open>terminate\<close> was called, if it was.\<close>

type_synonym 's server_state = "entries \<times> 's world \<times> int option"

definition main_page :: "('s, 'l) server_env \<Rightarrow> server \<Rightarrow> 's server_state handler" where
  "main_page env sv rq r st =
     map_option (\<lambda>x. bind_result x (\<lambda>(p', rq', r', st'). Inr (rq', r', st')))
       (render (main_onRender (env_build env) (map fst (fst st)) (sv_resetoption sv) (sv_discloseversion sv))
         (setTitle (''AirSane Server on '' @ env_hostname env) page_init) rq
         (setHeader HTTP_HEADER_CONTENT_TYPE ''text/html'' (setStatus HTTP_OK r)) st)"

definition reset_onRender :: "'w renderer" where
  "reset_onRender p rq r w =
     Some (Inr (p, element_toString (addText (pg_title p) (heading 1)) @ nl @
       element_toString (addText ''You will be redirected to the main page in a few seconds.'' paragraph_el) @ nl, rq, r, w))"

definition reset_page :: "('s, 'l) server_env \<Rightarrow> server \<Rightarrow> 's server_state handler" where
  "reset_page env sv rq r st =
     map_option (\<lambda>x. bind_result x (\<lambda>(p', rq', r', (es, w, t)). Inr (rq', r', (es, w, Some SIGHUP))))
       (render reset_onRender (setTitle (''Resetting AirSane Server on '' @ env_hostname env @ '' ...'') page_init) rq
         (setHeader HTTP_HEADER_REFRESH (dbl_str (dadd (dceil (sv_startupTime sv)) (Fin 1)) @ ''; url=/'')
           (setHeader HTTP_HEADER_CONTENT_TYPE ''text/html'' (setStatus HTTP_OK r))) st)"

text \<open>The first entry whose address is a prefix of the request's takes the request.\<close>

fun scanner_requests ::
  "('s, 'l) server_env \<Rightarrow> server \<Rightarrow> request \<Rightarrow> response \<Rightarrow> entries \<Rightarrow> 's world
    \<Rightarrow> (request \<times> response \<times> entries \<times> 's world) result option" where
  "scanner_requests env sv rq r [] w = Some (Inr (rq, r, [], w))"
| "scanner_requests env sv rq r (e # es) w =
     (let uri = sv_basePath sv @ sc_uri (fst e) in
      if prefix uri (rq_uri rq)
      then map_option (\<lambda>x. bind_result x (\<lambda>(rq', r', sc', w'). Inr (rq', r', (sc', snd e) # es, w')))
             (handleScannerRequest env sv (drop (length uri) (rq_uri rq)) rq r (fst e) w)
      else map_option (\<lambda>x. bind_result x (\<lambda>(rq', r', es', w'). Inr (rq', r', e # es', w')))
             (scanner_requests env sv rq r es w))"

definition onRequest :: "('s, 'l) server_env \<Rightarrow> server \<Rightarrow> 's server_state handler" where
  "onRequest env sv rq r st =
     (case (if sv_webinterface sv \<and> rq_uri rq = sv_basePath sv @ ''/'' then main_page env sv rq r st
            else if sv_webinterface sv \<and> rq_uri rq = ''/reset'' \<and> sv_resetoption sv then reset_page env sv rq r st
            else Some (Inr (rq, r, st))) of
        None \<Rightarrow> None | Some (Inl e) \<Rightarrow> Some (Inl e)
      | Some (Inr (rq1, r1, (es, w, t))) \<Rightarrow>
          map_option (\<lambda>x. bind_result x (\<lambda>(rq', r', es', w'). Inr (rq', r', (es', w', t))))
            (scanner_requests env sv rq1 r1 es w))"

end
