(* ===== verification/ServerSetup.thy ===== *)
theory ServerSetup
  imports Server
begin

text \<open>
  Setting up the server, \<open>src/server/server.cpp\<close>: the command line, the ignore list, names for scanners, and
  the main loop, which builds the list of scanners anew each time the server is told to reload.
\<close>

subsection \<open>The command line\<close>

definition option_defaults :: "(string \<times> string) list" where
  "option_defaults =
     [(''listen-port'', ''8090''), (''interface'', []), (''unix-socket'', []), (''access-log'', []), (''hotplug'', ''true''),
      (''reload-delay'', ''1''), (''network-hotplug'', ''true''), (''mdns-announce'', ''true''), (''announce-secure'', ''false''),
      (''announce-base-url'', []), (''web-interface'', ''true''), (''reset-option'', ''false''), (''disclose-version'', ''true''),
      (''random-paths'', ''false''), (''compatible-path'', ''true''), (''local-scanners-only'', ''false''),
      (''job-timeout'', ''120''), (''purge-interval'', ''5''), (''options-file'', ''/etc/airsane/options.conf''),
      (''ignore-list'', ''/etc/airsane/ignore.conf''), (''access-file'', ''/etc/airsane/access.conf''), (''debug'', ''false'')]"

text \<open>One argument: whether an option was found, whether help is needed, and the options.\<close>

fun apply_option :: "string \<Rightarrow> (string \<times> string) list \<Rightarrow> bool \<times> bool \<times> (string \<times> string) list" where
  "apply_option arg [] = (False, False, [])"
| "apply_option arg ((name, v) # opts) =
     (if prefix (''--'' @ name @ ''='') arg
      then (True, False, (name, case find_str ''='' arg of None \<Rightarrow> arg | Some pos \<Rightarrow> drop (pos + 1) arg) # opts)
      else if arg = ''--'' @ name then (True, True, (name, v) # opts)
      else let (found, help, opts') = apply_option arg opts in (found, help, (name, v) # opts'))"

fun parse_args :: "string list \<Rightarrow> bool \<times> (string \<times> string) list \<Rightarrow> bool \<times> (string \<times> string) list" where
  "parse_args [] ho = ho"
| "parse_args (arg # args) (help, opts) =
     (let (found, h, opts') = apply_option arg opts in parse_args args (help \<or> h \<or> \<not> found, opts'))"

text \<open>Reading an integer of a type from a stream: whether it succeeds and the value.\<close>

definition stream_int :: "int \<Rightarrow> int \<Rightarrow> string \<Rightarrow> bool \<times> int" where
  "stream_int lo hi s =
     (let (neg, u) = read_sign (skip_ws s); ds = takeWhile is_digit u;
          v = (if neg then - int (digits_val ds) else int (digits_val ds))
      in if ds = [] then (False, 0) else if v < lo then (False, lo) else if v > hi then (False, hi) else (True, v))"

definition stream_int32 :: "string \<Rightarrow> bool \<times> int" where
  "stream_int32 = stream_int (- (2 ^ 31)) (2 ^ 31 - 1)"

text \<open>An unsigned type takes a negative number that is small enough modulo its range.\<close>

definition stream_uint16 :: "string \<Rightarrow> bool \<times> int" where
  "stream_uint16 s =
     (let (ok, v) = stream_int (- 65535) 65535 s in if ok then (True, v mod 65536) else (False, if v = 0 then 0 else 65535))"

record host_names =
  hn_system :: string       \<comment> \<open>\<open>gethostname\<close>\<close>
  hn_mdns :: string         \<comment> \<open>\<open>mPublisher.hostname()\<close>\<close>
  hn_mdnsFqdn :: string

definition announced_hostname :: "host_names \<Rightarrow> url \<Rightarrow> string" where
  "announced_hostname hn u =
     (let h = (if ur_host u \<noteq> [] then ur_host u else hn_system hn) in
      if h = ''%h'' then hn_mdns hn else if h = ''%H'' then hn_mdnsFqdn hn else h)"

definition Server_init :: "host_names \<Rightarrow> (string \<Rightarrow> int) \<Rightarrow> http_server \<Rightarrow> string list \<Rightarrow> server" where
  "Server_init hn nametoindex http args =
     (let (help, opts) = parse_args args (False, option_defaults);
          opt = (\<lambda>n. getString opts n); flag = (\<lambda>n. opt n = ''true'');
          u = Url_parse (opt ''announce-base-url'');
          secure = (if ur_protocol u = ''http'' then False else if ur_protocol u = ''https'' then True else flag ''announce-secure'');
          path = ur_path u;
          port = (if ur_port u \<noteq> ''%p'' \<and> ur_port u \<noteq> [] then ur_port u else opt ''listen-port'');
          (port_ok, portno) = stream_uint16 port;
          (delay_ok, delay) = stream_int32 (opt ''reload-delay'');
          (timeout_ok, timeout) = stream_int32 (opt ''job-timeout'');
          (interval_ok, interval) = stream_int32 (opt ''purge-interval'');
          doRun = (ur_protocol u \<in> {[], ''http'', ''https''} \<and> ur_user u = [] \<and> ur_password u = [] \<and> port_ok \<and>
                   delay_ok \<and> 0 \<le> delay \<and> timeout_ok \<and> 1 \<le> timeout \<and> interval_ok \<and> 1 \<le> interval \<and> \<not> help);
          http1 = (if opt ''interface'' \<noteq> [] then setInterfaceName nametoindex (opt ''interface'') http else http)
      in \<lparr>sv_http = (if doRun then setUnixSocket (opt ''unix-socket'') (setPort portno http1) else http),
          sv_announce = flag ''mdns-announce'', sv_webinterface = flag ''web-interface'', sv_resetoption = flag ''reset-option'',
          sv_discloseversion = flag ''disclose-version'', sv_localonly = flag ''local-scanners-only'', sv_hotplug = flag ''hotplug'',
          sv_networkhotplug = flag ''network-hotplug'', sv_randompaths = flag ''random-paths'',
          sv_compatiblepath = flag ''compatible-path'', sv_announcesecure = secure, sv_optionsfile = opt ''options-file'',
          sv_accessfile = opt ''access-file'', sv_ignorelist = opt ''ignore-list'', sv_hostname = announced_hostname hn u,
          sv_basePath = (if path \<noteq> [] \<and> last path = CHR ''/'' then butlast path else path),
          sv_reloadDelay = delay, sv_jobtimeout = timeout, sv_purgeinterval = interval, sv_startupTime = Fin 0,
          sv_doRun = doRun\<rparr>)"

subsection \<open>Names and ignored devices\<close>

fun match_lines :: "(string \<Rightarrow> (string \<Rightarrow> bool) option) \<Rightarrow> string \<Rightarrow> string list \<Rightarrow> bool result" where
  "match_lines regex name [] = Inr False"
| "match_lines regex name (l # ls) =
     (if prefix ''#'' l \<or> prefix ''//'' l \<or> prefix '' '' l then match_lines regex name ls
      else case regex l of None \<Rightarrow> Inl (RuntimeError ''regex_error'')
         | Some m \<Rightarrow> if m name then Inr True else match_lines regex name ls)"

text \<open>\<open>regex\<close> maps a pattern to what \<open>std::regex_match\<close> accepts; a file that cannot be opened has no lines.\<close>

definition matchIgnorelist ::
  "(string \<Rightarrow> (string \<Rightarrow> bool) option) \<Rightarrow> (string \<Rightarrow> string option) \<Rightarrow> server \<Rightarrow> device_info \<Rightarrow> bool result" where
  "matchIgnorelist regex files sv info =
     match_lines regex (di_name info) (case files (sv_ignorelist sv) of None \<Rightarrow> [] | Some s \<Rightarrow> lines_of chr_nl s)"

definition publishedNameExists :: "scanner list \<Rightarrow> string \<Rightarrow> bool" where
  "publishedNameExists scs name = list_ex (\<lambda>sc. sc_publishedName sc = name) scs"

definition name_suffix :: "nat \<Rightarrow> string" where
  "name_suffix i = (if i \<le> 1 then [] else '' ('' @ dec_nat i @ '')'')"

lemma name_suffix_inj: "name_suffix i = name_suffix k \<Longrightarrow> 1 \<le> i \<Longrightarrow> 1 \<le> k \<Longrightarrow> i = k"
  by (auto simp: name_suffix_def dec_nat_inj split: if_splits)

lemma finite_published: "finite {k. 1 \<le> k \<and> publishedNameExists scs (nm @ name_suffix k)}"
proof -
  let ?S = "{k. 1 \<le> k \<and> publishedNameExists scs (nm @ name_suffix k)}"
  have "inj_on (\<lambda>k. nm @ name_suffix k) ?S" by (auto simp: inj_on_def dest: name_suffix_inj)
  moreover have "finite ((\<lambda>k. nm @ name_suffix k) ` ?S)"
    by (rule finite_subset[of _ "sc_publishedName ` set scs"]) (force simp: publishedNameExists_def list_ex_iff, simp)
  ultimately show ?thesis by (simp add: finite_image_iff)
qed

text \<open>The loop of \<open>chooseUniquePublishedName\<close>, from number \<open>i\<close> on.\<close>

function unique_published :: "scanner list \<Rightarrow> string \<Rightarrow> nat \<Rightarrow> string" where
  "unique_published scs nm i =
     (if 1 \<le> i \<and> publishedNameExists scs (nm @ name_suffix i) then unique_published scs nm (i + 1)
      else nm @ name_suffix i)"
  by pat_completeness auto
termination
proof (relation "measure (\<lambda>(scs, nm, i). card {k. i \<le> k \<and> 1 \<le> k \<and> publishedNameExists scs (nm @ name_suffix k)})", goal_cases)
  case (2 scs nm i)
  let ?P = "\<lambda>k. 1 \<le> k \<and> publishedNameExists scs (nm @ name_suffix k)"
  have "i \<in> {k. i \<le> k \<and> ?P k}" "i \<notin> {k. i + 1 \<le> k \<and> ?P k}" using 2 by simp_all
  moreover have "{k. i + 1 \<le> k \<and> ?P k} \<subseteq> {k. i \<le> k \<and> ?P k}" by auto
  ultimately have "{k. i + 1 \<le> k \<and> ?P k} \<subset> {k. i \<le> k \<and> ?P k}" by blast
  moreover have "finite {k. i \<le> k \<and> ?P k}" by (rule finite_subset[OF _ finite_published[of scs nm]]) auto
  ultimately show ?case by (simp add: psubset_card_mono)
qed simp

declare unique_published.simps [simp del]

definition chooseUniquePublishedName :: "scanner list \<Rightarrow> scanner \<Rightarrow> scanner" where
  "chooseUniquePublishedName scs sc = setPublishedName (unique_published scs (sc_publishedName sc) 1) sc"

subsection \<open>The list of scanners\<close>

text \<open>
  What announcing a service comes to: the name under which it was published (which may differ from the one asked for), or
  \<open>None\<close>.
\<close>

record ('s, 'l) setup_env =
  se_env :: "('s, 'l) server_env"
  se_regex :: "string \<Rightarrow> (string \<Rightarrow> bool) option"
  se_publish :: "service \<Rightarrow> string option"

definition scanner_addresses :: "server \<Rightarrow> string \<Rightarrow> nat \<Rightarrow> scanner \<Rightarrow> scanner" where
  "scanner_addresses sv pathPrefix cnt sc =
     (let sc1 = setUri (if cnt = 0 \<and> sv_compatiblepath sv then ''/eSCL'' else pathPrefix @ sc_uuid sc) sc;
          url = ''http'' @ (if sv_announcesecure sv then ''s'' else []) @ ''://'' @ sv_hostname sv @ '':'' @
                dec_int (hs_port (sv_http sv)) @ sv_basePath sv @ sc_uri sc1;
          sc2 = (if sv_webinterface sv then setAdminUrl url sc1 else sc1)
      in if of_icon (sc_deviceOptions sc2) \<noteq> [] then setIconUrl (url @ ''/ScannerIcon'') sc2 else sc2)"

definition publish_scanner :: "('s, 'l) setup_env \<Rightarrow> server \<Rightarrow> scanner \<Rightarrow> (scanner \<times> service) option" where
  "publish_scanner se sv sc =
     (if \<not> sv_announce sv \<or> sc_error sc \<noteq> None then None
      else let s = (buildMdnsService sv sc)\<lparr>srv_port := hs_port (sv_http sv)\<rparr>
           in map_option (\<lambda>name. (setPublishedName name sc, s\<lparr>srv_name := name\<rparr>)) (se_publish se s))"

text \<open>The loop over the devices, with the number of scanners that could be initialised and the entries so far.\<close>

fun add_scanners ::
  "('s, 'l) setup_env \<Rightarrow> server \<Rightarrow> options_file \<Rightarrow> string \<Rightarrow> device_info list \<Rightarrow> nat \<Rightarrow> entries \<Rightarrow> 's world
    \<Rightarrow> (entries \<times> 's world) result option" where
  "add_scanners se sv ofile pathPrefix [] cnt es w = Some (Inr (es, w))"
| "add_scanners se sv ofile pathPrefix (info # infos) cnt es w =
     (let env = se_env se in
      case matchIgnorelist (se_regex se) (env_file env) sv info of Inl e \<Rightarrow> Some (Inl e)
      | Inr True \<Rightarrow> add_scanners se sv ofile pathPrefix infos cnt es w
      | Inr False \<Rightarrow>
          let sc = chooseUniquePublishedName (map fst es)
                     (scanner_init (env_hash env) (env_machineId env) (map (sc_stableUniqueName \<circ> fst) es) info) in
          (case initWithOptions (se_regex se) (env_lib env) ofile sc w of
             None \<Rightarrow> None | Some (Inl e) \<Rightarrow> Some (Inl e)
           | Some (Inr (False, sc1, w1)) \<Rightarrow> add_scanners se sv ofile pathPrefix infos cnt es w1
           | Some (Inr (True, sc1, w1)) \<Rightarrow>
               add_scanners se sv ofile pathPrefix infos (cnt + 1)
                 (case publish_scanner se sv (scanner_addresses sv pathPrefix cnt sc1) of None \<Rightarrow> es | Some e \<Rightarrow> es @ [e]) w1))"

subsection \<open>The main loop\<close>

text \<open>
  One round: access file, options file, devices, and then serving. \<open>sanecpp::init\<close> holds a reference to the SANE library during the
  round. What happens during \<open>HttpServer::run\<close> is given as the events of its loop; what the handlers of
  its connections, the purge thread and the destruction of the scanners leave behind in the world of SANE is
  \<open>ro_world\<close>.
\<close>

record 's round =
  ro_random :: string                       \<comment> \<open>the random part of the paths\<close>
  ro_startup :: dbl                         \<comment> \<open>the time it took\<close>
  ro_pipe :: "int option"                   \<comment> \<open>the error of \<open>pipe\<close>, if it fails\<close>
  ro_ifs :: ifaddrs
  ro_sys :: "socket_call \<Rightarrow> int + int"
  ro_events :: "poll_event list"
  ro_world :: "server \<Rightarrow> entries \<Rightarrow> connection list \<Rightarrow> 's world \<Rightarrow> 's world"

datatype outcome = Reload | Stop bool

definition after_serving :: "bool \<Rightarrow> int \<Rightarrow> outcome" where
  "after_serving ok status =
     (if ok \<and> status = SIGHUP then Reload else if ok \<and> status = SIGTERM then Stop True else Stop False)"

definition serve_round ::
  "('s, 'l) setup_env \<Rightarrow> 's round \<Rightarrow> server \<Rightarrow> entries \<Rightarrow> 's world \<Rightarrow> (outcome \<times> server \<times> 's world) result option" where
  "serve_round se ro sv es w =
     map_option (\<lambda>(ok, cs, hs).
       bind_result (sane_init_release (env_lib (se_env se)) (ro_world ro sv es cs w)) (\<lambda>w'.
         Inr (after_serving ok (hs_terminationStatus hs), sv\<lparr>sv_http := hs\<rparr>, w')))
     (http_run (ro_pipe ro) (ro_ifs ro) (ro_sys ro) (ro_events ro) (sv_http sv))"

definition server_round ::
  "('s, 'l) setup_env \<Rightarrow> access_env \<Rightarrow> 's round \<Rightarrow> server \<Rightarrow> 's world \<Rightarrow> (outcome \<times> server \<times> 's world) result option" where
  "server_round se ae ro sv w =
     (let env = se_env se; files = env_file env;
          af = AccessFile_read ae (files (sv_accessfile sv)) in
      if hs_unixSocket (sv_http sv) = [] \<and> af_errors af \<noteq> [] then Some (Inr (Stop False, sv, w))
      else
        let sv1 = (if hs_unixSocket (sv_http sv) = [] then sv\<lparr>sv_http := applyAccessFile af (sv_http sv)\<rparr> else sv);
            ofile = OptionsFile_read (sv_optionsfile sv) (case files (sv_optionsfile sv) of None \<Rightarrow> [] | Some s \<Rightarrow> s);
            pathPrefix = ''/'' @ (if sv_randompaths sv then ro_random ro @ ''/'' else []);
            w1 = sane_init_addref (env_lib env) w
        in case enumerate_devices (env_lib env) (sv_localonly sv) w1 of Inl e \<Rightarrow> Some (Inl e)
           | Inr (infos, w2) \<Rightarrow>
               (case add_scanners se sv1 ofile pathPrefix infos 0 [] w2 of
                  None \<Rightarrow> None | Some (Inl e) \<Rightarrow> Some (Inl e)
                | Some (Inr (es, w3)) \<Rightarrow> serve_round se ro (sv1\<lparr>sv_startupTime := ro_startup ro\<rparr>) es w3))"

text \<open>\<open>Server::run\<close> over the rounds that take place; \<open>None\<close> when it has not ended after them.\<close>

fun run_rounds ::
  "('s, 'l) setup_env \<Rightarrow> access_env \<Rightarrow> 's round list \<Rightarrow> server \<Rightarrow> 's world \<Rightarrow> (bool \<times> server \<times> 's world) result option" where
  "run_rounds se ae [] sv w = None"
| "run_rounds se ae (ro # ros) sv w =
     (case server_round se ae ro sv w of None \<Rightarrow> None | Some (Inl e) \<Rightarrow> Some (Inl e)
      | Some (Inr (Reload, sv1, w1)) \<Rightarrow> run_rounds se ae ros sv1 w1
      | Some (Inr (Stop ok, sv1, w1)) \<Rightarrow> Some (Inr (ok, sv1, w1)))"

definition Server_run ::
  "('s, 'l) setup_env \<Rightarrow> access_env \<Rightarrow> 's round list \<Rightarrow> server \<Rightarrow> 's world \<Rightarrow> (bool \<times> server \<times> 's world) result option" where
  "Server_run se ae ros sv w = (if \<not> sv_doRun sv then Some (Inr (False, sv, w)) else run_rounds se ae ros sv w)"

end
