(* ===== verification/ServerContract.thy ===== *)
theory ServerContract
  imports ServerSetup
begin

text \<open>
  The server keeps the contract of a request handler: whatever a client asks for, its request is answered with a
  status line, or the connection is left alone so that the server reports that the document was not found.
\<close>

definition proper :: "response \<Rightarrow> response \<Rightarrow> bool" where
  "proper r r' \<longleftrightarrow> answered r r' \<or> untouched r r'"

lemma proper_refl: "open_response r \<Longrightarrow> proper r r"
  by (simp add: proper_def untouched_def)

lemma answered_proper: "answered r r' \<Longrightarrow> proper r r'"
  by (simp add: proper_def)

lemma open_response_content_type [simp]: "open_response r \<Longrightarrow> open_response (setHeader HTTP_HEADER_CONTENT_TYPE v r)"
  by (rule open_response_setHeader) (simp_all add: header_names_distinct(5)[symmetric])

lemma header_names [simp]:
  "norm_key HTTP_HEADER_REFRESH = HTTP_HEADER_REFRESH" "norm_key HTTP_HEADER_CONTENT_DISPOSITION = HTTP_HEADER_CONTENT_DISPOSITION"
  "HTTP_HEADER_REFRESH \<noteq> HTTP_HEADER_TRANSFER_ENCODING" "HTTP_HEADER_LOCATION \<noteq> HTTP_HEADER_TRANSFER_ENCODING"
  "HTTP_HEADER_CONTENT_DISPOSITION \<noteq> HTTP_HEADER_TRANSFER_ENCODING"
  by (simp_all add: http_header_defs norm_key_def ctolower_def ctrim_def is_space_def to_lower_def)

lemma send_status_answers:
  assumes "open_response r" "send_status st r = Inr r'"
  shows "answered r r'"
proof -
  obtain r1 where "response_send (setStatus st r) = Inr r1" "answered (setStatus st r) r1"
    using response_send_answers[of "setStatus st r"] assms(1) by auto
  with assms(2) show ?thesis by (simp add: send_status_def)
qed

lemma send_xml_answers:
  assumes "open_response r" "send_xml put xml r = Inr r'" "put = resp_put \<or> put = (\<lambda>x r. resp_flush (resp_put x r))"
  shows "answered r r'"
proof -
  let ?r = "setHeader HTTP_HEADER_CONTENT_TYPE ''text/xml'' (setStatus HTTP_OK r)"
  obtain r1 where r1: "response_send ?r = Inr r1" "open_response r1" "answered ?r r1"
    using response_send_answers[of ?r] assms(1) by auto
  from assms(2) r1(1) obtain x where "r' = put x r1" by (auto simp: send_xml_def bind_result_Inr_iff)
  moreover have "answered r r1" using r1(3) by simp
  ultimately show ?thesis using assms(3) r1(2) answered_put answered_flush by blast
qed

lemma send_icon_answers:
  assumes "open_response r" "send_icon contents r = Inr r'"
  shows "answered r r'"
proof (cases contents)
  case None
  with assms show ?thesis using send_status_answers by (simp add: send_icon_def)
next
  case (Some s)
  let ?r = "setHeader HTTP_HEADER_CONTENT_TYPE MIME_TYPE_PNG r"
  obtain r1 where r1: "response_send ?r = Inr r1" "open_response r1" "answered ?r r1"
    using response_send_answers[of ?r] assms(1) by auto
  have a: "answered r r1" using r1(3) by simp
  from assms(2) r1(1) Some have r': "r' = put_file s r1" by (simp add: send_icon_def)
  show ?thesis
  proof (cases "s = []")
    case True
    with r' a r1(2) show ?thesis by (auto simp: put_file_def answered_def open_response_def)
  next
    case False
    with r' have "r' = resp_flush (resp_put s r1)" by (simp add: put_file_def)
    with a r1(2) answered_put answered_flush show ?thesis by blast
  qed
qed

lemma chunked_header: "response_header (setHeader HTTP_HEADER_TRANSFER_ENCODING ''chunked'' r) HTTP_HEADER_TRANSFER_ENCODING = ''chunked''"
  by (simp add: response_header_setHeader ctrim_def is_space_def)

lemma send_document_answers:
  assumes "open_response r0" "r = setHeader HTTP_HEADER_TRANSFER_ENCODING ''chunked'' r0"
    and "send_document lib en sv j r w = Some (Inr (r', j', w'))"
  shows "answered r0 r'"
proof -
  have h: "response_header r HTTP_HEADER_TRANSFER_ENCODING = ''chunked''" "os_reliable (rs_stream r)" "rs_chunk r = None"
      "headers_inv (rs_headers r)"
    using assms(1,2) by (simp_all add: chunked_header open_response_def headers_inv_setHeader)
  from assms(3) obtain r1 os where r1: "response_send r = Inr r1" "r' = put_document os r1"
    by (auto simp: send_document_def bind_result_Inr_iff split: sum.splits)
  from chunked_send_ops[OF h, of "[]"] r1(1) have c: "rs_chunk r1 = Some chunk_init" by auto
  let ?r = "setHeader HTTP_HEADER_CONTENT_LENGTH [] r"
  have "response_header ?r HTTP_HEADER_TRANSFER_ENCODING = ''chunked''"
    using h(1,4) by (simp add: response_header_erase headers_inv_def ctrim_def)
  from sendHeaders_chunked[OF this] h r1(1) have
    "rs_sent r1" "os_data (rs_stream r1) = os_data (rs_stream r) @ status_line (rs_status r) @ print_headers (rs_headers r1) @ crlf"
    by (auto simp: response_send_def headers_inv_setHeader)
  then have "answered r r1" by (auto simp: answered_def intro!: exI[of _ "rs_status r"])
  with resp_ops_prefix[of "document_ops 0 (os_cuts os) (os_data os)" r1] c r1(2) have "answered r r'"
    by (auto simp: put_document_def answered_def intro: prefix_order.trans)
  with assms(2) show ?thesis by simp
qed

lemma reply_answers:
  assumes "reply rq sc w res = Some (Inr (rq', r', sc', w'))" "\<And>x. res = Inr x \<Longrightarrow> answered r x"
  shows "answered r r'"
  using assms by (auto simp: reply_def bind_result_Inr_iff)

lemma post_job_proper:
  assumes "open_response r" "post_job env rq r sc w = Some (Inr (rq', r', sc', w'))"
  shows "answered r r'"
proof -
  from assms(2) obtain rq1 c j sc1 where e: "request_content rq = Inr (rq1, c)"
      "createJobFromScanSettingsXml (env_hash env) (env_machineId env) (env_pow env) (env_draws env)
        (now (env_lib env) w) c (clientIsAirscan rq) sc = Some (Inr (j, sc1))"
    unfolding post_job_def by (auto split: sum.splits option.splits)
  let ?r = "setHeader HTTP_HEADER_LOCATION (job_uri (scanner_view sc1) j) (setStatus HTTP_CREATED r)"
  have o: "open_response ?r" using assms(1) by (intro open_response_setHeader) simp_all
  obtain r1 where "response_send ?r = Inr r1" "answered ?r r1" using response_send_answers[OF o] by blast
  with assms(2) e show ?thesis by (simp add: post_job_def reply_def)
qed

lemma delete_job_proper:
  assumes "open_response r" "delete_job env u rq r sc w = Some (Inr (rq', r', sc', w'))"
  shows "proper r r'"
proof -
  from assms(2) obtain found sc1 w1 where
    "(if found then reply rq sc1 w1 (send_status HTTP_OK r) else Some (Inr (rq, r, sc1, w1))) = Some (Inr (rq', r', sc', w'))"
    by (auto simp: delete_job_def split: sum.splits)
  then show ?thesis
    using assms(1) reply_answers[of rq sc1 w1 "send_status HTTP_OK r"] send_status_answers proper_refl
    by (cases found) (auto simp: proper_def)
qed

lemma next_document_proper:
  assumes "open_response r" "next_document env j rq r sc w = Some (Inr (rq', r', sc', w'))"
  shows "answered r r'"
proof (cases "isFinished j")
  case True
  with assms show ?thesis using reply_answers send_status_answers by (fastforce simp: next_document_def Let_def)
next
  case False
  with assms(2) obtain ok j1 w1 where "beginTransfer (env_lib env) (scanner_view sc) j w = Some (Inr (ok, j1, w1))"
    by (auto simp: next_document_def Let_def split: option.splits sum.splits)
  note e = assms(2)[unfolded next_document_def Let_def, simplified False this, simplified]
  show ?thesis
  proof (cases ok)
    case True
    with e obtain j2 w2 where "send_document (env_lib env) (env_encoders env) (scanner_view sc) j1
        (document_response (sj_documentFormat j1) r) w1 = Some (Inr (r', j2, w2))"
      by (auto simp: bind_result_Inr_iff)
    from send_document_answers[OF _ _ this, of "setHeader HTTP_HEADER_CONTENT_TYPE (sj_documentFormat j1) (setStatus HTTP_OK r)"]
    show ?thesis using assms(1) by (simp add: document_response_def)
  next
    case f: False
    show ?thesis
    proof (cases "sj_adfStatus j1 = GOOD")
      case True
      with e f assms(1) show ?thesis using reply_answers send_status_answers by fastforce
    next
      case False
      with e f assms(1) show ?thesis using reply_answers send_status_answers by fastforce
    qed
  qed
qed

lemma proper_trans:
  assumes "proper r r1" "proper r1 r'"
  shows "proper r r'"
proof -
  have "answered r r'" if "answered r r1" "answered r1 r'"
  proof -
    from that(1) obtain st where p: "prefix (os_data (rs_stream r) @ status_line st) (os_data (rs_stream r1))"
      by (auto simp: answered_def)
    from that(2) have "prefix (os_data (rs_stream r1)) (os_data (rs_stream r'))"
      by (auto simp: answered_def dest: append_prefixD)
    with p that(2) show ?thesis by (auto simp: answered_def intro: prefix_order.trans)
  qed
  with assms show ?thesis by (auto simp: proper_def answered_def untouched_def)
qed

lemma render_proper:
  assumes "render onR p rq r w = Some (Inr (p', rq', r', w'))"
    and "\<And>p1 body rq1 r1 w1. onR p rq r w = Some (Inr (p1, body, rq1, r1, w1)) \<Longrightarrow> rs_sent r1 \<and> answered r r1 \<or> untouched r r1"
  shows "proper r r'"
proof (cases "rs_sent r")
  case False
  then show ?thesis using render_answers[OF assms] by (simp add: proper_def)
next
  case True
  from assms(1) obtain p1 body rq1 r1 w1 where o: "onR p rq r w = Some (Inr (p1, body, rq1, r1, w1))"
    by (auto simp: render_def bind_result_Inr_iff)
  from assms(2)[OF o] True have "rs_sent r1" by (auto simp: untouched_def)
  with assms(1) o have "r' = r1" by (auto simp: render_def bind_result_Inr_iff)
  with assms(2)[OF o] show ?thesis by (auto simp: proper_def)
qed

lemma render_open:
  assumes "render onR p rq r w = Some (Inr (p', rq', r', w'))"
    and "\<And>p1 body rq1 r1 w1. onR p rq r w = Some (Inr (p1, body, rq1, r1, w1)) \<Longrightarrow> r1 = r" "open_response r"
  shows "open_response r' \<and> proper r r'"
proof -
  have "proper r r'"
    by (rule render_proper[OF assms(1)]) (use assms(2,3) in \<open>auto simp: untouched_def\<close>)
  moreover from assms(1) obtain p1 body rq1 r1 w1 where o: "onR p rq r w = Some (Inr (p1, body, rq1, r1, w1))"
    by (auto simp: render_def bind_result_Inr_iff)
  have "open_response r'"
  proof (cases "rs_sent r")
    case True
    with assms(1,3) o assms(2)[OF o] show ?thesis by (auto simp: render_def bind_result_Inr_iff)
  next
    case False
    obtain r2 where "sendWithContent (page_html p1 body) (setHeader HTTP_HEADER_CONTENT_TYPE ''text/html'' r) = Inr r2" "open_response r2"
      using sendWithContent_answers[of "setHeader HTTP_HEADER_CONTENT_TYPE ''text/html'' r"] assms(3) by (metis open_response_content_type)
    with assms(1) o assms(2)[OF o] False show ?thesis by (simp add: render_def)
  qed
  ultimately show ?thesis by blast
qed

lemma proper_set [simp]:
  "proper (setHeader k v r) r' = proper r r'" "proper (setStatus st r) r' = proper r r'"
  by (simp_all add: proper_def untouched_def)

subsection \<open>Pages\<close>

lemma scan_from_page_proper:
  assumes "open_response r" "scan_from_page env dl pv d r sc w = Some (Inr (x, r', sc', w'))"
  shows "answered r r' \<or> untouched r r' \<and> x \<noteq> None"
proof -
  from assms(2) obtain j sc1 where c: "createJobFromScanSettingsXml (env_hash env) (env_machineId env) (env_pow env) (env_draws env)
      (now (env_lib env) w) (buildScanJobTicket d) False sc = Some (Inr (j, sc1))"
    unfolding scan_from_page_def Let_def by (auto split: option.splits sum.splits)
  have u: "untouched r r" using assms(1) by (simp add: untouched_def)
  show ?thesis
  proof (cases dl)
    case False
    with assms(2) c u show ?thesis by (auto simp: scan_from_page_def Let_def)
  next
    case True
    with assms(2) c obtain ok j1 w1 where b: "beginTransfer (env_lib env) (scanner_view sc1) j w = Some (Inr (ok, j1, w1))"
      unfolding scan_from_page_def Let_def by (auto split: option.splits sum.splits)
    show ?thesis
    proof (cases ok)
      case ok: True
      let ?r = "setHeader HTTP_HEADER_CONTENT_TYPE (sj_documentFormat j1) (setHeader HTTP_HEADER_CONTENT_DISPOSITION
        (''attachment;filename='' @ dquote @ ''Scan'' @ fileExtension (sj_documentFormat j1) @ dquote) r)"
      have o: "open_response ?r"
        using assms(1) by (intro open_response_content_type open_response_setHeader) simp_all
      from ok True assms(2) c b obtain j2 w2 where
        "send_document (env_lib env) (env_encoders env) (scanner_view sc1) j1 (document_headers (sj_documentFormat j1) r) w1
          = Some (Inr (r', j2, w2))"
        by (auto simp: scan_from_page_def Let_def bind_result_Inr_iff)
      from send_document_answers[OF o _ this] have "answered ?r r'" by (simp add: document_headers_def)
      then show ?thesis by simp
    next
      case nok: False
      have "open_response (setHeader HTTP_HEADER_REFRESH ''5; url=/'' r)"
        using assms(1) by (intro open_response_setHeader) simp_all
      with nok True assms(2) c b show ?thesis by (auto simp: scan_from_page_def Let_def untouched_def)
    qed
  qed
qed

lemma scanner_onRender_proper:
  assumes "open_response r" "scanner_onRender env p rq r (sc, w) = Some (Inr (p1, body, rq1, r1, w1))"
  shows "rs_sent r1 \<and> answered r r1 \<or> untouched r r1"
proof -
  from assms(2) obtain rq' d where f: "request_formData rq = Inr (rq', d)"
    by (auto simp: scanner_onRender_def split: sum.splits)
  let ?pv = "hasKey d ''preview''" and ?dl = "hasKey d ''download''"
  let ?scan = "if ?pv \<or> ?dl then (case scan_dictionary sc ?pv d of Inl e \<Rightarrow> Some (Inl e)
       | Inr sd \<Rightarrow> scan_from_page env ?dl ?pv sd r sc w) else Some (Inr (Some ([], []), r, sc, w))"
  from assms(2) f obtain x sc' w' where s: "?scan = Some (Inr (x, r1, sc', w'))"
    by (auto simp: scanner_onRender_def Let_def bind_result_Inr_iff split: option.splits sum.splits)
  show ?thesis
  proof (cases "?pv \<or> ?dl")
    case True
    with s obtain sd where "scan_from_page env ?dl ?pv sd r sc w = Some (Inr (x, r1, sc', w'))" by (auto split: sum.splits)
    from scan_from_page_proper[OF assms(1) this] show ?thesis by (auto simp: answered_def)
  next
    case False
    with s assms(1) show ?thesis by (simp add: untouched_def)
  qed
qed

lemma scanner_page_proper:
  assumes "open_response r" "scanner_page env rq r sc w = Some (Inr (rq', r', sc', w'))"
  shows "proper r r'"
proof -
  let ?r = "setHeader HTTP_HEADER_CONTENT_TYPE ''text/html'' (setStatus HTTP_OK r)"
  from assms(2) obtain p p' where
    "render (scanner_onRender env) (setTitle (sc_publishedName sc @ '' on '' @ env_hostname env) p) rq ?r (sc, w)
      = Some (Inr (p', rq', r', (sc', w')))"
    by (auto simp: scanner_page_def bind_result_Inr_iff split: sum.splits)
  then have "proper ?r r'"
  proof (rule render_proper)
    have o: "open_response ?r" using assms(1) by simp
    fix p1 body rq1 r1 w1
    assume "scanner_onRender env (setTitle (sc_publishedName sc @ '' on '' @ env_hostname env) p) rq ?r (sc, w) =
      Some (Inr (p1, body, rq1, r1, w1))"
    from scanner_onRender_proper[OF o this] show "rs_sent r1 \<and> answered ?r r1 \<or> untouched ?r r1" .
  qed
  then show ?thesis by simp
qed

subsection \<open>Dispatch\<close>

lemma job_request_proper:
  assumes "open_response r" "job_request env uri rq r sc w = Some (Inr (rq', r', sc', w'))"
  shows "proper r r'"
proof -
  let ?res = "tl (drop (length ''/ScanJobs'') uri)"
  from assms(2) consider "r' = r"
    | "delete_job env ?res rq r sc w = Some (Inr (rq', r', sc', w'))"
    | j where "next_document env j rq r sc w = Some (Inr (rq', r', sc', w'))"
    by (auto simp: job_request_def Let_def split: if_splits option.splits)
  then show ?thesis
  proof cases
    case 1
    then show ?thesis using proper_refl[OF assms(1)] by simp
  next
    case 2
    then show ?thesis by (rule delete_job_proper[OF assms(1)])
  next
    case 3
    then show ?thesis by (rule answered_proper[OF next_document_proper[OF assms(1)]])
  qed
qed

lemma handleScannerRequest_proper:
  assumes "open_response r" "handleScannerRequest env sv uri rq r sc w = Some (Inr (rq', r', sc', w'))"
  shows "proper r r'"
proof -
  obtain xml sc1 where x: "writeScannerStatusXml (env_isOpen env) (now (env_lib env) w) sc = (xml, sc1)" by fastforce
  from assms(2) x consider "scanner_page env rq r sc w = Some (Inr (rq', r', sc', w'))"
    | "reply rq sc w (send_icon (env_file env (of_icon (sc_deviceOptions sc))) r) = Some (Inr (rq', r', sc', w'))"
    | "reply rq sc w (send_xml resp_put (writeScannerCapabilitiesXml sc) r) = Some (Inr (rq', r', sc', w'))"
    | "reply rq sc1 w (send_xml (\<lambda>x r. resp_flush (resp_put x r)) (Inr xml) r) = Some (Inr (rq', r', sc', w'))"
    | "post_job env rq r sc w = Some (Inr (rq', r', sc', w'))"
    | "job_request env uri rq r sc w = Some (Inr (rq', r', sc', w'))"
    unfolding handleScannerRequest_def Let_def by (simp split: if_splits)
  then show ?thesis
  proof cases
    case 1
    then show ?thesis by (rule scanner_page_proper[OF assms(1)])
  next
    case 2
    then have "answered r r'" by (rule reply_answers) (rule send_icon_answers[OF assms(1)])
    then show ?thesis by (rule answered_proper)
  next
    case 3
    then have "answered r r'" by (rule reply_answers) (use send_xml_answers[OF assms(1)] in blast)
    then show ?thesis by (rule answered_proper)
  next
    case 4
    then have "answered r r'" by (rule reply_answers) (use send_xml_answers[OF assms(1)] in blast)
    then show ?thesis by (rule answered_proper)
  next
    case 5
    then show ?thesis by (rule answered_proper[OF post_job_proper[OF assms(1)]])
  next
    case 6
    then show ?thesis by (rule job_request_proper[OF assms(1)])
  qed
qed

lemma scanner_requests_proper:
  assumes "open_response r" "scanner_requests env sv rq r es w = Some (Inr (rq', r', es', w'))"
  shows "proper r r' \<and> length es' = length es"
  using assms(2)
proof (induction es arbitrary: es')
  case Nil
  then show ?case using proper_refl[OF assms(1)] by simp
next
  case (Cons e es)
  let ?uri = "sv_basePath sv @ sc_uri (fst e)"
  show ?case
  proof (cases "prefix ?uri (rq_uri rq)")
    case True
    with Cons.prems obtain sc' where
      "handleScannerRequest env sv (drop (length ?uri) (rq_uri rq)) rq r (fst e) w = Some (Inr (rq', r', sc', w'))"
      "es' = (sc', snd e) # es"
      by (auto simp: Let_def bind_result_Inr_iff)
    with handleScannerRequest_proper[OF assms(1)] show ?thesis by auto
  next
    case False
    with Cons.prems obtain es1 where "scanner_requests env sv rq r es w = Some (Inr (rq', r', es1, w'))" "es' = e # es1"
      by (auto simp: Let_def bind_result_Inr_iff)
    with Cons.IH show ?thesis by simp
  qed
qed

lemma main_page_proper:
  assumes "open_response r" "main_page env sv rq r st = Some (Inr (rq', r', st'))"
  shows "open_response r' \<and> proper r r' \<and> st' = st"
proof -
  let ?r = "setHeader HTTP_HEADER_CONTENT_TYPE ''text/html'' (setStatus HTTP_OK r)"
  let ?on = "main_onRender (env_build env) (map fst (fst st)) (sv_resetoption sv) (sv_discloseversion sv)"
  from assms(2) obtain p' where d:
    "render ?on (setTitle (''AirSane Server on '' @ env_hostname env) page_init) rq ?r st = Some (Inr (p', rq', r', st'))"
    by (auto simp: main_page_def bind_result_Inr_iff)
  have on: "?on p q x y = Some (Inr (p1, body, rq1, r1, w1)) \<Longrightarrow> r1 = x \<and> w1 = y" for p q x y p1 body rq1 r1 w1
    by (auto simp: main_onRender_def bind_result_Inr_iff)
  have "open_response r' \<and> proper ?r r'"
  proof (rule render_open[OF d])
    show "open_response ?r" using assms(1) by simp
  qed (drule on, simp)
  moreover have "st' = st" using d by (auto simp: render_def bind_result_Inr_iff dest!: on split: if_splits)
  ultimately show ?thesis by simp
qed

lemma reset_page_proper:
  assumes "open_response r" "reset_page env sv rq r (es, w, t) = Some (Inr (rq', r', st'))"
  shows "open_response r' \<and> proper r r' \<and> st' = (es, w, Some SIGHUP)"
proof -
  let ?v = "dbl_str (dadd (dceil (sv_startupTime sv)) (Fin 1)) @ ''; url=/''"
  let ?r = "setHeader HTTP_HEADER_REFRESH ?v (setHeader HTTP_HEADER_CONTENT_TYPE ''text/html'' (setStatus HTTP_OK r))"
  from assms(2) obtain p' es1 w1 t1 where d:
    "render reset_onRender (setTitle (''Resetting AirSane Server on '' @ env_hostname env @ '' ...'') page_init) rq ?r (es, w, t)
      = Some (Inr (p', rq', r', (es1, w1, t1)))" "st' = (es1, w1, Some SIGHUP)"
    by (auto simp: reset_page_def bind_result_Inr_iff)
  have "open_response ?r" using assms(1) by (intro open_response_setHeader open_response_content_type) simp_all
  from render_open[OF d(1) _ this] have "open_response r' \<and> proper ?r r'" by (auto simp: reset_onRender_def)
  moreover have "(es1, w1, t1) = (es, w, t)"
    using d(1) by (auto simp: render_def reset_onRender_def bind_result_Inr_iff split: if_splits)
  ultimately show ?thesis using d(2) by simp
qed

lemma onRequest_proper:
  assumes "open_response r" "onRequest env sv rq r st = Some (Inr (rq', r', st'))"
  shows "proper r r' \<and> length (fst st') = length (fst st)"
proof -
  obtain es w t where st: "st = (es, w, t)" by (cases st)
  let ?first = "if sv_webinterface sv \<and> rq_uri rq = sv_basePath sv @ ''/'' then main_page env sv rq r st
            else if sv_webinterface sv \<and> rq_uri rq = ''/reset'' \<and> sv_resetoption sv then reset_page env sv rq r st
            else Some (Inr (rq, r, st))"
  from assms(2) obtain rq1 r1 es1 w1 t1 where f: "?first = Some (Inr (rq1, r1, (es1, w1, t1)))"
    unfolding onRequest_def by (auto split: option.splits sum.splits)
  have r1: "open_response r1 \<and> proper r r1 \<and> es1 = es"
  proof (cases "sv_webinterface sv \<and> rq_uri rq = sv_basePath sv @ ''/''")
    case True
    with f have "main_page env sv rq r st = Some (Inr (rq1, r1, (es1, w1, t1)))" by simp
    from main_page_proper[OF assms(1) this] st show ?thesis by simp
  next
    case main: False
    show ?thesis
    proof (cases "sv_webinterface sv \<and> rq_uri rq = ''/reset'' \<and> sv_resetoption sv")
      case True
      with f main st have "reset_page env sv rq r (es, w, t) = Some (Inr (rq1, r1, (es1, w1, t1)))" by auto
      from reset_page_proper[OF assms(1) this] show ?thesis by simp
    next
      case False
      with f main st assms(1) proper_refl show ?thesis by auto
    qed
  qed
  from assms(2) f obtain es2 w2 where s: "scanner_requests env sv rq1 r1 es1 w1 = Some (Inr (rq', r', es2, w2))"
    "fst st' = es2"
    unfolding onRequest_def by (auto simp: bind_result_Inr_iff)
  from scanner_requests_proper[OF _ s(1)] r1 proper_trans s(2) st show ?thesis by auto
qed

text \<open>The server is a request handler in the sense of the HTTP server.\<close>

interpretation server_handler: request_handler "onRequest env sv" for env :: "('s, 'l) server_env" and sv
proof
  fix rq r w rq' r' w'
  assume "onRequest env sv rq r w = Some (Inr (rq', r', w'))" "open_response r"
  from onRequest_proper[OF this(2,1)] show "answered r r' \<or> untouched r r'" by (simp add: proper_def)
qed

subsection \<open>Properties\<close>

text \<open>C5: Every client is answered. Whatever a client that may connect sends, if its handler returns then what goes to the
  client starts with a status line; a client that the access file refuses gets not a single byte, and its
  request has no effect.\<close>

theorem every_request_answered:
  assumes "handleRequest (onRequest env sv) access address input os st = Some (Inr (os', st'))" "os_reliable os" "os_data os = []"
  shows "(isAllowed access address = Inr True \<longrightarrow> (\<exists>status. prefix (status_line status) (os_data os'))) \<and>
    (isAllowed access address = Inr False \<longrightarrow> os_data os' = [] \<and> st' = st)"
  using server_handler.connection_answered[OF assms(1,2)] assms(3) by auto

definition plain_server :: server where
  "plain_server = (Server_init \<lparr>hn_system = ''host'', hn_mdns = ''host'', hn_mdnsFqdn = ''host.local''\<rparr> (\<lambda>n. 0)
     (HttpServer_init (\<lambda>i. None) 128) [])\<lparr>sv_webinterface := False\<rparr>"

theorem every_request_answered_witness:
  "\<forall>(env :: ('s, 'l) server_env) (w :: 's world) input. \<exists>os' st' status.
     handleRequest (onRequest env plain_server) \<lparr>af_entries = [], af_errors = []\<rparr> (Inet [127, 0, 0, 1]) input quiet_stream ([], w, None)
       = Some (Inr (os', st')) \<and> prefix (status_line status) (os_data os')"
proof (intro allI)
  fix env :: "('s, 'l) server_env" and w :: "'s world" and input
  let ?h = "onRequest env plain_server" and ?st = "([], w, None) :: 's server_state" and ?rq = "parse_request input"
  have q: "os_reliable quiet_stream" "os_data quiet_stream = []" by (simp_all add: quiet_stream_def os_reliable_def)
  note o = open_response_init[OF q(1)]
  have h: "?h ?rq r ?st = Some (Inr (?rq, r, ?st))" for r by (simp add: onRequest_def plain_server_def)
  have "\<exists>r'. respond ?h ?rq (response_init quiet_stream) ?st = Some (Inr (r', ?st))"
    using error_response_returns[of "response_init quiet_stream" _ ?rq ?st] o h by (simp add: respond_def)
  then obtain os' where a: "isAllowed \<lparr>af_entries = [], af_errors = []\<rparr> (Inet [127, 0, 0, 1]) = Inr True"
    "handleRequest ?h \<lparr>af_entries = [], af_errors = []\<rparr> (Inet [127, 0, 0, 1]) input quiet_stream ?st = Some (Inr (os', ?st))"
    by (auto simp: handleRequest_def isAllowed_def)
  from every_request_answered[OF a(2) q] a show "\<exists>os' st' status.
     handleRequest ?h \<lparr>af_entries = [], af_errors = []\<rparr> (Inet [127, 0, 0, 1]) input quiet_stream ?st
       = Some (Inr (os', st')) \<and> prefix (status_line status) (os_data os')" by blast
qed

end
