(* ===== verification/ScanTransfer.thy ===== *)
theory ScanTransfer
  imports ScanJob
begin

text \<open>
  Properties of scan jobs: what a transfer leaves behind, what it delivers, and the paths on which it
  does not return or fails. The witnesses use a simulated device: its state is the data that is still to
  be scanned, one page of lines of three gray pixels.
\<close>

subsection \<open>A simulated device\<close>

definition sim_lib :: "string sane_lib" where
  "sim_lib =
     \<lparr>sl_init = (\<lambda>s. s), sl_exit = (\<lambda>s. s), sl_get_devices = (\<lambda>l s. (s, GOOD, [])),
      sl_open = (\<lambda>n s. (s, GOOD, 1)), sl_close = (\<lambda>h s. s), sl_descriptors = (\<lambda>h s. []),
      sl_deref = (\<lambda>a s. \<lparr>od_name = None, od_type = T_GROUP, od_unit = U_NONE, od_size = 0, od_cap = 0,
                          od_constraint = C_NONE\<rparr>),
      sl_set_string = (\<lambda>h i v s. (s, INVAL, 0)), sl_get_string = (\<lambda>h i s. (INVAL, [])),
      sl_set_words = (\<lambda>h i v s. (s, INVAL, 0)), sl_get_words = (\<lambda>h i s. (INVAL, 0, [])),
      sl_start = (\<lambda>h s. (s, GOOD)),
      sl_get_parameters =
        (\<lambda>h s. (GOOD, \<lparr>sp_lines = 2, sp_pixels_per_line = 3, sp_bytes_per_line = 3, sp_depth = 8\<rparr>)),
      sl_read = (\<lambda>h n s. if s = [] then (s, EOF, []) else (drop n s, GOOD, take n s)),
      sl_cancel = (\<lambda>h s. s), sl_time = (\<lambda>s. 1000 - int (length s))\<rparr>"

text \<open>A library that writes the rows as they are.\<close>

definition sim_raster :: "nat raster_lib" where
  "sim_raster = \<lparr>rl_start = (\<lambda>ps. Inr (0, ''<'')), rl_row = (\<lambda>n row. Inr (n + 1, row, 1)),
     rl_finish = (\<lambda>n. Inr ''>'')\<rparr>"

definition sim_env :: "nat encoder_env" where
  "sim_env = \<lparr>en_png = sim_raster, en_jpeg = sim_raster, en_now = ''now'', en_uuid = (\<lambda>s. s)\<rparr>"

definition sim_scanner :: scanner_info where
  "sim_scanner = \<lparr>si_saneName = ''test:0'', si_makeAndModel = ''Noname Scanner'', si_uri = ''/scanner'',
     si_platen = Some ''Flatbed'', si_adfSimplex = None, si_adfDuplex = None, si_grayScanModeName = ''Gray'',
     si_colorScanModeName = ''Color'', si_maxWidthPx300dpi = Fin 2551, si_maxHeightPx300dpi = Fin 3508\<rparr>"

definition sim_job :: scan_job where
  "sim_job = (job_create ''uuid'' 990)\<lparr>sj_documentFormat := MIME_TYPE_PNG, sj_colorScan := Some False,
     sj_bitDepth := 8, sj_res_dpi := 300, sj_kind := Some single\<rparr>"

definition sim_session :: session where
  "sim_session = \<lparr>se_device = Some 1, se_options = \<lparr>os_device = Some 1, os_options = Map.empty\<rparr>,
     se_status = GOOD,
     se_parameters = \<lparr>sp_lines = 2, sp_pixels_per_line = 3, sp_bytes_per_line = 3, sp_depth = 8\<rparr>\<rparr>"

definition sim_scanning :: scan_job where
  "sim_scanning = sim_job\<lparr>sj_state := processing, sj_session := Some sim_session\<rparr>"

definition sim_world :: "string world" where
  "sim_world = \<lparr>w_sane = ''abcdef'', w_refcount = 2\<rparr>"

definition sim_stream :: ostream where
  "sim_stream = \<lparr>os_data = [], os_fail = False, os_flushes = [], os_cuts = []\<rparr>"

lemma sim_reads_ok: "reads_ok sim_lib 1"
  by (auto simp: reads_ok_def sim_lib_def split: if_splits)

lemmas sim_defs = sim_lib_def sim_raster_def sim_env_def sim_scanner_def sim_job_def sim_session_def
  sim_scanning_def sim_world_def sim_stream_def

lemma sim_session_of: "session_of sim_scanning 1" "sj_state sim_scanning = processing"
  by (simp_all add: session_of_def sim_defs)

definition sim_result :: "(ostream \<times> scan_job \<times> string world) result option" where
  "sim_result = finishTransfer sim_lib sim_env sim_scanner sim_stream sim_scanning sim_world"

lemma sim_result_eq:
  "map_option (map_sum id (\<lambda>(os, j, w). (os_data os, sj_state j, sj_imagesCompleted j, sj_session j = None, w)))
     sim_result = Some (Inr (''<abcdef>'', completed, 1, True, \<lparr>w_sane = [], w_refcount = 1\<rparr>))"
  by code_simp

lemma sim_result_obtain:
  obtains os j w where "finishTransfer sim_lib sim_env sim_scanner sim_stream sim_scanning sim_world = Some (Inr (os, j, w))"
    "os_data os = ''<abcdef>''" "sj_state j = completed" "sj_session j = None" "sj_imagesCompleted j = 1"
    "w_refcount w = 1"
proof (cases sim_result)
  case None
  with sim_result_eq show thesis by simp
next
  case (Some r)
  have m: "map_sum id (\<lambda>(os, j, w). (os_data os, sj_state j, sj_imagesCompleted j, sj_session j = None, w)) r
      = Inr (''<abcdef>'', completed, 1, True, \<lparr>w_sane = [], w_refcount = 1\<rparr>)"
    using sim_result_eq unfolding Some option.map option.inject .
  then obtain os j w where "r = Inr (os, j, w)" by (cases r) auto
  with Some m that[of os j w] show thesis by (simp add: sim_result_def)
qed

subsection \<open>What a transfer leaves behind\<close>

lemma finishTransfer_effect:
  fixes en :: "'l encoder_env"
  assumes "finishTransfer lib en sc os j w = Some (Inr (os', j', w'))" "sj_state j = processing"
    "session_of j h" "reads_ok lib h"
  shows "transfer_effect j w j' w' \<and> sj_state j' \<in> {pending, completed, aborted} \<and>
    (sj_state j' = completed \<longrightarrow> sj_session j' = None) \<and>
    (sj_state j' \<noteq> aborted \<longrightarrow> (\<exists>e j1 e1 e2 e3 k. 0 < k \<and>
       make_encoder sc (j\<lparr>sj_lastActive := now lib w\<rparr>) = Inr (Some (e :: 'l any_encoder)) \<and>
       prepare_encoder os (j\<lparr>sj_lastActive := now lib w\<rparr>) e = Inr (j1, e1) \<and>
       document_sent lib en h j k e1 e2 \<and> ie_currentLine (any_base e2) = 0 \<and>
       sj_imagesCompleted j' = sj_imagesCompleted j + int k \<and>
       any_endDocument en e2 = Inr e3 \<and> os' = the (any_dest e3)))"
  using assms(1,2)
proof (cases rule: finishTransfer_cases)
  case unsupported
  then show ?thesis by (simp add: transfer_effect_def)
next
  case (document e j1 e1 e2 j2 e3)
  let ?j = "j\<lparr>sj_lastActive := now lib w\<rparr>"
  note p = prepare_encoder_effect[OF document(2)]
  have so: "session_of j1 h" using assms(3) p by (simp add: session_of_def)
  have de: "document_effect lib en h e1 j1 w (e2, j2, w')"
    using read_pages_effect[OF document(3) assms(4)] so by simp
  have te: "transfer_effect j w j2 w'" using de p by (simp add: document_effect_def transfer_effect_def held_def)
  show ?thesis
  proof (cases "sj_state j1 = processing")
    case False
    with p assms(2) have "sj_state j1 = aborted" by simp
    with de te document(6) show ?thesis by (simp add: document_effect_def transfer_effect_def)
  next
    case True
    with de have st: "sj_state j2 \<in> {pending, completed, aborted}" "sj_state j2 = completed \<longrightarrow> sj_session j2 = None"
      by (cases "sj_state j2"; simp add: document_effect_def)+
    have "\<exists>k. 0 < k \<and> document_sent lib en h j k e1 e2 \<and> ie_currentLine (any_base e2) = 0 \<and>
        sj_imagesCompleted j' = sj_imagesCompleted j + int k" if "sj_state j2 \<noteq> aborted"
      using de True that p document(6) document_sent_settings[where j = j1 and i = j]
      by (fastforce simp: document_effect_def)
    with st te document show ?thesis by (auto simp: transfer_effect_def)
  qed
qed

text \<open>C1: A transfer that returns gives back what it took. It never leaves the job in the state
  processing, it does not touch the settings of the job, every device handle it opened or closed is
  accounted for by the reference count of the SANE library, and a job that is completed holds no
  session any more: exactly the one handle it had was closed.\<close>

theorem finishTransfer_contract:
  assumes "finishTransfer lib en sc os j w = Some (Inr (os', j', w'))"
    and "sj_state j = processing" and "session_of j h" and "reads_ok lib h"
  shows "settings j' = settings j \<and> sj_state j' \<in> {pending, completed, aborted} \<and>
    w_refcount w' - held j' = w_refcount w - held j \<and>
    (sj_state j' = completed \<longrightarrow> sj_session j' = None \<and> w_refcount w' = w_refcount w - 1)"
proof -
  have e: "transfer_effect j w j' w'" "sj_state j' \<in> {pending, completed, aborted}"
    "sj_state j' = completed \<longrightarrow> sj_session j' = None"
    using finishTransfer_effect[OF assms] by blast+
  then show ?thesis using session_of_held[OF assms(3)] by (auto simp: transfer_effect_def held_def)
qed

theorem finishTransfer_contract_witness:
  "\<exists>os' j' w'. finishTransfer sim_lib sim_env sim_scanner sim_stream sim_scanning sim_world = Some (Inr (os', j', w')) \<and>
     sj_state j' = completed \<and> settings j' = settings sim_scanning \<and> w_refcount w' = w_refcount sim_world - 1"
proof -
  obtain os j w where r: "finishTransfer sim_lib sim_env sim_scanner sim_stream sim_scanning sim_world = Some (Inr (os, j, w))"
    "sj_state j = completed"
    by (rule sim_result_obtain)
  from finishTransfer_contract[OF r(1) sim_session_of(2,1) sim_reads_ok] r show ?thesis by blast
qed

subsection \<open>What a transfer delivers\<close>

lemma advance_line_negative:
  assumes "ie_height e \<le> 0" "ie_currentLine e = 0"
  shows "ie_currentLine ((advance_line ^^ n) e) = int n \<and> ie_height ((advance_line ^^ n) e) = ie_height e"
  using assms by (induction n) (auto simp: advance_line_def)

lemma whole_images:
  assumes "ie_currentLine e = 0" "ie_currentImage e = 0" "ie_currentLine ((advance_line ^^ n) e) = 0"
  shows "ie_height e dvd int n"
proof (cases "0 < ie_height e")
  case True
  then obtain h where h: "ie_height e = int h" "0 < h" by (metis zero_less_imp_eq_int)
  from advance_line_funpow[OF h assms(1,2), of n] assms(3) have "n mod h = 0" by simp
  then show ?thesis using h by (metis mod_eq_0_iff_dvd of_nat_dvd_iff)
next
  case False
  with advance_line_negative[of e n] assms show ?thesis by simp
qed

lemma base_fields:
  "base a = base b \<Longrightarrow> ie_currentLine a = ie_currentLine b \<and> ie_height a = ie_height b \<and> has_dest a = has_dest b"
  by (simp add: base_def)

lemma prepare_encoder_fresh:
  assumes "prepare_encoder os j e = Inr (j1, e1)" "ie_currentLine (any_base e) = 0"
    "ie_currentImage (any_base e) = 0" "sj_session j = Some se"
  shows "ie_currentLine (any_base e1) = 0 \<and> ie_currentImage (any_base e1) = 0 \<and>
    ie_height (any_base e1) = sp_lines (se_parameters se) \<and> any_dest e1 = Some os"
proof -
  from assms(1,4) obtain color where c: "sj_colorScan j = Some color"
    by (auto simp: prepare_encoder_def split: option.splits)
  obtain e' where e': "any_configure (sj_res_dpi j) (if color then RGB else Grayscale) (se_parameters se) os e = Inr e'"
    "ie_height (any_base e') = sp_lines (se_parameters se)" "ie_currentLine (any_base e') = 0"
    "ie_currentImage (any_base e') = 0" "any_dest e' = Some os"
    by (rule any_configure_ok[OF assms(2,3)])
  with assms(1,4) c have "e1 = e'" by (simp add: prepare_encoder_def Let_def)
  with e' show ?thesis by simp
qed



subsection \<open>Beginning a transfer\<close>

text \<open>C4: The state machine of \<open>beginTransfer\<close>. It changes nothing unless the job is pending, it returns
  true exactly when the job is now processing and has a session, and when it returns false after having
  tried, the job holds no session and every device handle was given back.\<close>

theorem beginTransfer_contract:
  assumes "beginTransfer lib sc j w = Some (Inr (ok, j', w'))"
  shows "settings j' = settings j \<and> w_refcount w' - held j' = w_refcount w - held j \<and>
    (if ok then sj_state j = pending \<and> sj_state j' = processing \<and> sj_session j' \<noteq> None
     else if sj_state j = pending then sj_session j' = None \<and> sj_state j' \<in> {aborted, completed, pending}
     else j' = j \<and> w' = w)"
  using beginTransfer_effect[OF assms] by (auto simp: transfer_effect_def)

lemma nulloption_simps [simp]:
  "set_string_value lib s_nulloption i v os w = Inr (False, os, w)"
  "set_numeric_value lib s_nulloption i d os w = Inr (False, os, w)"
  by (simp_all add: set_string_value_def set_numeric_value_def option_handle_def s_nulloption_def)

text \<open>A backend without options takes every setting silently, but the resolution is missed.\<close>

lemma set_options_none:
  assumes "os_options (fst st) = Map.empty"
  shows "set_options lib j st = Inr (False, st)"
proof -
  have n: "option_ref (fst st) name = s_nulloption" for name using assms by (simp add: option_ref_def)
  have s: "assign_string lib nv st = Inr st" for nv
    using n by (cases st) (simp add: assign_string_def set_value_string_def)
  have d: "assign_double lib name v st = Inr st" for name v
    using n by (cases st) (simp add: assign_double_def set_value_double_def)
  have a: "assign_all lib nvs st = Inr st" for nvs by (induction nvs) (simp_all add: s)
  have r: "set_resolution lib res st = Inr (False, st)" for res
    using n by (cases st) (simp add: set_resolution_def Let_def)
  show ?thesis by (simp add: set_options_def a s d r)
qed

lemma sim_begin:
  "beginTransfer sim_lib sim_scanner sim_job sim_world =
     Some (Inr (True, sim_scanning\<lparr>sj_stateReason := PWG_JOB_SCANNING\<rparr>, sim_world\<lparr>w_refcount := 3\<rparr>))"
proof -
  let ?j = "sim_job\<lparr>sj_state := processing\<rparr>"
  let ?se = "sim_session\<lparr>se_parameters := no_parameters\<rparr>"
  let ?w = "sim_world\<lparr>w_refcount := 3\<rparr>"
  have "session_open sim_lib (si_saneName sim_scanner) sim_world = Inr (?se, ?w)"
    by (simp add: session_open_def sane_open_device_def sane_init_addref_def option_set_init_def sim_lib_def
        sim_world_def sim_session_def sane_def)
  then have "openSession sim_lib sim_scanner ?j sim_world = Inr (INVAL, ?j\<lparr>sj_session := Some ?se\<rparr>, ?w)"
    by (simp add: openSession_def set_options_none sim_session_def sim_job_def job_create_def)
  moreover have "startSession sim_lib (?j\<lparr>sj_session := Some ?se\<rparr>) ?w =
      Some (Inr (sim_scanning\<lparr>sj_stateReason := PWG_JOB_SCANNING\<rparr>, ?w))"
    by (simp add: startSession_def session_start_def updateStatus.simps status_step_def close_if_aborted_def
        sim_lib_def sim_session_def sim_scanning_def sim_job_def sim_world_def job_create_def set_state_def)
  ultimately show ?thesis
    by (simp add: beginTransfer_def atomicTransition_def isProcessing_def sim_job_def sim_scanning_def job_create_def)
qed

theorem beginTransfer_contract_witness:
  "\<exists>j' w'. beginTransfer sim_lib sim_scanner sim_job sim_world = Some (Inr (True, j', w')) \<and>
     sj_state j' = processing \<and> w_refcount w' - held j' = w_refcount sim_world - held sim_job"
  using beginTransfer_contract[OF sim_begin] sim_begin by auto

text \<open>When the device cannot be opened, \<open>beginTransfer\<close> nevertheless starts the session it did not
  get: \<open>sane_start\<close> is called with a null handle, whatever the reason of the failure was. (The status
  returned by \<open>openSession\<close> is overwritten before it is looked at.)\<close>

theorem beginTransfer_open_failure:
  assumes "sj_state j = pending" and "sj_session j = None" and "0 \<le> w_refcount w"
    and "sl_open lib (si_saneName sc) (w_sane (sane_init_addref lib w)) = (s, status, h)" and "status \<noteq> GOOD"
  shows "beginTransfer lib sc j w = Some (Inl NullDeref)"
proof -
  let ?j = "j\<lparr>sj_state := processing\<rparr>"
  obtain se w1 where se: "session_open lib (si_saneName sc) w = Inr (se, w1)"
    "se_device se = None \<longleftrightarrow> se_status se \<noteq> GOOD"
    by (rule session_open_ok[OF assms(3)])
  from se(1) assms(4,5) have "se_device se = None"
    by (auto simp: session_open_def sane_open_device_def Let_def bind_result_Inr_iff)
  moreover from this se(2) have "se_status se \<noteq> GOOD" by simp
  ultimately have "openSession lib sc ?j w = Inr (se_status se, ?j\<lparr>sj_session := Some se\<rparr>, w1)"
    using se assms(2) by (simp add: openSession_def)
  with \<open>se_device se = None\<close> assms(1,2) show ?thesis
    by (simp add: beginTransfer_def atomicTransition_def startSession_def session_start_def)
qed

theorem beginTransfer_open_failure_witness:
  "beginTransfer (sim_lib\<lparr>sl_open := (\<lambda>n s. (s, DEVICE_BUSY, 0))\<rparr>) sim_scanner sim_job sim_world =
     Some (Inl NullDeref)"
  by (rule beginTransfer_open_failure[where s = "''abcdef''" and status = DEVICE_BUSY and h = 0])
    (simp_all add: sim_defs job_create_def sane_init_addref_def sane_def)

subsection \<open>A client that is gone\<close>

text \<open>The states of the loop over the pages from which it does not get away.\<close>

definition stuck :: "'l any_encoder \<Rightarrow> scan_job \<Rightarrow> bool" where
  "stuck e j \<longleftrightarrow> sj_state j = processing \<and> \<not> stream_ok e \<and> ie_currentLine (any_base e) = 0 \<and>
     (\<exists>se. sj_session j = Some se \<and> 0 \<le> sp_bytes_per_line (se_parameters se))"

lemma read_pages_stuck_raw: "read_pages lib en e j w = Some r \<Longrightarrow> \<not> stuck e j"
proof (induction rule: read_pages.raw_induct[rotated, consumes 1, case_names 1])
  case (1 rp lib en e j w r)
  show ?case
  proof
    assume st: "stuck e j"
    then obtain se where se: "sj_session j = Some se" "0 \<le> sp_bytes_per_line (se_parameters se)"
      and p: "isProcessing j" and ns: "\<not> stream_ok e" and l: "ie_currentLine (any_base e) = 0"
      by (auto simp: stuck_def isProcessing_def)
    let ?j = "j\<lparr>sj_lastActive := now lib w\<rparr>"
    let ?j2 = "set_state processing PWG_JOB_SCANNING (?j\<lparr>sj_imagesCompleted := sj_imagesCompleted j + 1, sj_adfStatus := GOOD\<rparr>)"
    have rd: "read_page lib en buf GOOD e ?j w = Some (Inr (GOOD, e, ?j, w))" for buf
      using ns by (subst read_page.simps) simp
    have "finish_page lib GOOD (e, ?j, w) = Some (Inr (e, ?j2, w))"
      using p l by (simp add: finish_page_def isProcessing_def updateStatus.simps status_step_def close_if_aborted_def
          linesLeftInCurrentImage_def set_state_def)
    with 1(2) p se rd have "rp lib en e ?j2 w = Some r" by simp
    from 1(1)[OF this] have "\<not> stuck e ?j2" .
    with st se show False by (simp add: stuck_def)
  qed
qed

lemma read_pages_stuck: "stuck e j \<Longrightarrow> read_pages lib en e j w = None"
  using read_pages_stuck_raw by (cases "read_pages lib en e j w") blast+

text \<open>\<open>finishTransfer\<close> does not return when the stream to the client has failed before the first line: no
  line is read, the job stays in the state processing, and the loop over the pages starts again forever,
  keeping the device open.\<close>

theorem finishTransfer_stuck:
  fixes en :: "'l encoder_env"
  assumes "sj_state j = processing" and "sj_session j = Some se" and "0 \<le> sp_bytes_per_line (se_parameters se)"
    and "os_fail os"
    and "make_encoder sc (j\<lparr>sj_lastActive := now lib w\<rparr>) = Inr (Some (e :: 'l any_encoder))"
    and "prepare_encoder os (j\<lparr>sj_lastActive := now lib w\<rparr>) e = Inr (j1, e1)" and "sj_state j1 = processing"
  shows "finishTransfer lib en sc os j w = None"
proof -
  have "ie_currentLine (any_base e1) = 0" "any_dest e1 = Some os"
    using prepare_encoder_fresh[OF assms(6)] make_encoder_fresh[OF assms(5)] assms(2) by simp_all
  moreover have "sj_session j1 = Some se" using prepare_encoder_effect[OF assms(6)] assms(2) by simp
  ultimately have "stuck e1 j1" using assms(3,4,7) by (simp add: stuck_def stream_ok_def)
  from read_pages_stuck[OF this] show ?thesis
    using assms(1,5,6) by (simp add: finishTransfer_def Let_def isProcessing_def)
qed

theorem finishTransfer_stuck_witness:
  "finishTransfer sim_lib sim_env sim_scanner (sim_stream\<lparr>os_fail := True\<rparr>) sim_scanning sim_world = None"
proof -
  have "make_encoder sim_scanner (sim_scanning\<lparr>sj_lastActive := now sim_lib sim_world\<rparr>) =
      Inr (Some (E_Png raster_init :: nat any_encoder))"
    by (simp add: make_encoder_def sim_defs MIME_TYPE_PNG_def MIME_TYPE_JPEG_def MIME_TYPE_PDF_def)
  moreover obtain j1 and e1 :: "nat any_encoder" where
    "prepare_encoder (sim_stream\<lparr>os_fail := True\<rparr>) (sim_scanning\<lparr>sj_lastActive := now sim_lib sim_world\<rparr>)
       (E_Png raster_init) = Inr (j1, e1)" "sj_state j1 = processing"
    by (simp add: prepare_encoder_def sim_scanning_def sim_job_def job_create_def sim_session_def synthesizing_def
        default_options_def any_configure_def map_encoder_def configure_def setter_defs onParamChange_def
        raster_init_def encoder_init_def encoder.defs any_base_def cdiv_def)
  ultimately show ?thesis
    by (intro finishTransfer_stuck[where se = sim_session]) (simp_all add: sim_scanning_def sim_session_def)
qed

subsection \<open>A transfer comes to an end\<close>

text \<open>
  A device with a finite amount of data: every successful read brings it closer to the end, and, for a
  document that is fed page by page, so does every start of a page. Lines are not empty.
\<close>

definition finite_device :: "'s sane_lib \<Rightarrow> handle \<Rightarrow> bool \<Rightarrow> ('s \<times> 's) set \<Rightarrow> bool" where
  "finite_device lib h fed R \<longleftrightarrow> wf R \<and> trans R \<and> reads_ok lib h \<and>
     (\<forall>n s s' st d. sl_read lib h n s = (s', st, d) \<longrightarrow> 0 < n \<longrightarrow> (s', s) \<in> (if st = GOOD then R else R\<^sup>=)) \<and>
     (fed \<longrightarrow> (\<forall>s s' st. sl_start lib h s = (s', st) \<longrightarrow> st \<in> {GOOD, EOF} \<longrightarrow> (s', s) \<in> R)) \<and>
     (\<forall>s. 0 < sp_bytes_per_line (snd (sl_get_parameters lib h s)))"

lemma finite_device_wf: "finite_device lib h fed R \<Longrightarrow> wf R"
  by (simp add: finite_device_def)

lemma read_loop_down_raw:
  "read_loop lib h buf k s = Some r \<Longrightarrow> finite_device lib h fed R \<longrightarrow>
     (snd (snd r), s) \<in> R\<^sup>= \<and> (fst r = GOOD \<and> k < length buf \<longrightarrow> (snd (snd r), s) \<in> R)"
proof (induction rule: read_loop.raw_induct[rotated, consumes 1, case_names 1])
  case (1 rl lib h buf k s r)
  show ?case
  proof
    assume fd: "finite_device lib h fed R"
    then have tr: "trans R" by (simp add: finite_device_def)
    show "(snd (snd r), s) \<in> R\<^sup>= \<and> (fst r = GOOD \<and> k < length buf \<longrightarrow> (snd (snd r), s) \<in> R)"
    proof (cases "k < length buf")
      case False
      with 1(2) show ?thesis by auto
    next
      case True
      obtain s1 st d where rd: "sl_read lib h (length buf - k) s = (s1, st, d)" by (metis prod_cases3)
      with fd True have down: "(s1, s) \<in> (if st = GOOD then R else R\<^sup>=)"
        unfolding finite_device_def by (metis zero_less_diff)
      show ?thesis
      proof (cases "st = GOOD")
        case False
        with 1(2) True rd down show ?thesis by auto
      next
        case good: True
        with 1(2) True rd have "rl lib h (overlay buf k d) (k + length d) s1 = Some r" by simp
        from 1(1)[OF this] fd have "(snd (snd r), s1) \<in> R\<^sup>=" by simp
        with down good tr show ?thesis by (auto dest: transD)
      qed
    qed
  qed
qed

lemma session_read_down:
  assumes "finite_device lib h fed R" "se_device se = Some h" "buf \<noteq> []"
  obtains buf' se' w' where "session_read lib buf se w = Some (Inr (buf', se', w'))"
    "(w_sane w', w_sane w) \<in> R\<^sup>=" "se_status se' = GOOD \<longrightarrow> (w_sane w', w_sane w) \<in> R"
proof -
  from assms(1) have ok: "reads_ok lib h" by (simp add: finite_device_def)
  obtain st b s where r: "read_loop lib h buf 0 (w_sane w) = Some (st, b, s)"
    using read_loop_returns[OF ok, of 0 buf "w_sane w"] by auto
  from read_loop_down_raw[OF r] assms(1,3)
  have d: "(s, w_sane w) \<in> R\<^sup>=" "st = GOOD \<longrightarrow> (s, w_sane w) \<in> R" by auto
  show thesis
    by (rule that[of b "se\<lparr>se_status := st\<rparr>" "w\<lparr>w_sane := s\<rparr>"])
      (use r d assms(2) in \<open>auto simp: session_read_def\<close>)
qed

lemma read_page_exit: "st \<noteq> GOOD \<or> \<not> isProcessing j \<Longrightarrow> read_page lib en buf st e j w = Some (Inr (st, e, j, w))"
  by (subst read_page.simps) auto

text \<open>One turn of the loop.\<close>

lemma read_page_turn:
  assumes "stream_ok e" "isProcessing j" "sj_session j = Some se" "session_read lib buf se w = Some (Inr (buf1, se1, w1))"
  shows "read_page lib en buf GOOD e j w =
    (let j1 = j\<lparr>sj_session := Some se1, sj_lastActive := now lib w1\<rparr> in
     if se_status se1 \<noteq> GOOD then Some (Inr (se_status se1, e, j1, w1))
     else case convert_line j1 buf1 of Inl err \<Rightarrow> Some (Inl err)
       | Inr buf2 \<Rightarrow> (case send_line lib en buf2 e j1 w1 of Inl err \<Rightarrow> Some (Inl err)
           | Inr (e2, j2, w2) \<Rightarrow> read_page lib en buf2 GOOD e2 j2 w2))"
  using assms by (subst read_page.simps) (simp add: Let_def read_page_exit)

lemma read_page_returns:
  assumes "finite_device lib h fed R" "session_of j h" "buf \<noteq> []"
  shows "\<exists>r. read_page lib en buf st e j w = Some r \<and>
    (\<forall>st' e' j' w'. r = Inr (st', e', j', w') \<longrightarrow> sj_state j' = processing \<longrightarrow> (w_sane w', w_sane w) \<in> R\<^sup>=)"
  using finite_device_wf[OF assms(1)] assms(2,3)
proof (induction "w_sane w" arbitrary: w buf st e j rule: wf_induct_rule)
  case (less w buf st e j)
  show ?case
  proof (cases "st = GOOD \<and> stream_ok e \<and> isProcessing j")
    case False
    then show ?thesis by (subst read_page.simps) auto
  next
    case True
    from less(2) obtain se where se: "sj_session j = Some se" "se_device se = Some h" by (auto simp: session_of_def)
    obtain buf1 se1 w1 where rd: "session_read lib buf se w = Some (Inr (buf1, se1, w1))"
      "(w_sane w1, w_sane w) \<in> R\<^sup>=" "se_status se1 = GOOD \<longrightarrow> (w_sane w1, w_sane w) \<in> R"
      by (rule session_read_down[OF assms(1) se(2) less(3), of w])
    have ok: "reads_ok lib h" and tr: "trans R" using assms(1) by (simp_all add: finite_device_def)
    note dev = session_read_device[OF rd(1) ok se(2)]
    let ?j1 = "j\<lparr>sj_session := Some se1, sj_lastActive := now lib w1\<rparr>"
    note turn = read_page_turn[OF _ _ se(1) rd(1), of e en, unfolded Let_def]
    show ?thesis
    proof (cases "\<exists>buf2 t. se_status se1 = GOOD \<and> convert_line ?j1 buf1 = Inr buf2 \<and> send_line lib en buf2 e ?j1 w1 = Inr t")
      case False
      then show ?thesis using True rd(2) turn by (auto split: sum.split)
    next
      case go: True
      then obtain buf2 e2 j2 w2 where good: "se_status se1 = GOOD" and c: "convert_line ?j1 buf1 = Inr buf2"
        and sl: "send_line lib en buf2 e ?j1 w1 = Inr (e2, j2, w2)" by (metis prod_cases3)
      have step: "read_page lib en buf st e j w = read_page lib en buf2 GOOD e2 j2 w2"
        using True turn good c sl by simp
      have ne: "buf2 \<noteq> []" using length_convert_line[OF c] dev less(3) by auto
      from send_line_cases[OF sl] show ?thesis
      proof (elim disjE exE conjE)
        assume j2: "j2 = ?j1" "w2 = w1"
        have "session_of j2 h" using j2 dev by simp
        from less(1)[OF _ this ne, of w2 GOOD e2] j2 rd(3) good show ?thesis unfolding step
          using tr by (fastforce dest: transD)
      next
        assume "sj_state j2 = aborted"
        then show ?thesis unfolding step by (simp add: read_page_exit isProcessing_def)
      qed
    qed
  qed
qed

lemma updateStatus_plain:
  assumes "st \<noteq> EOF"
  obtains r where "updateStatus lib st j w = Some r"
    "\<And>j' w'. r = Inr (j', w') \<Longrightarrow> sj_state j' = processing \<Longrightarrow> st = GOOD \<and> w' = w \<and> sj_session j' = sj_session j"
proof -
  have p: "st = GOOD \<and> w1 = w \<and> sj_session j1 = sj_session j"
    if "status_step lib st (j\<lparr>sj_adfStatus := GOOD\<rparr>) w = Inr (j1, w1)" "sj_state j1 = processing" for j1 w1
    using that by (cases st) (auto simp: status_step_def set_state_def dest!: closeSession_acct split: if_splits)
  have "updateStatus lib st j w =
      Some (bind_result (status_step lib st (j\<lparr>sj_adfStatus := GOOD\<rparr>) w) (\<lambda>(j1, w1). close_if_aborted lib j1 w1))"
    using assms by (subst updateStatus.simps) (simp add: Let_def)
  then show thesis
  proof (rule that)
    fix j' w' assume r: "bind_result (status_step lib st (j\<lparr>sj_adfStatus := GOOD\<rparr>) w)
        (\<lambda>(j1, w1). close_if_aborted lib j1 w1) = Inr (j', w')" and st: "sj_state j' = processing"
    then obtain j1 w1 where 1: "status_step lib st (j\<lparr>sj_adfStatus := GOOD\<rparr>) w = Inr (j1, w1)"
      "close_if_aborted lib j1 w1 = Inr (j', w')" by (auto simp: bind_result_Inr_iff)
    then have "j' = j1 \<and> w' = w1" using st
      by (auto simp: close_if_aborted_def dest!: closeSession_acct split: if_splits)
    with p 1(1) st show "st = GOOD \<and> w' = w \<and> sj_session j' = sj_session j" by simp
  qed
qed

definition lines_ok :: "scan_job \<Rightarrow> bool" where
  "lines_ok j \<longleftrightarrow> (\<exists>se. sj_session j = Some se \<and> 0 < sp_bytes_per_line (se_parameters se))"

lemma session_start_down:
  assumes "finite_device lib h True R" "se_device se = Some h" "session_start lib se w = Inr (se', w')"
  shows "se_status se' = EOF \<longrightarrow> (w_sane w', w_sane w) \<in> R"
    and "se_status se' = GOOD \<longrightarrow> (w_sane w', w_sane w) \<in> R \<and> 0 < sp_bytes_per_line (se_parameters se')"
proof -
  obtain s st where s: "sl_start lib h (w_sane w) = (s, st)" by (metis surj_pair)
  obtain st2 p where p: "sl_get_parameters lib h s = (st2, p)" by (metis surj_pair)
  have d: "st \<in> {GOOD, EOF} \<longrightarrow> (s, w_sane w) \<in> R" "0 < sp_bytes_per_line p"
    using assms(1) s p unfolding finite_device_def by (blast, metis snd_conv)
  show "se_status se' = EOF \<longrightarrow> (w_sane w', w_sane w) \<in> R"
    using assms(2,3) s p d by (auto simp: session_start_def Let_def split: if_splits)
  show "se_status se' = GOOD \<longrightarrow> (w_sane w', w_sane w) \<in> R \<and> 0 < sp_bytes_per_line (se_parameters se')"
    using assms(2,3) s p d by (auto simp: session_start_def Let_def split: if_splits)
qed

lemma updateStatus_returns:
  assumes "finite_device lib h (sj_kind j = Some adfConcat) R" "session_of j h"
  shows "\<exists>r. updateStatus lib st j w = Some r \<and>
    (\<forall>j' w'. r = Inr (j', w') \<longrightarrow> sj_state j' = processing \<longrightarrow> st \<noteq> GOOD \<longrightarrow>
       (w_sane w', w_sane w) \<in> R \<and> lines_ok j')"
  using finite_device_wf[OF assms(1)] assms
proof (induction "w_sane w" arbitrary: w st j rule: wf_induct_rule)
  case (less w st j)
  let ?j = "j\<lparr>sj_adfStatus := GOOD\<rparr>"
  have tr: "trans R" using less.prems(1) by (simp add: finite_device_def)
  show ?case
  proof (cases "st = EOF")
    case False
    obtain r where "updateStatus lib st j w = Some r"
      "\<And>j' w'. r = Inr (j', w') \<Longrightarrow> sj_state j' = processing \<Longrightarrow> st = GOOD \<and> w' = w \<and> sj_session j' = sj_session j"
      by (rule updateStatus_plain[OF False]) blast
    then show ?thesis by blast
  next
    case eof: True
    show ?thesis
    proof (cases "sj_kind j = Some adfConcat")
      case False
      then show ?thesis using eof
        by (subst updateStatus.simps) (cases "sj_kind j"; cases "the (sj_kind j)";
          auto simp: Let_def bind_result_Inr_iff close_if_aborted_def dest!: closeSession_acct split: if_splits)
    next
      case True
      with less.prems(1) have fd: "finite_device lib h True R" by simp
      from less.prems(2) obtain se where se: "sj_session j = Some se" "se_device se = Some h"
        by (auto simp: session_of_def)
      obtain se' w1 where ss: "session_start lib se w = Inr (se', w1)" "se_device se' = Some h"
        by (rule session_start_ok[OF se(2), of lib w])
      note down = session_start_down[OF fd se(2) ss(1)]
      let ?j1 = "?j\<lparr>sj_session := Some se'\<rparr>"
      have "\<exists>r. updateStatus lib (se_status se') ?j1 w1 = Some r \<and>
         (\<forall>j' w'. r = Inr (j', w') \<longrightarrow> sj_state j' = processing \<longrightarrow> (w_sane w', w_sane w) \<in> R \<and> lines_ok j')"
      proof (cases "se_status se' = EOF")
        case e: True
        have "session_of ?j1 h" "finite_device lib h (sj_kind ?j1 = Some adfConcat) R"
          using ss(2) fd True by simp_all
        from less.hyps[OF down(1)[rule_format, OF e] this(2,1), of "se_status se'"] e down(1) tr show ?thesis
          by (fastforce dest: transD)
      next
        case False
        obtain r where r: "updateStatus lib (se_status se') ?j1 w1 = Some r"
          "\<And>j' w'. r = Inr (j', w') \<Longrightarrow> sj_state j' = processing \<Longrightarrow>
             se_status se' = GOOD \<and> w' = w1 \<and> sj_session j' = sj_session ?j1"
          by (rule updateStatus_plain[OF False]) blast
        then show ?thesis using down(2) by (fastforce simp: lines_ok_def)
      qed
      then obtain r where r: "updateStatus lib (se_status se') ?j1 w1 = Some r"
        "\<forall>j' w'. r = Inr (j', w') \<longrightarrow> sj_state j' = processing \<longrightarrow> (w_sane w', w_sane w) \<in> R \<and> lines_ok j'"
        by blast
      have "updateStatus lib st j w = Some (bind_result r (\<lambda>(j1, w1). close_if_aborted lib j1 w1))"
        using eof True se ss r(1) by (subst updateStatus.simps) (simp add: Let_def)
      with r(2) show ?thesis
        by (auto simp: bind_result_Inr_iff close_if_aborted_def dest!: closeSession_acct split: if_splits)
    qed
  qed
qed

lemma finish_page_returns:
  assumes "finite_device lib h (sj_kind j = Some adfConcat) R" "session_of j h" "sj_state j = processing" "st \<noteq> GOOD"
  obtains r where "finish_page lib st (e, j, w) = Some r"
    "\<And>e' j' w'. r = Inr (e', j', w') \<Longrightarrow> e' = e \<and> settings j' = settings j \<and>
       (sj_state j' = processing \<longrightarrow> (w_sane w', w_sane w) \<in> R \<and> lines_ok j' \<and> session_of j' h)"
proof -
  let ?j = "j\<lparr>sj_imagesCompleted := sj_imagesCompleted j + 1\<rparr>"
  obtain r where r: "updateStatus lib st ?j w = Some r"
    "\<forall>j' w'. r = Inr (j', w') \<longrightarrow> sj_state j' = processing \<longrightarrow> (w_sane w', w_sane w) \<in> R \<and> lines_ok j'"
    using updateStatus_returns[of lib h ?j R st w] assms by auto
  have eff: "settings j' = settings j \<and> (sj_state j' = processing \<longrightarrow> session_of j' h)" if "r = Inr (j', w')" for j' w'
    using updateStatus_effect[OF r(1)[unfolded that]] assms(2) by (auto simp: status_effect_def)
  show thesis
  proof (rule that)
    show "finish_page lib st (e, j, w) = Some (bind_result r (\<lambda>(j1, w1).
         Inr (e, if linesLeftInCurrentImage (any_base e) \<noteq> ie_height (any_base e)
                 then set_state aborted PWG_ERRORS_DETECTED j1 else j1, w1)))"
      using r(1) assms(3) by (simp add: finish_page_def isProcessing_def)
  qed (use r(2) eff in \<open>auto simp: bind_result_Inr_iff split: if_splits\<close>)
qed

lemma read_pages_stopped: "sj_state j \<noteq> processing \<Longrightarrow> read_pages lib en e j w = Some (Inr (e, j, w))"
  by (subst read_pages.simps) (simp add: isProcessing_def)

lemma finish_page_stopped: "sj_state j \<noteq> processing \<Longrightarrow> finish_page lib st (e, j, w) = Some (Inr (e, j, w))"
  by (simp add: finish_page_def isProcessing_def)

text \<open>The rest of the loop after a page, given that the loop returns from the states that may follow.\<close>

lemma next_pages_return:
  assumes "finite_device lib h (sj_kind j = Some adfConcat) R" "session_of j h" "st \<noteq> GOOD" "sj_state j = processing"
    and next_page: "\<And>j' w'. (w_sane w', w_sane w) \<in> R \<Longrightarrow> lines_ok j' \<Longrightarrow> session_of j' h \<Longrightarrow> settings j' = settings j \<Longrightarrow>
      \<exists>r. read_pages lib en e j' w' = Some r"
  shows "\<exists>r. Option.bind (finish_page lib st (e, j, w)) (\<lambda>r. case r of Inl err \<Rightarrow> Some (Inl err)
             | Inr (e2, j2, w2) \<Rightarrow> read_pages lib en e2 j2 w2) = Some r"
proof -
  obtain r where r: "finish_page lib st (e, j, w) = Some r"
    "\<And>e' j' w'. r = Inr (e', j', w') \<Longrightarrow> e' = e \<and> settings j' = settings j \<and>
       (sj_state j' = processing \<longrightarrow> (w_sane w', w_sane w) \<in> R \<and> lines_ok j' \<and> session_of j' h)"
    by (rule finish_page_returns[OF assms(1,2,4,3)]) blast
  show ?thesis
  proof (cases r)
    case (Inr y)
    obtain j2 w2 where y: "y = (e, j2, w2)" using r(2) Inr by (cases y) auto
    note q = r(2)[OF Inr[unfolded y]]
    have "\<exists>r. read_pages lib en e j2 w2 = Some r"
      using q next_page[of w2 j2] read_pages_stopped[of j2 lib en e w2] by blast
    then show ?thesis using r(1) Inr y by simp
  qed (use r(1) in simp)
qed

lemma read_pages_returns:
  assumes "finite_device lib h (sj_kind j = Some adfConcat) R" "stream_ok e"
    "sj_state j = processing \<Longrightarrow> session_of j h \<and> lines_ok j"
  shows "\<exists>r. read_pages lib en e j w = Some r"
  using finite_device_wf[OF assms(1)] assms
proof (induction "w_sane w" arbitrary: w e j rule: wf_induct_rule)
  case (less w e j)
  have ok: "reads_ok lib h" and tr: "trans R" using less.prems(1) by (simp_all add: finite_device_def)
  show ?case
  proof (cases "isProcessing j")
    case False
    then show ?thesis by (auto simp: isProcessing_def read_pages_stopped)
  next
    case True
    with less.prems(3) obtain se where se: "sj_session j = Some se" "0 < sp_bytes_per_line (se_parameters se)"
      and so: "session_of j h" by (auto simp: lines_ok_def isProcessing_def)
    let ?buf = "replicate (nat (sp_bytes_per_line (se_parameters se))) (CHR 0x00)"
    let ?j = "j\<lparr>sj_lastActive := now lib w\<rparr>"
    have ne: "?buf \<noteq> []" and so': "session_of ?j h" using se(2) so by simp_all
    obtain r1 where r1: "read_page lib en ?buf GOOD e ?j w = Some r1"
      "\<forall>st' e' j' w'. r1 = Inr (st', e', j', w') \<longrightarrow> sj_state j' = processing \<longrightarrow> (w_sane w', w_sane w) \<in> R\<^sup>="
      using read_page_returns[OF less.prems(1) so' ne, of en GOOD e w] by blast
    have unf: "read_pages lib en e j w = Option.bind (Some r1) (\<lambda>r. case r of Inl err \<Rightarrow> Some (Inl err)
         | Inr (st, t) \<Rightarrow> Option.bind (finish_page lib st t) (\<lambda>r. case r of Inl err \<Rightarrow> Some (Inl err)
             | Inr (e2, j2, w2) \<Rightarrow> read_pages lib en e2 j2 w2))"
      using True se r1(1) by (subst read_pages.simps) simp
    show ?thesis
    proof (cases r1)
      case (Inr x)
      obtain st e1 j1 w1 where x: "x = (st, e1, j1, w1)" by (metis prod_cases4)
      have pe: "page_effect lib en h (length ?buf) e ?j w (st, e1, j1, w1)"
        using read_page_effect[OF r1(1)[unfolded Inr x] ok so'] .
      have "\<exists>r. Option.bind (finish_page lib st (e1, j1, w1)) (\<lambda>r. case r of Inl err \<Rightarrow> Some (Inl err)
             | Inr (e2, j2, w2) \<Rightarrow> read_pages lib en e2 j2 w2) = Some r"
      proof (cases "sj_state j1 = processing")
        case p1: True
        with pe less.prems(2) have j1: "session_of j1 h" "stream_ok e1" "st \<noteq> GOOD" "settings j1 = settings j"
          by (auto simp: page_effect_def transfer_effect_def)
        have fd1: "finite_device lib h (sj_kind j1 = Some adfConcat) R"
          using less.prems(1) settingsD(1)[OF j1(4)] by simp
        show ?thesis
        proof (rule next_pages_return[OF fd1 j1(1,3) p1])
          fix j2 and w2 :: "'a world"
          assume q: "(w_sane w2, w_sane w1) \<in> R" "lines_ok j2" "session_of j2 h" "settings j2 = settings j1"
          from q(1) r1(2) Inr x p1 tr have "(w_sane w2, w_sane w) \<in> R" by (auto dest: transD)
          moreover have "finite_device lib h (sj_kind j2 = Some adfConcat) R"
            using fd1 settingsD(1)[of j2 j1] q(4) by simp
          ultimately show "\<exists>r. read_pages lib en e1 j2 w2 = Some r" using less.hyps[of w2 j2 e1] j1(2) q(2,3) by blast
        qed
      qed (simp add: finish_page_stopped read_pages_stopped)
      then show ?thesis unfolding unf Inr x by simp
    qed (simp add: unf)
  qed
qed

text \<open>C3: A transfer comes to an end. When the device has a finite amount of data and the client's stream is
  good at the start, \<open>finishTransfer\<close> returns (normally, or with an exception of the encoder), whatever
  the document format is and whenever the client goes away.\<close>

theorem finishTransfer_returns:
  assumes "finite_device lib h (sj_kind j = Some adfConcat) R" and "sj_session j = Some se"
    and "se_device se = Some h" and "0 < sp_bytes_per_line (se_parameters se)" and "\<not> os_fail os"
  shows "\<exists>r. finishTransfer lib en sc os j w = Some r"
proof -
  let ?j = "j\<lparr>sj_lastActive := now lib w\<rparr>"
  have "\<exists>r. read_pages lib en e1 j1 w = Some r"
    if "make_encoder sc ?j = Inr (Some e)" "prepare_encoder os ?j e = Inr (j1, e1)" for e j1 e1
  proof (rule read_pages_returns)
    note p = prepare_encoder_effect[OF that(2)]
    show "finite_device lib h (sj_kind j1 = Some adfConcat) R"
      using assms(1) p settingsD(1)[of j1 ?j] by simp
    show "stream_ok e1"
      using prepare_encoder_fresh[OF that(2)] make_encoder_fresh[OF that(1)] assms(2,5) by (simp add: stream_ok_def)
    show "session_of j1 h \<and> lines_ok j1" using p assms(2-4) by (simp add: session_of_def lines_ok_def)
  qed
  then show ?thesis
    by (simp add: finishTransfer_def Let_def split: sum.split option.split prod.split)
qed

theorem finishTransfer_returns_witness:
  "\<exists>r. finishTransfer sim_lib sim_env sim_scanner sim_stream sim_scanning sim_world = Some r"
proof (rule finishTransfer_returns[where h = 1 and se = sim_session and R = "measure length"])
  show "finite_device sim_lib 1 (sj_kind sim_scanning = Some adfConcat) (measure length)"
    unfolding finite_device_def using sim_reads_ok
    by (auto simp: sim_lib_def sim_scanning_def sim_job_def trans_def split: if_splits)
qed (simp_all add: sim_scanning_def sim_session_def sim_stream_def)

end
