(* ===== verification/ServerProperties.thy ===== *)
theory ServerProperties
  imports ServerContract ScanTransfer
begin

text \<open>
  Properties of the server that span its parts: the life of a job as a client of the eSCL protocol sees it, the document that
  it receives, the requests that are refused, the list of scanners, and the command line.
\<close>

subsection \<open>Routing\<close>

text \<open>The path of a job below its scanner; the name of the job is a UUID and has no slash.\<close>

lemma uuid_of_chars: "CHR ''/'' \<notin> set (uuid_of hashfn mid s)" "ctrim (uuid_of hashfn mid s) = uuid_of hashfn mid s"
proof -
  have c: "c \<in> set lower_hex \<or> c = CHR ''-''" if "c \<in> set (uuid_of hashfn mid s)" for c
    using uuid_form_chars[OF uuid_of_form that] .
  from c[of "CHR ''/''"] show "CHR ''/'' \<notin> set (uuid_of hashfn mid s)" by (auto simp: lower_hex_def)
  have "\<not> is_space c" if "c \<in> set (uuid_of hashfn mid s)" for c
    using c[OF that] by (auto simp: lower_hex_def is_space_def)
  then show "ctrim (uuid_of hashfn mid s) = uuid_of hashfn mid s" by (simp add: ctrim_def)
qed

lemma ctrim_Nil: "ctrim [] = []" and ctrim_append: "ctrim (a @ b) = ctrim a @ ctrim b"
  by (simp_all add: ctrim_def)

lemma location_name: "HTTP_HEADER_LOCATION \<noteq> HTTP_HEADER_CONNECTION" "HTTP_HEADER_LOCATION \<noteq> HTTP_HEADER_CONTENT_LENGTH"
  by (simp_all add: http_header_defs)

lemma fresh_uuid_form:
  "fresh_uuid hashfn mid ds sc = Some u \<Longrightarrow> \<exists>s. u = uuid_of hashfn mid s"
  by (induction ds) (auto simp: Let_def job_uuid_def split: if_splits)

lemma next_document_route:
  assumes "rq_method rq = HTTP_GET" "CHR ''/'' \<notin> set u" "getJob u sc = Some j"
  shows "handleScannerRequest env sv (''/ScanJobs/'' @ u @ ''/NextDocument'') rq r sc w = next_document env j rq r sc w"
proof -
  have "find_str ''/'' (u @ ''/NextDocument'') = Some (length u)" using find_str_singleton_append[OF assms(2)] by simp
  with assms(1,3) show ?thesis by (simp add: handleScannerRequest_def job_request_def HTTP_GET_def HTTP_POST_def Let_def)
qed

lemma delete_route:
  assumes "rq_method rq = HTTP_DELETE" "CHR ''/'' \<notin> set u"
  shows "handleScannerRequest env sv (''/ScanJobs/'' @ u) rq r sc w = delete_job env u rq r sc w"
proof -
  have "find_str ''/'' u = None" using assms(2) by (simp add: find_str_singleton_None_iff)
  with assms(1) show ?thesis
    by (simp add: handleScannerRequest_def job_request_def HTTP_GET_def HTTP_POST_def HTTP_DELETE_def Let_def)
qed

lemma response_send_open:
  assumes "open_response r"
  obtains r' where "response_send r = Inr r'" "rs_sent r'" "open_response r'"
    "os_data (rs_stream r') = os_data (rs_stream r) @ status_line (rs_status r) @ print_headers (rs_headers r') @ crlf"
    "\<And>k. norm_key k \<notin> {HTTP_HEADER_CONNECTION, HTTP_HEADER_CONTENT_LENGTH} \<Longrightarrow> response_header r' k = response_header r k"
proof -
  let ?r = "setHeader HTTP_HEADER_CONTENT_LENGTH [] r"
  have o: "open_response ?r" using assms by (intro open_response_setHeader) (simp_all add: header_names_distinct(2)[symmetric])
  with sendHeaders_plain[of ?r] obtain r' where r': "sendHeaders ?r = Inr r'" "rs_sent r'"
      "rs_headers r' = rs_headers (setHeader HTTP_HEADER_CONNECTION ''close'' ?r)"
      "os_data (rs_stream r') = os_data (rs_stream r) @ status_line (rs_status r) @ print_headers (rs_headers r') @ crlf"
    by (auto simp: open_response_def)
  moreover from sendHeaders_answers[OF o] r'(1) have "open_response r'" by auto
  moreover have "response_header r' k = response_header r k"
    if "norm_key k \<notin> {HTTP_HEADER_CONNECTION, HTTP_HEADER_CONTENT_LENGTH}" for k
  proof -
    have "response_header r' k = response_header (setHeader HTTP_HEADER_CONNECTION ''close'' ?r) k"
      using r'(3) by (simp add: response_header_def)
    with that assms show ?thesis
      by (simp add: response_header_setHeader response_header_erase ctrim_Nil open_response_def headers_inv_def)
  qed
  ultimately show thesis using that by (simp add: response_send_def)
qed

subsection \<open>The life of a job\<close>

lemma post_job_created:
  assumes "jobs_inv sc" "open_response r" "ctrim (sc_uri sc) = sc_uri sc"
    and "post_job env rq r sc w = Some (Inr (rq', r', sc', w'))"
  obtains j where "getJob (sj_uuid j) sc = None" "getJob (sj_uuid j) sc' = Some j" "jobs_inv sc'"
    "\<forall>v. v \<noteq> sj_uuid j \<longrightarrow> getJob v sc' = getJob v sc" "w' = w" "CHR ''/'' \<notin> set (sj_uuid j)"
    "response_header r' HTTP_HEADER_LOCATION = sc_uri sc @ ''/ScanJobs/'' @ sj_uuid j"
    "prefix (os_data (rs_stream r) @ status_line HTTP_CREATED) (os_data (rs_stream r'))"
proof -
  from assms(4) obtain rq1 c j sc1 where e: "request_content rq = Inr (rq1, c)"
      "createJobFromScanSettingsXml (env_hash env) (env_machineId env) (env_pow env) (env_draws env)
        (now (env_lib env) w) c (clientIsAirscan rq) sc = Some (Inr (j, sc1))"
    unfolding post_job_def by (auto split: sum.splits option.splits)
  let ?r = "setHeader HTTP_HEADER_LOCATION (job_uri (scanner_view sc1) j) (setStatus HTTP_CREATED r)"
  have o: "open_response ?r" using assms(2) by (intro open_response_setHeader) simp_all
  obtain r1 where r1: "response_send ?r = Inr r1"
      "os_data (rs_stream r1) = os_data (rs_stream ?r) @ status_line (rs_status ?r) @ print_headers (rs_headers r1) @ crlf"
      "\<And>k. norm_key k \<notin> {HTTP_HEADER_CONNECTION, HTTP_HEADER_CONTENT_LENGTH} \<Longrightarrow> response_header r1 k = response_header ?r k"
    using response_send_open[OF o] by metis
  have res: "r' = r1" "sc' = sc1" "w' = w" using assms(4) e r1(1) by (simp_all add: post_job_def reply_def)
  note inv = createJob_xml_inv[OF assms(1) e(2) refl]
  from e(2) obtain u sc2 where u: "createJob (env_hash env) (env_machineId env) (env_draws env) (now (env_lib env) w) sc = Some (u, sc2)"
      "sj_uuid j = u" "sc1 = update_job j sc2"
    by (auto simp: createJobFromScanSettingsXml_def bind_result_Inr_iff job_create_def dest!: job_init_uuid)
  then obtain s where s: "u = uuid_of (env_hash env) (env_machineId env) s" and uri: "sc_uri sc1 = sc_uri sc"
    by (auto simp: createJob_def update_job_def dest!: fresh_uuid_form)
  have t: "ctrim (''/ScanJobs/'') = ''/ScanJobs/''" by (simp add: ctrim_def is_space_def)
  have "ctrim (job_uri (scanner_view sc1) j) = sc_uri sc @ ''/ScanJobs/'' @ u"
    using assms(3) uri u(2) by (simp only: job_uri_def scanner_view_def scanner_info.simps ctrim_append t uuid_of_chars s)
  then have "response_header r1 HTTP_HEADER_LOCATION = sc_uri sc @ ''/ScanJobs/'' @ u"
    using r1(3)[of HTTP_HEADER_LOCATION] by (simp add: response_header_setHeader location_name)
  moreover have "prefix (os_data (rs_stream r) @ status_line HTTP_CREATED) (os_data (rs_stream r1))"
    using r1(2) by simp
  ultimately show thesis using that[of j] inv res u(2) uuid_of_chars(1) s by auto
qed


text \<open>The simulated device behind a scanner, and a request with a ticket.\<close>

definition sim_server_env :: "(string, nat) server_env" where
  "sim_server_env = \<lparr>env_lib = sim_lib, env_encoders = sim_env, env_hash = (\<lambda>s. 0), env_machineId = ''m'',
     env_pow = (\<lambda>a b. a), env_draws = [(1000, 7)], env_hostname = ''host'', env_file = (\<lambda>n. None), env_isOpen = False,
     env_build = \<lparr>bi_timestamp = [], bi_commit = [], bi_branch = [], bi_revision = []\<rparr>\<rparr>"

definition sim_request :: "string \<Rightarrow> string \<Rightarrow> string \<Rightarrow> request" where
  "sim_request method uri body = \<lparr>rq_stream = [], rq_valid = True, rq_method = method, rq_uri = uri, rq_protocol = ''HTTP/1.1'',
     rq_logInfo = [], rq_headers = [], rq_content = body, rq_formData = []\<rparr>"

lemma sim_post:
  "request_content (sim_request m u ticket) = Inr (sim_request m u ticket, ticket)"
  "rq_method (sim_request m u b) = m"
  "clientIsAirscan (sim_request m u b) = False"
  by (simp_all add: sim_request_def request_content_def contentLength_def hasKey_def clientIsAirscan_def
    request_header_def getString_def contains_def)

definition sim_scanner_jobs :: scanner where
  "sim_scanner_jobs = demo_scanner\<lparr>sc_jobs := [(''uuid'', sim_job)]\<rparr>"

lemma sim_view: "scanner_view sim_scanner_jobs = sim_scanner"
  by (simp add: sim_scanner_jobs_def demo_scanner_def scanner_view_def sim_scanner_def scanner_init_def new_source_def Let_def)

definition sim_answer :: "(response \<times> scan_job \<times> string world) result option" where
  "sim_answer = send_document sim_lib sim_env sim_scanner (sim_scanning\<lparr>sj_stateReason := PWG_JOB_SCANNING\<rparr>)
      (document_response MIME_TYPE_PNG (response_init quiet_stream)) (sim_world\<lparr>w_refcount := 3\<rparr>)"

lemma sim_answer_eq:
  "map_option (map_sum id (\<lambda>(r, j, w). (rs_sent r, sj_state j)))
     sim_answer = Some (Inr (True, completed))"
  by code_simp

lemma sim_answer_obtain:
  obtains r j w where "sim_answer = Some (Inr (r, j, w))"
proof (cases sim_answer)
  case None
  with sim_answer_eq show thesis by simp
next
  case (Some x)
  have "map_sum id (\<lambda>(r, j, w). (rs_sent r, sj_state j)) x = Inr (True, completed)"
    using sim_answer_eq unfolding Some option.map option.inject .
  then obtain r j w where "x = Inr (r, j, w)" by (cases x) auto
  with Some that show thesis by blast
qed


subsection \<open>The document\<close>

lemma next_document_sent:
  assumes "open_response r" "\<not> isFinished j" "beginTransfer (env_lib env) (scanner_view sc) j w = Some (Inr (True, j1, w1))"
    and "next_document env j rq r sc w = Some (Inr (rq', r', sc', w'))"
  shows "\<exists>os os' j2 hs enc. os_reliable os \<and> os_data os = [] \<and>
    finishTransfer (env_lib env) (env_encoders env) (scanner_view sc) os j1 w1 = Some (Inr (os', j2, w')) \<and>
    sc' = update_job j2 sc \<and>
    os_data (response_end r') = os_data (rs_stream r) @ status_line HTTP_OK @ print_headers hs @ crlf @ enc \<and>
    unchunk_all enc = Some (os_data os')"
proof -
  let ?r = "document_response (sj_documentFormat j1) r"
  from assms(2-4) obtain j2 where s: "send_document (env_lib env) (env_encoders env) (scanner_view sc) j1 ?r w1 = Some (Inr (r', j2, w'))"
      "sc' = update_job j2 sc"
    by (auto simp: next_document_def bind_result_Inr_iff)
  have h: "response_header ?r HTTP_HEADER_TRANSFER_ENCODING = ''chunked''" "os_reliable (rs_stream ?r)" "rs_chunk ?r = None"
      "headers_inv (rs_headers ?r)" "rs_stream ?r = rs_stream r" "rs_status ?r = HTTP_OK"
    using assms(1) by (simp_all add: document_response_def chunked_header open_response_def headers_inv_setHeader)
  from send_document_decoded[OF h(1-4) s(1)] s(2) h(5,6) show ?thesis by metis
qed

text \<open>C6: The client receives the document. When a GET of \<open>NextDocument\<close> finds a job that can begin its transfer and the handler
  returns, the answer is 200 with a chunked body, which a client decodes to exactly the bytes that the transfer of the
  job wrote, from its first to its last, and the job in the list is the job that the transfer left behind.\<close>

theorem document_delivered:
  assumes "open_response r" "rq_method rq = HTTP_GET" "CHR ''/'' \<notin> set u" "getJob u sc = Some j" "\<not> isFinished j"
    and "beginTransfer (env_lib env) (scanner_view sc) j w = Some (Inr (True, j1, w1))"
    and "handleScannerRequest env sv (''/ScanJobs/'' @ u @ ''/NextDocument'') rq r sc w = Some (Inr (rq', r', sc', w'))"
  shows "\<exists>os os' j2 hs enc. os_reliable os \<and> os_data os = [] \<and>
    finishTransfer (env_lib env) (env_encoders env) (scanner_view sc) os j1 w1 = Some (Inr (os', j2, w')) \<and>
    sc' = update_job j2 sc \<and>
    os_data (response_end r') = os_data (rs_stream r) @ status_line HTTP_OK @ print_headers hs @ crlf @ enc \<and>
    unchunk_all enc = Some (os_data os')"
  using next_document_sent[OF assms(1,5,6)] assms(7) next_document_route[OF assms(2-4)] by metis

theorem document_delivered_witness:
  "\<exists>rq' r' sc' w' hs enc doc. handleScannerRequest sim_server_env plain_server (''/ScanJobs/'' @ ''uuid'' @ ''/NextDocument'')
       (sim_request HTTP_GET [] []) (response_init quiet_stream) sim_scanner_jobs sim_world = Some (Inr (rq', r', sc', w')) \<and>
     os_data (response_end r') = status_line HTTP_OK @ print_headers hs @ crlf @ enc \<and> unchunk_all enc = Some doc"
proof -
  let ?rq = "sim_request HTTP_GET [] []" and ?r = "response_init quiet_stream"
  have o: "open_response ?r" using open_response_init[of quiet_stream] by (simp add: quiet_stream_def os_reliable_def)
  have j: "getJob ''uuid'' sim_scanner_jobs = Some sim_job" "\<not> isFinished sim_job" "CHR ''/'' \<notin> set ''uuid''"
    by (simp_all add: getJob_def sim_scanner_jobs_def isFinished_def sim_job_def job_create_def)
  let ?j = "sim_scanning\<lparr>sj_stateReason := PWG_JOB_SCANNING\<rparr>" and ?w = "sim_world\<lparr>w_refcount := 3\<rparr>"
  have b: "beginTransfer (env_lib sim_server_env) (scanner_view sim_scanner_jobs) sim_job sim_world = Some (Inr (True, ?j, ?w))"
    by (simp add: sim_begin sim_view sim_server_env_def)
  obtain r' j' w' where a: "sim_answer = Some (Inr (r', j', w'))"
    by (rule sim_answer_obtain)
  have "sj_documentFormat ?j = MIME_TYPE_PNG" by (simp add: sim_scanning_def sim_job_def)
  with a b j have h: "handleScannerRequest sim_server_env plain_server (''/ScanJobs/'' @ ''uuid'' @ ''/NextDocument'') ?rq ?r
      sim_scanner_jobs sim_world = Some (Inr (?rq, r', update_job j' sim_scanner_jobs, w'))"
    unfolding next_document_route[OF sim_post(2) j(3,1)]
    by (simp add: next_document_def sim_answer_def sim_view sim_server_env_def)
  have s: "os_data (rs_stream ?r) = []" by (simp add: response_init_def quiet_stream_def)
  from document_delivered[OF o sim_post(2) j(3,1,2) b h] h show ?thesis unfolding s append_Nil by blast
qed

subsection \<open>Refusals\<close>

lemma settings_uuid: "sj_uuid (settings j) = sj_uuid j"
  by (simp add: settings_def)

lemma send_status_open:
  assumes "open_response r"
  obtains r' where "send_status st r = Inr r'" "rs_sent r'"
    "os_data (rs_stream r') = os_data (rs_stream r) @ status_line st @ print_headers (rs_headers r') @ crlf"
proof -
  have "open_response (setStatus st r)" using assms by simp
  from response_send_open[OF this] that show thesis by (metis send_status_def setStatus_frame(1,5))
qed



subsection \<open>Base paths\<close>

text \<open>With a base path the address of a job leads nowhere. The server answers requests below its base path only, but the
  address that it gives to the client for a new job lacks the base path: unless the address happens to start with the base
  path, every request to it is left to the error page of the HTTP server, and no job or device is touched.\<close>

theorem location_outside_base_path:
  assumes "\<not> prefix (sv_basePath sv) (job_uri (scanner_view sc) j)" "rq_uri rq = job_uri (scanner_view sc) j"
    and "rq_uri rq \<noteq> ''/reset''"
  shows "onRequest env sv rq r (es, w, t) = Some (Inr (rq, r, (es, w, t)))"
proof -
  have p: "\<not> prefix (sv_basePath sv @ x) (rq_uri rq)" for x using assms(1,2) by (auto simp: prefix_def)
  then have "scanner_requests env sv rq r es w = Some (Inr (rq, r, es, w))" by (induction es) (simp_all add: Let_def)
  moreover have "rq_uri rq \<noteq> sv_basePath sv @ ''/''" using p[of "''/''"] by auto
  ultimately show ?thesis using assms(3) by (simp add: onRequest_def)
qed

theorem location_outside_base_path_witness:
  "\<forall>(env :: ('s, 'l) server_env) (w :: 's world). onRequest env (plain_server\<lparr>sv_basePath := ''/air''\<rparr>)
       (sim_request HTTP_DELETE (job_uri (scanner_view demo_scanner) sim_job) []) (response_init quiet_stream) ([(demo_scanner, service_init)], w, None)
     = Some (Inr (sim_request HTTP_DELETE (job_uri (scanner_view demo_scanner) sim_job) [], response_init quiet_stream, ([(demo_scanner, service_init)], w, None)))"
proof (intro allI)
  fix env :: "('s, 'l) server_env" and w :: "'s world"
  let ?rq = "sim_request HTTP_DELETE (job_uri (scanner_view demo_scanner) sim_job) []"
  have u: "job_uri (scanner_view demo_scanner) sim_job = ''/scanner/ScanJobs/uuid''"
    by (simp add: job_uri_def demo_scanner_view ticket_scanner_def sim_job_def job_create_def)
  show "onRequest env (plain_server\<lparr>sv_basePath := ''/air''\<rparr>) ?rq (response_init quiet_stream) ([(demo_scanner, service_init)], w, None)
     = Some (Inr (?rq, response_init quiet_stream, ([(demo_scanner, service_init)], w, None)))"
    by (rule location_outside_base_path[of _ demo_scanner sim_job]) (simp_all add: u sim_request_def)
qed

end
