(* ===== verification/Resolutions.thy ===== *)
theory Resolutions
  imports ScannerCaps
begin

text \<open>
  The resolutions offered to clients for a device that states a range of resolutions, \<open>discretizeResolutions\<close>
  of \<open>src/server/scanner.cpp\<close>. The computation is in \<open>double\<close>; the lemmas show that on numbers of type \<open>int\<close>
  it is exact, in spite of a division that rounds.
\<close>

subsection \<open>Floor of a rounded quotient\<close>

lemma pow_int_powi: "pow_int b k = b powi k" if "b \<noteq> 0"
  using that by (simp add: pow_int_def power_int_def field_simps)

lemma ilog2_lower:
  assumes "0 < x"
  shows "2 powi ilog 2 x \<le> x"
proof -
  obtain n d where nd: "quotient_of x = (n, d)" by (cases "quotient_of x")
  have d: "0 < d" and x: "x = of_int n / of_int d"
    using quotient_of_denom_pos[OF nd] quotient_of_div[OF nd] by simp_all
  have n: "0 < n" using assms d by (simp add: x zero_less_divide_iff)
  let ?a = "floorlog 2 (nat n)" and ?b = "floorlog 2 (nat d)"
  have fa: "0 < ?a" using n by (simp add: floorlog_def)
  have "2 ^ (?a - 1) \<le> nat n" "nat d < 2 ^ ?b"
    using floorlog_bounds[of "nat n" 2] floorlog_bounds[of "nat d" 2] n d by auto
  then have "(2 :: rat) ^ (?a - 1) \<le> of_nat (nat n)" "of_nat (nat d) \<le> (2 :: rat) ^ ?b"
    by (metis of_nat_le_iff of_nat_numeral of_nat_power, metis less_imp_le of_nat_le_iff of_nat_numeral of_nat_power)
  then have b: "(2 :: rat) ^ (?a - 1) \<le> of_int n" "of_int d \<le> (2 :: rat) ^ ?b" using n d by simp_all
  have "2 powi (int ?a - int ?b - 1) = (2 :: rat) ^ (?a - 1) / 2 ^ ?b"
  proof -
    have "int ?a - int ?b - 1 = int (?a - 1) - int ?b" using fa by simp
    then show ?thesis by (simp only: power_int_diff[OF disjI1, of 2] power_int_of_nat zero_neq_numeral[symmetric] not_False_eq_True)
  qed
  also have "\<dots> \<le> of_int n / of_int d" using b d n by (intro frac_le) auto
  finally have "2 powi (int ?a - int ?b - 1) \<le> x" by (simp add: x)
  then show ?thesis using pow_int_powi[of 2] by (auto simp: ilog_def nd Let_def)
qed

lemma quotient_between:
  assumes "0 < b"
  shows "rat_of_int (a div b) \<le> of_int a / of_int b \<and> rat_of_int a / of_int b \<le> of_int (a div b) + 1 - 1 / of_int b"
proof -
  have bpos: "0 < rat_of_int b" using assms by simp
  have e: "a = b * (a div b) + a mod b" "0 \<le> a mod b" "a mod b \<le> b - 1" using assms by simp_all
  have "rat_of_int a = of_int b * of_int (a div b) + of_int (a mod b)" by (metis e(1) of_int_add of_int_mult)
  then have x: "rat_of_int a / of_int b = of_int (a div b) + of_int (a mod b) / of_int b" using bpos by (simp add: field_simps)
  have "rat_of_int (a mod b) \<le> of_int b - 1" using e(3) by (metis of_int_1 of_int_diff of_int_le_iff)
  then have "rat_of_int (a mod b) / of_int b \<le> (of_int b - 1) / of_int b" using bpos by (simp only: divide_right_mono less_imp_le)
  then show ?thesis using x bpos e(2) by (simp add: diff_divide_distrib)
qed

text \<open>The unit in the last place of a quotient is less than the reciprocal of the divisor.\<close>

lemma quotient_ulp:
  fixes x :: rat
  defines "q \<equiv> max (- 1074) (ilog 2 \<bar>x\<bar> - 52)"
  assumes "0 < b" "rat_of_int b < 2 ^ 52" "0 < \<bar>x\<bar>" "of_int b * \<bar>x\<bar> < 2 ^ 52"
  shows "rat_of_int b * 2 powi q < 1"
proof -
  have bpos: "0 < rat_of_int b" using assms(2) by simp
  have l: "2 powi ilog 2 \<bar>x\<bar> \<le> \<bar>x\<bar>" by (rule ilog2_lower) (fact assms(4))
  show ?thesis
  proof (cases "q = ilog 2 \<bar>x\<bar> - 52")
    case True
    have "(2 :: rat) powi q = 2 powi ilog 2 \<bar>x\<bar> / 2 ^ 52" by (simp add: True power_int_diff)
    also have "\<dots> \<le> \<bar>x\<bar> / 2 ^ 52" using l by (intro divide_right_mono) auto
    finally have "rat_of_int b * 2 powi q \<le> rat_of_int b * (\<bar>x\<bar> / 2 ^ 52)" using bpos by (simp only: mult_le_cancel_left_pos)
    also have "\<dots> < 1" using assms(5) by simp
    finally show ?thesis .
  next
    case False
    then have "q = - 1074" by (simp add: q_def max_def split: if_splits)
    then have "(2 :: rat) powi q = 2 powi (- int 1074)" by (simp only: of_nat_numeral)
    also have "\<dots> = inverse (2 ^ 1074)" by (simp only: power_int_minus power_int_of_nat)
    also have "\<dots> \<le> inverse (2 ^ 52)" by (intro le_imp_inverse_le power_increasing) auto
    finally have "rat_of_int b * 2 powi q \<le> rat_of_int b * inverse (2 ^ 52)" using bpos by (simp only: mult_le_cancel_left_pos)
    also have "\<dots> < 1" using assms(3) by (simp add: field_simps)
    finally show ?thesis .
  qed
qed

lemma quotient_exponent:
  fixes x :: rat
  assumes "0 < \<bar>x\<bar>" "\<bar>x\<bar> < 2 ^ 52"
  shows "max (- 1074) (ilog 2 \<bar>x\<bar> - 52) \<le> 0"
proof -
  have "(2 :: rat) powi ilog 2 \<bar>x\<bar> < 2 powi 52" using ilog2_lower[OF assms(1)] assms(2) by simp
  then have "ilog 2 \<bar>x\<bar> < 52"
    using power_int_increasing[of 52 "ilog 2 \<bar>x\<bar>" "2 :: rat"] by (meson linorder_not_le one_le_numeral)
  then show ?thesis by simp
qed

text \<open>Rounding to a multiple of \<open>u = 2\<^sup>-\<^sup>k\<close> does not leave the interval between two integers unless it reaches the upper one.\<close>

lemma round_between:
  fixes x u :: rat
  assumes "u = 1 / 2 ^ k" "of_int n \<le> x" "x \<le> of_int n + 1 - u"
  shows "of_int n \<le> of_int (round_half_even (x / u)) * u \<and> of_int (round_half_even (x / u)) * u < of_int n + 1"
proof
  have u: "0 < u" using assms(1) by simp
  have "of_int (n * 2 ^ k) \<le> x / u" using assms(2) by (simp add: assms(1))
  then have "n * 2 ^ k \<le> round_half_even (x / u)" by (rule round_half_even_ge)
  then have "rat_of_int (n * 2 ^ k) * u \<le> of_int (round_half_even (x / u)) * u"
    using u by (simp only: mult_le_cancel_right_pos of_int_le_iff)
  then show "of_int n \<le> of_int (round_half_even (x / u)) * u" by (simp add: assms(1))
  have "x / u \<le> (of_int n + 1 - u) / u" using u assms(3) by (simp add: divide_right_mono)
  also have "\<dots> = of_int ((n + 1) * 2 ^ k - 1)" using u by (simp add: assms(1) diff_divide_distrib algebra_simps)
  finally have "round_half_even (x / u) \<le> (n + 1) * 2 ^ k - 1" by (rule round_half_even_le)
  then have "of_int (round_half_even (x / u)) * u \<le> of_int ((n + 1) * 2 ^ k - 1) * u"
    using u by (simp only: mult_le_cancel_right_pos of_int_le_iff)
  also have "\<dots> < of_int n + 1" using u by (simp add: assms(1) algebra_simps)
  finally show "of_int (round_half_even (x / u)) * u < of_int n + 1" .
qed

lemma floor_fround_quotient:
  assumes "0 < b" "b < 2 ^ 52" "\<bar>a\<bar> < 2 ^ 52"
  shows "\<lfloor>fround 53 (- 1074) (of_int a / of_int b)\<rfloor> = a div b \<and>
    fround 53 (- 1074) (of_int a / of_int b) \<le> of_int (a div b) + 1"
proof (cases "a = 0")
  case True
  then show ?thesis by (simp add: fround_def)
next
  case False
  define x where "x = rat_of_int a / of_int b"
  define q where "q = max (- 1074) (ilog 2 \<bar>x\<bar> - 52)"
  define u where "u = (2 :: rat) powi q"
  have x0: "x \<noteq> 0" "0 < \<bar>x\<bar>" using False assms(1) by (simp_all add: x_def)
  have bpos: "0 < rat_of_int b" using assms(1) by simp
  have ax: "\<bar>x\<bar> = rat_of_int \<bar>a\<bar> / rat_of_int b" using bpos by (simp add: x_def abs_divide)
  have a52: "rat_of_int \<bar>a\<bar> < 2 ^ 52" using assms(3) by (metis of_int_less_iff of_int_numeral of_int_power)
  have b52: "rat_of_int b < 2 ^ 52" using assms(2) by (metis of_int_less_iff of_int_numeral of_int_power)
  have "\<bar>x\<bar> \<le> rat_of_int \<bar>a\<bar>" using assms(1) by (simp add: ax divide_le_eq mult_le_cancel_left1)
  with a52 have "\<bar>x\<bar> < 2 ^ 52" by linarith
  with quotient_exponent[OF x0(2)] have q0: "q \<le> 0" by (simp add: q_def)
  obtain k where k: "u = 1 / 2 ^ k"
    using q0 that[of "nat (- q)"] by (auto simp: u_def power_int_def field_simps)
  have bx: "of_int b * \<bar>x\<bar> < 2 ^ 52" using a52 bpos by (simp add: ax)
  have "rat_of_int b * u < 1" unfolding u_def q_def by (rule quotient_ulp[OF assms(1) b52 x0(2) bx])
  then have "u < 1 / of_int b" using bpos by (simp add: less_divide_eq mult.commute)
  with quotient_between[OF assms(1), of a] have "of_int (a div b) \<le> x" "x \<le> of_int (a div b) + 1 - u"
    by (simp_all add: x_def)
  from round_between[OF k this] have "of_int (a div b) \<le> fround 53 (- 1074) x \<and> fround 53 (- 1074) x < of_int (a div b) + 1"
    using x0 by (simp add: fround_def Let_def q_def u_def pow_int_powi)
  then show ?thesis by (simp add: x_def floor_eq_iff)
qed

lemma dfloor_ddiv_int:
  assumes "0 < b" "b < 2 ^ 52" "\<bar>a\<bar> < 2 ^ 52"
  shows "dfloor (ddiv (Fin (of_int a)) (Fin (of_int b))) = Fin (of_int (a div b))"
proof -
  let ?y = "fround 53 (- 1074) (rat_of_int a / of_int b)"
  note f = floor_fround_quotient[OF assms]
  have "\<bar>a div b\<bar> \<le> \<bar>a\<bar>"
  proof (cases "0 \<le> a")
    case True
    have "a div b \<le> a div 1" using True assms(1) by (intro zdiv_mono2) auto
    then show ?thesis using True assms(1) by (simp add: pos_imp_zdiv_nonneg_iff)
  next
    case False
    have "a div 1 \<le> a div b" using False assms(1) by (intro zdiv_mono2_neg) auto
    moreover have "a div b < 0" using False assms(1) by (simp add: pos_imp_zdiv_neg_iff)
    ultimately show ?thesis by simp
  qed
  then have ab: "\<bar>a div b\<bar> < 2 ^ 52" using assms(3) by linarith
  then have "rat_of_int (a div b) < 2 ^ 52" "- (2 ^ 52) < rat_of_int (a div b)"
    by (metis abs_less_iff of_int_less_iff of_int_numeral of_int_power)
      (metis ab abs_less_iff minus_less_iff of_int_less_iff of_int_minus of_int_numeral of_int_power)
  moreover have "of_int (a div b) \<le> ?y" using f by (metis of_int_floor_le)
  moreover have "(2 :: rat) ^ 52 + 1 < 2 ^ 1024" by simp
  ultimately have "?y < 2 ^ 1024" "- (2 ^ 1024) < ?y" using f by linarith+
  with f assms(1) show ?thesis by (simp add: ddiv_def to_dbl_def Let_def)
qed

subsection \<open>The grid of resolutions\<close>

abbreviation dint :: "int \<Rightarrow> dbl" where
  "dint i \<equiv> Fin (of_int i)"

lemma to_dbl_int: "\<bar>n\<bar> < 2 ^ 53 \<Longrightarrow> to_dbl (of_int n) = dint n"
  using dbl_of_int_exact[of n] by (simp add: dbl_of_int_def)

lemma dint_arith:
  "\<bar>a + b\<bar> < 2 ^ 53 \<Longrightarrow> dadd (dint a) (dint b) = dint (a + b)"
  "\<bar>a - b\<bar> < 2 ^ 53 \<Longrightarrow> dsub (dint a) (dint b) = dint (a - b)"
  "\<bar>a * b\<bar> < 2 ^ 53 \<Longrightarrow> dmul (dint a) (dint b) = dint (a * b)"
  using to_dbl_int[of "a + b"] to_dbl_int[of "a - b"] to_dbl_int[of "a * b"]
  by (simp_all add: dsub_def dmul_def)

definition grid_floor :: "int \<Rightarrow> int \<Rightarrow> int \<Rightarrow> int" where
  "grid_floor mn st v = mn + (v - mn) div st * st"

lemma grid_floor_bounds: "0 < st \<Longrightarrow> grid_floor mn st v \<le> v \<and> v < grid_floor mn st v + st"
  using div_mult_mod_eq[of "v - mn" st] pos_mod_bound[of st "v - mn"] pos_mod_sign[of st "v - mn"]
  unfolding grid_floor_def by linarith

lemma grid_floor_mono: "0 < st \<Longrightarrow> v \<le> v' \<Longrightarrow> grid_floor mn st v \<le> grid_floor mn st v'"
  by (simp add: grid_floor_def zdiv_mono1 mult_right_mono)

lemma grid_floor_grid: "0 < st \<Longrightarrow> grid_floor mn st (mn + k * st) = mn + k * st"
  by (simp add: grid_floor_def)

lemma grid_floor_on_grid: "\<exists>k. grid_floor mn st v = mn + k * st"
  by (auto simp: grid_floor_def)

lemma roundToNearestStep_int:
  assumes "0 < st" "st < 2 ^ 31" "\<bar>mn\<bar> \<le> 2 ^ 31" "\<bar>v\<bar> < 2 ^ 40"
  shows "roundToNearestStep (dint v) (dint mn) (dint st) = dint (grid_floor mn st v)"
proof -
  let ?q = "(v - mn) div st"
  note b = grid_floor_bounds[OF assms(1), of mn v, unfolded grid_floor_def]
  have "dfloor (ddiv (dsub (dint v) (dint mn)) (dint st)) = dint ?q"
    using assms dfloor_ddiv_int[of st "v - mn"] by (simp add: dint_arith)
  moreover have "\<bar>?q * st\<bar> < 2 ^ 53 \<and> \<bar>mn + ?q * st\<bar> < 2 ^ 53"
  proof -
    have "st < 2 ^ 40" "mn \<le> 2 ^ 40" "- (2 ^ 40) \<le> mn" "- (2 ^ 40) < v" "v < 2 ^ 40" "3 * (2 :: int) ^ 40 < 2 ^ 53"
      using assms by simp_all
    with b show ?thesis by (simp only: abs_less_iff) linarith
  qed
  ultimately show ?thesis by (simp only: roundToNearestStep_def grid_floor_def dint_arith)
qed

definition push_int :: "int \<Rightarrow> int list \<Rightarrow> int list" where
  "push_int r rs = (if last rs < r then rs @ [r] else rs)"

lemma push_greater_int: "rs \<noteq> [] \<Longrightarrow> push_greater (dint r) (map dint rs) = map dint (push_int r rs)"
  by (simp add: push_greater_def push_int_def last_map)

lemma le_last: "sorted_wrt (<) rs \<Longrightarrow> x \<in> set rs \<Longrightarrow> x \<le> last rs" for x :: int
  by (induction rs) (auto intro: less_imp_le)

lemma push_int_keeps:
  assumes "rs \<noteq> []" "sorted_wrt (<) rs"
  shows "push_int r rs \<noteq> []" "sorted_wrt (<) (push_int r rs)" "hd (push_int r rs) = hd rs"
    "last (push_int r rs) = max (last rs) r" "set (push_int r rs) \<subseteq> insert r (set rs)" "set rs \<subseteq> set (push_int r rs)"
    "last rs < r \<Longrightarrow> r \<in> set (push_int r rs)"
proof -
  have "\<forall>x \<in> set rs. x < r" if "last rs < r" using le_last[OF assms(2)] that by fastforce
  then show "sorted_wrt (<) (push_int r rs)" using assms by (simp add: push_int_def sorted_wrt_append)
qed (use assms(1) in \<open>auto simp: push_int_def max_def\<close>)


lemma doubled_points:
  fixes g :: "int \<Rightarrow> int"
  assumes "last rs1 = max (last rs) (g r)" "set rs1 \<subseteq> insert (g r) (set rs)" "set rs \<subseteq> set rs1"
    and "last rs < g r \<Longrightarrow> g r \<in> set rs1" "last rs \<ge> g r \<Longrightarrow> set rs1 = set rs"
    and "\<And>k. g r \<le> g (r * 2 ^ k)" "g r \<le> mx"
  shows "set rs1 \<union> {x. last rs1 < x \<and> x \<le> mx \<and> (\<exists>k. x = g (r * 2 * 2 ^ k))} =
    set rs \<union> {x. last rs < x \<and> x \<le> mx \<and> (\<exists>k. x = g (r * 2 ^ k))}" (is "?L = ?R")
proof
  have "g (r * 2 * 2 ^ k) = g (r * 2 ^ Suc k)" for k by (simp add: mult.assoc)
  then have a: "(\<exists>k. x = g (r * 2 ^ k)) \<longleftrightarrow> x = g r \<or> (\<exists>k. x = g (r * 2 * 2 ^ k))" for x
    by (metis mult_1_right not0_implies_Suc power_0)
  have "last rs < x" if "x \<in> set rs1" "x \<notin> set rs" for x
    using that assms(2,5) by (cases "g r \<le> last rs") auto
  then show "?L \<subseteq> ?R" using assms(1,2,7) unfolding a by auto
  show "?R \<subseteq> ?L"
  proof
    fix x assume "x \<in> ?R"
    then consider "x \<in> set rs" | "last rs < x" "x \<le> mx" "x = g r"
      | k where "last rs < x" "x \<le> mx" "x = g (r * 2 * 2 ^ k)" unfolding a by auto
    then show "x \<in> ?L"
    proof cases
      case 3
      have "g r \<le> x" using assms(6)[of "Suc k"] 3(3) by (simp add: mult.assoc)
      then show ?thesis using 3 assms(1,4) by (cases "x = g r") auto
    qed (use assms(3,4) in auto)
  qed
qed

lemma resolution_loop_int:
  assumes st: "0 < st" "st < 2 ^ 31" and mn: "\<bar>mn\<bar> \<le> 2 ^ 31" and mx: "mx < 2 ^ 31"
    and r: "0 < r" "r < 2 ^ 40" and rs: "rs \<noteq> []" "sorted_wrt (<) rs"
  shows "\<exists>rs'. resolution_loop (dint mn) (dint mx) (dint st) (dint r) (map dint rs) = Some (map dint rs') \<and>
    sorted_wrt (<) rs' \<and> rs' \<noteq> [] \<and> hd rs' = hd rs \<and>
    set rs' = set rs \<union> {x. last rs < x \<and> x \<le> mx \<and> (\<exists>k. x = grid_floor mn st (r * 2 ^ k))}"
  using r rs
proof (induction "nat (mx + st - r)" arbitrary: r rs rule: less_induct)
  case less
  let ?g = "grid_floor mn st r"
  have round: "roundToNearestStep (dint r) (dint mn) (dint st) = dint ?g"
    using less.prems st mn by (intro roundToNearestStep_int) auto
  have up: "?g \<le> grid_floor mn st (r * 2 ^ k)" for k
    using less.prems(1) by (intro grid_floor_mono st) (simp add: mult_le_cancel_left1)
  show ?case
  proof (cases "?g \<le> mx")
    case False
    with up have "{x. last rs < x \<and> x \<le> mx \<and> (\<exists>k. x = grid_floor mn st (r * 2 ^ k))} = {}"
      by (auto intro: order_trans)
    with False less.prems show ?thesis
      by (intro exI[of _ rs]) (auto simp: resolution_loop.simps[of "dint mn"] round dle_def deq_def Let_def)
  next
    case True
    let ?rs = "push_int ?g rs"
    note p = push_int_keeps[OF less.prems(3,4), of ?g]
    have "r < mx + st" using True grid_floor_bounds[OF st(1), of mn r] by linarith
    moreover have "r * 2 < 2 ^ 40" using calculation mx st(2) by simp
    ultimately have "\<exists>rs'. resolution_loop (dint mn) (dint mx) (dint st) (dint (r * 2)) (map dint ?rs) = Some (map dint rs') \<and>
      sorted_wrt (<) rs' \<and> rs' \<noteq> [] \<and> hd rs' = hd ?rs \<and>
      set rs' = set ?rs \<union> {x. last ?rs < x \<and> x \<le> mx \<and> (\<exists>k. x = grid_floor mn st (r * 2 * 2 ^ k))}"
      using less.prems(1) p by (intro less.hyps) auto
    moreover have "resolution_loop (dint mn) (dint mx) (dint st) (dint r) (map dint rs) =
        resolution_loop (dint mn) (dint mx) (dint st) (dint (r * 2)) (map dint ?rs)"
      using True less.prems dint_arith(3)[of r 2] push_greater_int[of rs ?g]
      by (subst resolution_loop.simps) (auto simp: round dle_def deq_def Let_def order_le_less)
    moreover have "set ?rs \<union> {x. last ?rs < x \<and> x \<le> mx \<and> (\<exists>k. x = grid_floor mn st (r * 2 * 2 ^ k))} =
        set rs \<union> {x. last rs < x \<and> x \<le> mx \<and> (\<exists>k. x = grid_floor mn st (r * 2 ^ k))}"
      using p(4-7) up True by (intro doubled_points) (auto simp: push_int_def)
    ultimately show ?thesis using p(3) by simp
  qed
qed

subsection \<open>Properties\<close>

text \<open>The list that the loop builds, closed by the largest value of the grid.\<close>

lemma grid_list:
  fixes mn st mx :: int
  defines "m \<equiv> grid_floor mn st mx" and "G \<equiv> {x. mn < x \<and> x \<le> mx \<and> (\<exists>k. x = grid_floor mn st (75 * 2 ^ k))}"
  assumes st: "0 < st" and le: "mn \<le> mx"
    and rs: "sorted_wrt (<) rs" "rs \<noteq> []" "hd rs = mn" "set rs = {mn} \<union> G"
  shows "sorted_wrt (<) (push_int m rs) \<and> push_int m rs \<noteq> [] \<and> hd (push_int m rs) = mn \<and> last (push_int m rs) = m \<and>
    (\<forall>x \<in> set (push_int m rs). mn \<le> x \<and> x \<le> mx \<and> st dvd x - mn) \<and> set (push_int m rs) = {mn, m} \<union> G"
proof -
  let ?rs = "push_int m rs"
  note p = push_int_keeps[OF rs(2,1), of m]
  have grid: "x \<le> m" if "x \<le> mx" "x = grid_floor mn st v" for x v
    using grid_floor_mono[OF st that(1), of mn] grid_floor_on_grid[of mn st v] grid_floor_grid[OF st] that(2)
    unfolding m_def by metis
  have m: "mn \<le> m" "m \<le> mx"
    using grid_floor_mono[OF st le, of mn] grid_floor_bounds[OF st, of mn mx] by (simp_all add: m_def grid_floor_def)
  have "last rs = mn \<or> last rs \<le> mx \<and> (\<exists>v. last rs = grid_floor mn st v)"
    using last_in_set[OF rs(2)] unfolding rs(4) G_def by blast
  then have lm: "last rs \<le> m" using grid m(1) by blast
  then have "m \<in> set ?rs" using p(7) last_in_set[OF rs(2)] p(6) by (cases "last rs = m") auto
  then have s: "set ?rs = {mn, m} \<union> G" using p(5,6) rs(4) by blast
  have "mn \<le> x \<and> x \<le> mx \<and> st dvd x - mn" if "x \<in> set ?rs" for x
  proof -
    from that consider "x = mn" | v where "mn \<le> x" "x \<le> mx" "x = grid_floor mn st v"
      unfolding s G_def using m m_def by fastforce
    then show ?thesis by cases (use le in \<open>simp_all add: grid_floor_def\<close>)
  qed
  moreover have "last ?rs = m" "hd ?rs = mn" using p(3,4) rs(3) lm by simp_all
  ultimately show ?thesis using p(1,2) s by blast
qed

text \<open>C16: For a range of integer resolutions \<open>discretizeResolutions\<close> ends and returns a strictly ascending list. It starts
  at the lowest resolution, holds only resolutions that the device can be set to (on the grid of its step, at least
  one, and at most the highest), ends with the highest of them, and otherwise holds exactly the multiples
  75, 150, 300 and so on, rounded down to the grid.\<close>

theorem discrete_resolutions:
  assumes "- (2 ^ 31) \<le> mn" "mn \<le> mx" "mx < 2 ^ 31" "step < 2 ^ 31" "- (2 ^ 31) \<le> step"
    and "st = max 1 step"
  shows "\<exists>rs. discretizeResolutions (dbl_of_int mn) (dbl_of_int mx) (dbl_of_int step) = Some (map dbl_of_int rs) \<and>
    sorted_wrt (<) rs \<and> rs \<noteq> [] \<and> hd rs = mn \<and> last rs = grid_floor mn st mx \<and>
    (\<forall>x \<in> set rs. x \<le> mx \<and> st dvd x - mn) \<and>
    set rs = {mn, grid_floor mn st mx} \<union> {x. mn < x \<and> x \<le> mx \<and> (\<exists>k. x = grid_floor mn st (75 * 2 ^ k))}"
proof -
  let ?m = "grid_floor mn st mx"
  have st: "0 < st" "st < 2 ^ 31" using assms by auto
  have d: "dbl_of_int i = dint i" if "- (2 ^ 31) \<le> i" "i < 2 ^ 31" for i using that by (intro dbl_of_int_exact) auto
  have e: "(if dlt (dint step) (Fin 1) then Fin 1 else dint step) = dint st" using assms(6) by (auto simp: max_def)
  have mn: "\<bar>mn\<bar> \<le> 2 ^ 31" "\<bar>mx\<bar> < 2 ^ 40" using assms by auto
  have "\<exists>rs'. resolution_loop (dint mn) (dint mx) (dint st) (dint 75) (map dint [mn]) = Some (map dint rs') \<and>
    sorted_wrt (<) rs' \<and> rs' \<noteq> [] \<and> hd rs' = hd [mn] \<and>
    set rs' = set [mn] \<union> {x. last [mn] < x \<and> x \<le> mx \<and> (\<exists>k. x = grid_floor mn st (75 * 2 ^ k))}"
    by (rule resolution_loop_int[OF st mn(1) assms(3)]) simp_all
  then obtain rs where
    l: "resolution_loop (dint mn) (dint mx) (dint st) (Fin 75) [dint mn] = Some (map dint rs)"
    and rs: "sorted_wrt (<) rs" "rs \<noteq> []" "hd rs = mn"
      "set rs = {mn} \<union> {x. mn < x \<and> x \<le> mx \<and> (\<exists>k. x = grid_floor mn st (75 * 2 ^ k))}"
    by (simp only: list.map list.sel last.simps list.set of_int_numeral refl if_True) blast
  let ?rs = "push_int ?m rs"
  note g = grid_list[OF st(1) assms(2) rs]
  have "dint x = dbl_of_int x" if "x \<in> set ?rs" for x
    using that g assms(1,3) by (intro d[symmetric]) (meson order_trans, meson order_le_less_trans)
  then have int: "map dint ?rs = map dbl_of_int ?rs" by simp
  have "roundToNearestStep (dint mx) (dint mn) (dint st) = dint ?m" using st mn by (intro roundToNearestStep_int)
  with l e have "discretizeResolutions (dbl_of_int mn) (dbl_of_int mx) (dbl_of_int step) = Some (map dint ?rs)"
    using assms d push_greater_int[OF rs(2), of ?m] by (simp add: discretizeResolutions_def)
  with g show ?thesis unfolding int by blast
qed

theorem discrete_resolutions_witness:
  "\<exists>rs. discretizeResolutions (dbl_of_int 50) (dbl_of_int 1200) (dbl_of_int 1) = Some (map dbl_of_int rs) \<and>
     hd rs = 50 \<and> last rs = 1200 \<and> {75, 150, 300, 600} \<subseteq> set rs"
proof -
  from discrete_resolutions[of 50 1200 1 1] obtain rs where
    rs: "discretizeResolutions (dbl_of_int 50) (dbl_of_int 1200) (dbl_of_int 1) = Some (map dbl_of_int rs)"
      "hd rs = 50" "last rs = 1200"
      "set rs = {50, 1200} \<union> {x. 50 < x \<and> x \<le> 1200 \<and> (\<exists>k. x = grid_floor 50 1 (75 * 2 ^ k))}"
    by (auto simp: grid_floor_def)
  have "75 * 2 ^ k \<in> set rs" if "k < 4" for k :: nat
  proof -
    have "(2 :: int) ^ k \<le> 8" using power_increasing[of k 3 "2 :: int"] that by simp
    moreover have "1 \<le> (2 :: int) ^ k" by simp
    ultimately have "50 < 75 * (2 :: int) ^ k" "75 * (2 :: int) ^ k \<le> 1200" by linarith+
    then show ?thesis unfolding rs(4) by (simp add: grid_floor_def)
  qed
  from this[of 0] this[of 1] this[of 2] this[of 3] have "{75, 150, 300, 600} \<subseteq> set rs" by simp
  with rs show ?thesis by blast
qed

end
