(* ===== verification/ScannerProperties.thy ===== *)
theory ScannerProperties
  imports Scanner Resolutions
begin

text \<open>
  Properties of scanners: their names, what initialisation establishes, the resolutions offered to clients,
  and a kind of scanner whose feeder is not announced.
\<close>

subsection \<open>Names\<close>

lemma unique_name_first:
  "\<exists>n > i. unique_name pre others i = pre @ dec_nat n \<and> pre @ dec_nat n \<notin> set others \<and>
     (\<forall>k. i < k \<and> k < n \<longrightarrow> pre @ dec_nat k \<in> set others)"
proof (induction pre others i rule: unique_name.induct)
  case (1 pre others i)
  show ?case
  proof (cases "pre @ dec_nat (i + 1) \<in> set others")
    case True
    with 1 obtain n where n: "n > i + 1" "unique_name pre others (i + 1) = pre @ dec_nat n"
        "pre @ dec_nat n \<notin> set others" "\<forall>k. i + 1 < k \<and> k < n \<longrightarrow> pre @ dec_nat k \<in> set others"
      by blast
    have "pre @ dec_nat k \<in> set others" if "i < k" "k < n" for k
      using n(4) True that by (cases "k = i + 1") auto
    with n True show ?thesis by (intro exI[of _ n]) (simp add: unique_name.simps[of pre others i])
  next
    case False
    then show ?thesis by (intro exI[of _ "i + 1"]) (auto simp: unique_name.simps)
  qed
qed

subsection \<open>Initialisation\<close>

lemma probe_source_acct:
  assumes "probe_source lib name intents (e, b, mw, mh, st) = Inr (s, e', b', mw', mh', st')"
  shows "w_refcount (snd st') = w_refcount (snd st)"
proof -
  let ?sel = "if name = ''-'' then Inr (True, st)
    else set_string_value lib (option_ref (fst st) SANE_NAME_SCAN_SOURCE) 0 name (fst st) (snd st)"
  from assms obtain ok st1 where sel: "?sel = Inr (ok, st1)"
    by (auto simp: probe_source_def bind_result_Inr_iff)
  obtain er s0 where si: "source_init lib st1 = (er, s0)" by fastforce
  from assms sel si have "st' = st1" by (auto simp: probe_source_def bind_result_Inr_iff split: if_splits)
  moreover have "w_refcount (snd st1) = w_refcount (snd st)"
    using sel set_string_value_acct[of lib "option_ref (fst st) SANE_NAME_SCAN_SOURCE" 0 name "fst st" "snd st" ok "fst st1" "snd st1"]
    by (cases st1) (auto split: if_splits)
  ultimately show ?thesis by simp
qed

lemma maybe_probe_acct:
  assumes "maybe_probe lib name intents pr = Inr (s, pr')"
  shows "w_refcount (snd (snd (snd (snd (snd pr'))))) = w_refcount (snd (snd (snd (snd (snd pr)))))"
    "s = None \<longleftrightarrow> name = []"
proof -
  obtain e b mw mh st where pr: "pr = (e, b, mw, mh, st)" by (cases pr)
  obtain e' b' mw' mh' st' where pr': "pr' = (e', b', mw', mh', st')" by (cases pr')
  from assms show "w_refcount (snd (snd (snd (snd (snd pr'))))) = w_refcount (snd (snd (snd (snd (snd pr)))))"
    by (auto simp: maybe_probe_def bind_result_Inr_iff pr pr' dest: probe_source_acct split: if_splits)
  from assms show "s = None \<longleftrightarrow> name = []"
    by (auto simp: maybe_probe_def bind_result_Inr_iff split: if_splits)
qed

text \<open>What identifies a scanner; initialisation leaves it alone.\<close>

definition ident :: "scanner \<Rightarrow> device_info \<times> string \<times> string \<times> string \<times> string" where
  "ident sc = (sc_info sc, sc_makeAndModel sc, sc_stableUniqueName sc, sc_uuid sc, sc_publishedName sc)"

lemma ident_options [simp]: "ident (sc\<lparr>sc_deviceOptions := opts\<rparr>) = ident sc"
  by (simp add: ident_def)

text \<open>What initialisation has to do with the sources of a device.\<close>

definition sources_ok :: "scanner \<Rightarrow> bool" where
  "sources_ok sc \<longleftrightarrow>
     (''Platen'' \<in> set (sc_inputSources sc) \<longleftrightarrow> hasPlaten sc) \<and>
     (''Feeder'' \<in> set (sc_inputSources sc) \<longleftrightarrow> hasAdf sc \<or> hasDuplexAdf sc) \<and>
     (hasPlaten sc \<or> hasAdf sc \<or> hasDuplexAdf sc) \<and>
     sc_maxWidthPx300dpi sc \<noteq> None \<and> sc_maxHeightPx300dpi sc \<noteq> None"

lemma init_sources_ok:
  assumes "init_sources lib st sc = Inr (err, sc', st')" "sc_inputSources sc = []"
  shows "sources_ok sc' \<and> w_refcount (snd st') = w_refcount (snd st) \<and>
    set (sc_colorModes sc) \<subseteq> set (sc_colorModes sc') \<and> sc_documentFormats sc' = sc_documentFormats sc \<and>
    sc_txtColorSpaces sc' = sc_txtColorSpaces sc \<and> sc_discreteResolutions sc' = sc_discreteResolutions sc \<and>
    sc_jobs sc' = sc_jobs sc \<and> ident sc' = ident sc"
proof -
  let ?src = "allowed_string_values lib (option_ref (fst st) SANE_NAME_SCAN_SOURCE) (snd st)"
  define si where "si = findAdfSimplexName ?src"
  define du where "du = findAdfDuplexName ?src"
  define fl where "fl = (if du = [] \<and> si = [] \<and> findFlatbedName ?src = [] then ''-'' else findFlatbedName ?src)"
  have ne: "fl \<noteq> [] \<or> si \<noteq> [] \<or> du \<noteq> []" by (auto simp: fl_def)
  from assms(1) obtain pl pr1 s2 pr2 s3 b mw mh where
    1: "maybe_probe lib fl [''Preview'', ''TextAndGraphic'', ''Photo''] (None, 8, Fin 0, Fin 0, st) = Inr (pl, pr1)"
    and 2: "maybe_probe lib si [''TextAndGraphic'', ''Photo''] pr1 = Inr (s2, pr2)"
    and 3: "maybe_probe lib du [''TextAndGraphic'', ''Photo''] pr2 = Inr (s3, err, b, mw, mh, st')"
    and sc': "sc' = sc\<lparr>sc_platen := pl, sc_adfSimplex := s2, sc_adfDuplex := s3,
                sc_inputSources := sc_inputSources sc @ (if fl \<noteq> [] then [''Platen''] else []) @
                  (if si \<noteq> [] \<or> du \<noteq> [] then [''Feeder''] else []),
                sc_maxWidthPx300dpi := Some mw, sc_maxHeightPx300dpi := Some mh,
                sc_colorModes := sc_colorModes sc @
                  (if b = 16 \<and> ''Grayscale8'' \<in> set (sc_colorModes sc) then [''Grayscale16''] else []) @
                  (if b = 16 \<and> ''RGB24'' \<in> set (sc_colorModes sc) then [''RGB48''] else [])\<rparr>"
    unfolding init_sources_def Let_def si_def[symmetric] du_def[symmetric] fl_def[symmetric]
    by (auto simp: bind_result_Inr_iff)
  note a = maybe_probe_acct[OF 1] maybe_probe_acct[OF 2] maybe_probe_acct[OF 3]
  have "sources_ok sc'"
    using a(2,4,6) ne assms(2) by (auto simp: sources_ok_def sc' hasPlaten_def hasAdf_def hasDuplexAdf_def)
  moreover have "w_refcount (snd st') = w_refcount (snd st)" using a(1,3,5) by simp
  ultimately show ?thesis by (auto simp: sc' ident_def)
qed

lemma apply_sane_options_acct:
  "apply_sane_options lib nvs st = Inr st' \<Longrightarrow> w_refcount (snd st') = w_refcount (snd st)"
  by (induction nvs arbitrary: st) (auto simp: bind_result_Inr_iff dest: assign_string_acct split: if_splits)

lemma init_modes_colors: "sc_colorModes (init_modes allowed sc) \<noteq> []"
  by (simp add: init_modes_def Let_def)

lemma init_modes_keeps [simp]:
  "sc_inputSources (init_modes allowed sc) = sc_inputSources sc"
  "sc_documentFormats (init_modes allowed sc) = [MIME_TYPE_PDF, MIME_TYPE_JPEG, MIME_TYPE_PNG]"
  "sc_discreteResolutions (init_modes allowed sc) = sc_discreteResolutions sc"
  "sc_jobs (init_modes allowed sc) = sc_jobs sc"
  "ident (init_modes allowed sc) = ident sc"
  by (simp_all add: init_modes_def Let_def ident_def)

lemma push_greater_ne: "rs \<noteq> [] \<Longrightarrow> push_greater r rs \<noteq> []"
  by (simp add: push_greater_def)

lemma resolution_loop_ne:
  assumes "resolution_loop mn mx step r rs = Some rs'"
  shows "rs \<noteq> [] \<longrightarrow> rs' \<noteq> []"
  using assms
proof (induction rule: resolution_loop.raw_induct[rotated, consumes 1, case_names 1])
  case (1 f mn mx step r rs y)
  then show ?case
    using push_greater_ne[of rs "roundToNearestStep r mn step"] by (auto simp: Let_def split: if_splits)
qed

lemma init_resolutions_ok:
  assumes "init_resolutions lib st sc = Some (Inr sc')"
  shows "sc_discreteResolutions sc' \<noteq> [] \<and> sc_inputSources sc' = sc_inputSources sc \<and> sc_jobs sc' = sc_jobs sc \<and>
    ident sc' = ident sc"
proof -
  have "discretizeResolutions mn mx step = Some rs \<Longrightarrow> rs \<noteq> []" for mn mx step rs
    using resolution_loop_ne push_greater_ne by (fastforce simp: discretizeResolutions_def Let_def)
  with assms show ?thesis
    by (auto simp: init_resolutions_def Let_def ident_def split: if_splits option.splits)
qed

text \<open>What a successful initialisation establishes.\<close>

definition ready :: "scanner \<Rightarrow> bool" where
  "ready sc \<longleftrightarrow> sources_ok sc \<and> sc_colorModes sc \<noteq> [] \<and> sc_discreteResolutions sc \<noteq> [] \<and>
     sc_documentFormats sc = [MIME_TYPE_PDF, MIME_TYPE_JPEG, MIME_TYPE_PNG] \<and> sc_error sc = None"

lemma init_device_ok:
  assumes "init_device regex lib ofile st sc = Some (Inr (err, sc', st'))" "sc_inputSources sc = []"
  shows "w_refcount (snd st') = w_refcount (snd st) \<and> sc_jobs sc' = sc_jobs sc \<and> ident sc' = ident sc \<and>
    (err \<noteq> Some ''missing SANE parameter: resolution'' \<longrightarrow> sources_ok sc' \<and> sc_colorModes sc' \<noteq> [] \<and>
       sc_discreteResolutions sc' \<noteq> [] \<and> sc_documentFormats sc' = [MIME_TYPE_PDF, MIME_TYPE_JPEG, MIME_TYPE_PNG])"
proof -
  from assms(1) obtain opts st1 where
    o: "scannerOptions regex ofile (di_name (sc_info sc)) (sc_makeAndModel sc) = Inr opts"
      "apply_sane_options lib (of_sane_options opts) st = Inr st1"
    by (auto simp: init_device_def Let_def split: sum.splits)
  have w1: "w_refcount (snd st1) = w_refcount (snd st)" using apply_sane_options_acct[OF o(2)] .
  show ?thesis
  proof (cases "is_null (option_ref (fst st1) SANE_NAME_SCAN_RESOLUTION)")
    case True
    with assms(1) o w1 show ?thesis by (auto simp: init_device_def Let_def ident_def)
  next
    case False
    let ?ms = "allowed_string_values lib (option_ref (fst st1) SANE_NAME_SCAN_MODE) (snd st1)"
    from False assms(1) o obtain sc2 where
      2: "init_resolutions lib st1 (sc\<lparr>sc_deviceOptions := opts\<rparr>) = Some (Inr sc2)"
        "init_sources lib st1 (init_modes ?ms sc2) = Inr (err, sc', st')"
      by (auto simp: init_device_def Let_def bind_result_Inr_iff)
    note r = init_resolutions_ok[OF 2(1)]
    have "sc_inputSources (init_modes ?ms sc2) = []" using r assms(2) by simp
    from init_sources_ok[OF 2(2) this] r w1 init_modes_colors[of ?ms sc2] show ?thesis by auto
  qed
qed

lemma open_device_acct:
  assumes "sane_open_device lib name w = Inr (dev, status, w')"
  shows "w_refcount w' = w_refcount w + handles_of dev"
proof -
  obtain s st h where "sl_open lib name (w_sane (sane_init_addref lib w)) = (s, st, h)" by (metis prod_cases3)
  with assms show ?thesis
    by (auto simp: sane_open_device_def Let_def bind_result_Inr_iff sane_init_release_def handles_of_def split: if_splits)
qed

lemma close_device_acct: "close_device lib (Some h) w = Inr w' \<Longrightarrow> w_refcount w' = w_refcount w - 1"
  by (auto simp: close_device_def sane_init_release_def Let_def split: if_splits)

lemma initWithOptions_ok:
  assumes "initWithOptions regex lib ofile sc0 w = Some (Inr (ok, sc, w'))" "sc_inputSources sc0 = []"
  shows "w_refcount w' = w_refcount w \<and> sc_jobs sc = sc_jobs sc0 \<and> ident sc = ident sc0 \<and> ok = (sc_error sc = None) \<and>
    (ok \<longrightarrow> ready sc)"
proof -
  from assms(1) obtain err sc' where i: "init2 regex lib ofile sc0 w = Some (Inr (err, sc', w'))"
    and e: "ok = (err = None)" "sc = sc'\<lparr>sc_error := err\<rparr>"
    by (auto simp: initWithOptions_def bind_result_Inr_iff)
  from i obtain dev status w1 where o: "sane_open_device lib (di_name (sc_info sc0)) w = Inr (dev, status, w1)"
    by (auto simp: init2_def split: sum.splits)
  show ?thesis
  proof (cases dev)
    case None
    with i o e show ?thesis using open_device_acct[OF o] by (auto simp: init2_def handles_of_def ident_def)
  next
    case (Some h)
    with i o obtain st' where d: "init_device regex lib ofile (option_set_init lib dev w1, w1) sc0 = Some (Inr (err, sc', st'))"
        "close_device lib (Some h) (snd st') = Inr w'"
      by (auto simp: init2_def bind_result_Inr_iff)
    note k = init_device_ok[OF d(1) assms(2)]
    have "w_refcount w' = w_refcount w"
      using k close_device_acct[OF d(2)] open_device_acct[OF o] Some by (simp add: handles_of_def)
    with k e show ?thesis
      by (auto simp: ready_def sources_ok_def hasPlaten_def hasAdf_def hasDuplexAdf_def ident_def)
  qed
qed

subsection \<open>Properties\<close>

text \<open>C18: Scanners get distinct stable names. The name of a new scanner differs from the names of all other
  scanners; it consists of the backend's name, the make and model and the first number that is free, so that a
  device that is the only one of its kind keeps its name when the device path after the backend's name changes.\<close>

theorem stable_name_unique:
  assumes "sc = scanner_init hashfn mid others \<lparr>di_name = backend @ '':'' @ path, di_vendor = v, di_model = m, di_type = ty\<rparr>"
    and "CHR '':'' \<notin> set backend"
  shows "sc_stableUniqueName sc \<notin> set others \<and>
    (\<exists>n > 0. sc_stableUniqueName sc = backend @ '':'' @ v @ '' '' @ m @ '':'' @ dec_nat n \<and>
       (\<forall>k. 0 < k \<and> k < n \<longrightarrow> backend @ '':'' @ v @ '' '' @ m @ '':'' @ dec_nat k \<in> set others))"
proof -
  have "find_str '':'' (backend @ '':'' @ path) = Some (length backend)"
    using assms(2) by (induction backend) auto
  then have "stable_prefix (sc_info sc) (v @ '' '' @ m) = backend @ '':'' @ v @ '' '' @ m @ '':''"
    by (simp add: stable_prefix_def assms(1) scanner_init_def Let_def)
  then show ?thesis
    using unique_name_first[of 0 "backend @ '':'' @ v @ '' '' @ m @ '':''" others]
    by (auto simp: assms(1) scanner_init_def generateStableUniqueName_def Let_def)
qed

theorem stable_name_unique_witness:
  "sc_stableUniqueName (scanner_init (\<lambda>s. 0) ''m'' [''test:A B:1'']
     \<lparr>di_name = ''test:7'', di_vendor = ''A'', di_model = ''B'', di_type = ''virtual''\<rparr>) \<noteq> ''test:A B:1''"
  using stable_name_unique[OF refl, of "''test''" "\<lambda>s. 0" "''m''" "[''test:A B:1'']" "''7''" "''A''" "''B''" "''virtual''"]
  by auto

text \<open>C15: Initialisation leaves a scanner ready for clients or reports an error. Whatever the device and the options
  file, the device is closed again and the reference count of SANE is as before; the job list is empty; and when the
  answer is positive, the scanner offers at least one source, colour mode and resolution, lists a source for
  clients exactly when it has that source, and offers PDF, JPEG and PNG.\<close>

theorem scanner_initialisation:
  assumes "initWithOptions regex lib ofile (scanner_init hashfn mid others info) w = Some (Inr (ok, sc, w'))"
  shows "w_refcount w' = w_refcount w \<and> sc_jobs sc = [] \<and> ok = (sc_error sc = None) \<and> (ok \<longrightarrow> ready sc)"
  using initWithOptions_ok[OF assms] by (simp add: scanner_init_def Let_def)

text \<open>A feeder that only scans both sides is hidden from clients. A device whose only source is \<open>ADF Duplex\<close>
  is initialised with a duplex feeder and lists \<open>Feeder\<close> as an input source, but its capabilities document
  describes no source at all, because the duplex feeder is described only together with a simplex one.\<close>

theorem duplex_only_feeder_hidden:
  assumes "allowed_string_values lib (option_ref (fst st) SANE_NAME_SCAN_SOURCE) (snd st) = [''ADF Duplex'']"
    and "sc_inputSources sc = []" "init_sources lib st sc = Inr (err, sc', st')"
  shows "sc_inputSources sc' = [''Feeder''] \<and> hasDuplexAdf sc' \<and>
    platen_caps sc' 0 = Inr ([], 0) \<and> adf_caps sc' 0 = Inr ([], 0) \<and> (\<exists>xml. writeScannerCapabilitiesXml sc' = Inr xml)"
proof -
  have n: "findFlatbedName [''ADF Duplex''] = []" "findAdfSimplexName [''ADF Duplex''] = []"
      "findAdfDuplexName [''ADF Duplex''] = ''ADF Duplex''"
    by code_simp+
  have "sc_platen sc' = None" "sc_adfSimplex sc' = None" "sc_adfDuplex sc' \<noteq> None" "sc_inputSources sc' = [''Feeder'']"
    using assms(3) unfolding init_sources_def assms(1) Let_def n
    by (auto simp: bind_result_Inr_iff maybe_probe_def assms(2))
  then show ?thesis
    by (simp add: hasDuplexAdf_def platen_caps_def adf_caps_def writeScannerCapabilitiesXml_def)
qed

text \<open>A device with a list of resolutions and a duplex feeder.\<close>

definition duplex_lib :: "unit sane_lib" where
  "duplex_lib =
     \<lparr>sl_init = id, sl_exit = id, sl_get_devices = (\<lambda>l s. (s, GOOD, [])), sl_open = (\<lambda>n s. (s, GOOD, 1)), sl_close = (\<lambda>h s. s),
      sl_descriptors = (\<lambda>h s. [10, 20]),
      sl_deref = (\<lambda>a s. if a = 10
        then \<lparr>od_name = Some SANE_NAME_SCAN_RESOLUTION, od_type = T_INT, od_unit = U_DPI, od_size = 4, od_cap = 1,
              od_constraint = C_WORD_LIST [75, 300]\<rparr>
        else \<lparr>od_name = Some SANE_NAME_SCAN_SOURCE, od_type = T_STRING, od_unit = U_NONE, od_size = 20, od_cap = 1,
              od_constraint = C_STRING_LIST [''ADF Duplex'']\<rparr>),
      sl_set_string = (\<lambda>h i v s. (s, GOOD, 0)), sl_get_string = (\<lambda>h i s. (GOOD, ''ADF Duplex'')),
      sl_set_words = (\<lambda>h i v s. (s, INVAL, 0)), sl_get_words = (\<lambda>h i s. (INVAL, 0, [])),
      sl_start = (\<lambda>h s. (s, GOOD)), sl_get_parameters = (\<lambda>h s. (GOOD, no_parameters)),
      sl_read = (\<lambda>h n s. (s, EOF, [])), sl_cancel = (\<lambda>h s. s), sl_time = (\<lambda>s. 0)\<rparr>"

definition duplex_opts :: "unit opts" where
  "duplex_opts = (option_set_init duplex_lib (Some 1) \<lparr>w_sane = (), w_refcount = 1\<rparr>, \<lparr>w_sane = (), w_refcount = 1\<rparr>)"

lemma duplex_opts_table:
  "option_ref (fst duplex_opts) SANE_NAME_SCAN_RESOLUTION = \<lparr>op_set = True, op_desc = Some 10, op_index = 1\<rparr>"
  "option_ref (fst duplex_opts) SANE_NAME_SCAN_SOURCE = \<lparr>op_set = True, op_desc = Some 20, op_index = 2\<rparr>"
  "option_ref (fst duplex_opts) SANE_NAME_BIT_DEPTH = s_nulloption"
  "option_ref (fst duplex_opts) SANE_NAME_SCAN_TL_X = s_nulloption"
  "option_ref (fst duplex_opts) SANE_NAME_SCAN_MODE = s_nulloption"
  by code_simp+

lemma duplex_sources:
  "allowed_string_values duplex_lib (option_ref (fst duplex_opts) SANE_NAME_SCAN_SOURCE) (snd duplex_opts) = [''ADF Duplex'']"
  by code_simp

lemma duplex_source_init:
  "\<exists>s. source_init duplex_lib duplex_opts = (None, s) \<and> is_maxBits s = Some 8"
  by (auto simp: source_init_def scan_area_def duplex_opts_table new_source_def scale_source_def is_null_def
      s_nulloption_def Let_def)

lemma duplex_init_sources: "\<exists>sc'. init_sources duplex_lib duplex_opts sc = Inr (None, sc', duplex_opts)"
proof -
  have n: "findFlatbedName [''ADF Duplex''] = []" "findAdfSimplexName [''ADF Duplex''] = []"
      "findAdfDuplexName [''ADF Duplex''] = ''ADF Duplex''"
    by code_simp+
  have "set_string_value duplex_lib (option_ref (fst duplex_opts) SANE_NAME_SCAN_SOURCE) 0 ''ADF Duplex''
      (fst duplex_opts) (snd duplex_opts) = Inr (True, duplex_opts)"
  proof -
    have d: "os_device (fst duplex_opts) = Some 1" "(fst duplex_opts, snd duplex_opts\<lparr>w_sane := ()\<rparr>) = duplex_opts"
      by (simp_all add: duplex_opts_def option_set_init_def)
    let ?o = "\<lparr>op_set = True, op_desc = Some 20, op_index = 2\<rparr>"
    have "is_string duplex_lib (snd duplex_opts) ?o" "is_settable duplex_lib (snd duplex_opts) ?o"
        "is_active duplex_lib (snd duplex_opts) ?o"
      by code_simp+
    moreover have "sl_set_string duplex_lib h i v x = ((), GOOD, 0)" for h i v x by (simp add: duplex_lib_def)
    ultimately show ?thesis
      using d by (simp add: set_string_value_def duplex_opts_table option_handle_def reload_if_def)
  qed
  with duplex_source_init show ?thesis
    unfolding init_sources_def Let_def duplex_sources n
    by (auto simp: maybe_probe_def probe_source_def use_int_def)
qed

theorem duplex_only_feeder_hidden_witness:
  "\<exists>sc' st'. init_sources duplex_lib duplex_opts demo_scanner = Inr (None, sc', st') \<and> adf_caps sc' 0 = Inr ([], 0)"
proof -
  obtain sc' where "init_sources duplex_lib duplex_opts demo_scanner = Inr (None, sc', duplex_opts)"
    using duplex_init_sources by blast
  moreover have "sc_inputSources demo_scanner = []" by (simp add: demo_scanner_def scanner_init_def Let_def)
  ultimately show ?thesis using duplex_only_feeder_hidden[OF duplex_sources] by blast
qed

lemma duplex_initialised:
  "\<exists>sc w'. initWithOptions (\<lambda>r. None) duplex_lib (OptionsFile_read ''options'' []) (scanner_init (\<lambda>s. 0) ''m'' []
      \<lparr>di_name = ''test:0'', di_vendor = ''A'', di_model = ''B'', di_type = ''virtual''\<rparr>) \<lparr>w_sane = (), w_refcount = 0\<rparr>
    = Some (Inr (True, sc, w'))"
proof -
  let ?info = "\<lparr>di_name = ''test:0'', di_vendor = ''A'', di_model = ''B'', di_type = ''virtual''\<rparr>"
  let ?sc = "scanner_init (\<lambda>s. 0) ''m'' [] ?info" and ?w = "\<lparr>w_sane = (), w_refcount = 0\<rparr>"
  let ?f = "OptionsFile_read ''options'' []"
  have o: "sane_open_device duplex_lib (di_name (sc_info ?sc)) ?w = Inr (Some 1, GOOD, snd duplex_opts)"
    by (simp add: sane_open_device_def sane_init_addref_def duplex_lib_def duplex_opts_def sane_def)
  have s: "scannerOptions (\<lambda>r. None) ?f (di_name (sc_info ?sc)) (sc_makeAndModel ?sc) = Inr default_options"
    by (simp add: scannerOptions_def OptionsFile_read_def read_options.simps skip_ws_def getline_def)
  have st: "(option_set_init duplex_lib (Some 1) (snd duplex_opts), snd duplex_opts) = duplex_opts"
    by (simp add: duplex_opts_def)
  have "allowed_numeric_values duplex_lib (option_ref (fst duplex_opts) SANE_NAME_SCAN_RESOLUTION) (snd duplex_opts) \<noteq> []"
    by (simp add: duplex_opts_table allowed_numeric_values_def option_desc_def is_numeric_def duplex_lib_def)
  then have r: "\<exists>sc2. init_resolutions duplex_lib duplex_opts sc1 = Some (Inr sc2)" for sc1
    by (simp add: init_resolutions_def Let_def)
  have nn: "\<not> is_null (option_ref (fst duplex_opts) SANE_NAME_SCAN_RESOLUTION)"
    by (simp add: duplex_opts_table is_null_def)
  have "\<exists>sc'. init_device (\<lambda>r. None) duplex_lib ?f duplex_opts ?sc = Some (Inr (None, sc', duplex_opts))"
    using r[of "?sc\<lparr>sc_deviceOptions := default_options\<rparr>"] duplex_init_sources nn
    by (auto simp: init_device_def s default_options_def Let_def)
  moreover have "\<exists>w'. close_device duplex_lib (Some 1) (snd duplex_opts) = Inr w'"
    by (simp add: close_device_def sane_init_release_def duplex_opts_def sane_def Let_def)
  ultimately show ?thesis
    by (auto simp: initWithOptions_def init2_def o st simp del: One_nat_def)
qed

theorem scanner_initialisation_witness:
  "\<exists>sc w'. initWithOptions (\<lambda>r. None) duplex_lib (OptionsFile_read ''options'' []) (scanner_init (\<lambda>s. 0) ''m'' []
      \<lparr>di_name = ''test:0'', di_vendor = ''A'', di_model = ''B'', di_type = ''virtual''\<rparr>) \<lparr>w_sane = (), w_refcount = 0\<rparr>
    = Some (Inr (True, sc, w')) \<and> ready sc"
  using duplex_initialised scanner_initialisation by blast

end
