(* ===== verification/ServerList.thy ===== *)
theory ServerList
  imports ServerProperties ScannerProperties
begin

text \<open>
  The list of scanners that the main loop of the server builds: its invariant, the names and addresses of its entries, and
  the requests that reach them.
\<close>

subsection \<open>Invariant of the list\<close>

definition entry_ok :: "string \<Rightarrow> (string \<Rightarrow> 64 word) \<Rightarrow> string \<Rightarrow> scanner \<times> service \<Rightarrow> bool" where
  "entry_ok pathPrefix hashfn mid e \<longleftrightarrow> ready (fst e) \<and> sc_jobs (fst e) = [] \<and> srv_name (snd e) = sc_publishedName (fst e) \<and>
     sc_uuid (fst e) = uuid_of hashfn mid (sc_stableUniqueName (fst e)) \<and>
     sc_uri (fst e) \<in> {''/eSCL'', pathPrefix @ sc_uuid (fst e)}"

definition entries_inv :: "string \<Rightarrow> (string \<Rightarrow> 64 word) \<Rightarrow> string \<Rightarrow> nat \<Rightarrow> entries \<Rightarrow> bool" where
  "entries_inv pathPrefix hashfn mid cnt es \<longleftrightarrow>
     distinct (map (sc_stableUniqueName \<circ> fst) es) \<and> (\<forall>e \<in> set es. entry_ok pathPrefix hashfn mid e) \<and>
     (\<forall>e \<in> set (tl es). sc_uri (fst e) = pathPrefix @ sc_uuid (fst e)) \<and> length es \<le> cnt"

lemma ready_setters [simp]:
  "ready (setUri u sc) = ready sc" "ready (setAdminUrl u sc) = ready sc" "ready (setIconUrl u sc) = ready sc"
  "ready (setPublishedName u sc) = ready sc"
  by (simp_all add: ready_def sources_ok_def hasPlaten_def hasAdf_def hasDuplexAdf_def setUri_def setAdminUrl_def
      setIconUrl_def setPublishedName_def)

lemma scanner_addresses_keeps:
  "ready (scanner_addresses sv pp cnt sc) = ready sc" "sc_jobs (scanner_addresses sv pp cnt sc) = sc_jobs sc"
  "ident (scanner_addresses sv pp cnt sc) = ident sc"
  "sc_uri (scanner_addresses sv pp cnt sc) = (if cnt = 0 \<and> sv_compatiblepath sv then ''/eSCL'' else pp @ sc_uuid sc)"
  by (simp_all add: scanner_addresses_def Let_def)
    (simp_all add: setUri_def setAdminUrl_def setIconUrl_def ident_def)

lemma scanner_init_name: "sc_stableUniqueName (scanner_init hashfn mid others info) \<notin> set others"
  using unique_name_first[of 0 "stable_prefix info (di_vendor info @ '' '' @ di_model info)" others]
  by (auto simp: scanner_init_def generateStableUniqueName_def Let_def)

lemma publish_scanner_entry:
  assumes "publish_scanner se sv sc = Some e"
  shows "\<exists>name. fst e = setPublishedName name sc \<and> srv_name (snd e) = name \<and> sv_announce sv"
  using assms by (auto simp: publish_scanner_def Let_def split: if_splits)

text \<open>One device that could be initialised.\<close>

lemma entries_inv_step:
  assumes "entries_inv pp hashfn mid cnt es" "ready sc1" "sc_jobs sc1 = []" "sc_stableUniqueName sc1 \<notin> sc_stableUniqueName ` fst ` set es"
    "sc_uuid sc1 = uuid_of hashfn mid (sc_stableUniqueName sc1)"
  shows "entries_inv pp hashfn mid (cnt + 1)
    (case publish_scanner se sv (scanner_addresses sv pp cnt sc1) of None \<Rightarrow> es | Some e \<Rightarrow> es @ [e])"
proof (cases "publish_scanner se sv (scanner_addresses sv pp cnt sc1)")
  case None
  with assms(1) show ?thesis by (simp add: entries_inv_def)
next
  case (Some e)
  obtain name where n: "fst e = setPublishedName name (scanner_addresses sv pp cnt sc1)" "srv_name (snd e) = name"
    using publish_scanner_entry[OF Some] by blast
  have id: "sc_stableUniqueName (fst e) = sc_stableUniqueName sc1" "sc_uuid (fst e) = sc_uuid sc1" "sc_jobs (fst e) = []"
      "sc_uri (fst e) = (if cnt = 0 \<and> sv_compatiblepath sv then ''/eSCL'' else pp @ sc_uuid sc1)" "sc_publishedName (fst e) = name"
    using scanner_addresses_keeps[of sv pp cnt sc1] assms(3) by (simp_all add: n setPublishedName_def ident_def)
  have "ready (fst e)" using assms(2) by (simp add: n scanner_addresses_keeps)
  then have ok: "entry_ok pp hashfn mid e" using id n(2) assms(5) by (simp add: entry_ok_def)
  moreover have "sc_uri (fst x) = pp @ sc_uuid (fst x)" if "x \<in> set (tl (es @ [e]))" for x
  proof (cases es)
    case Nil
    with that show ?thesis by simp
  next
    case (Cons a b)
    with assms(1) have "cnt \<noteq> 0" by (auto simp: entries_inv_def)
    with id have "sc_uri (fst e) = pp @ sc_uuid (fst e)" by simp
    with that Cons assms(1) show ?thesis by (auto simp: entries_inv_def)
  qed
  ultimately show ?thesis using assms(1,4) Some id(1) by (auto simp: entries_inv_def)
qed

lemma add_scanners_inv:
  assumes "add_scanners se sv ofile pp infos cnt es w = Some (Inr (es', w'))"
    and "entries_inv pp (env_hash (se_env se)) (env_machineId (se_env se)) cnt es"
  shows "(\<exists>n. entries_inv pp (env_hash (se_env se)) (env_machineId (se_env se)) n es' \<and> n \<le> cnt + length infos) \<and>
    w_refcount w' = w_refcount w \<and> (sv_announce sv \<or> es' = es)"
  using assms
proof (induction infos arbitrary: cnt es w)
  case Nil
  then show ?case by auto
next
  case (Cons info infos)
  let ?env = "se_env se" and ?add = "add_scanners se sv ofile pp infos"
  let ?inv = "entries_inv pp (env_hash (se_env se)) (env_machineId (se_env se))"
  from Cons.prems(1) obtain b where m: "matchIgnorelist (se_regex se) (env_file ?env) sv info = Inr b"
    by (auto simp: Let_def split: sum.splits)
  show ?case
  proof (cases b)
    case True
    with m Cons.prems(1) have "?add cnt es w = Some (Inr (es', w'))" by (simp add: Let_def)
    from Cons.IH[OF this Cons.prems(2)] show ?thesis by force
  next
    case False
    let ?sc = "scanner_init (env_hash ?env) (env_machineId ?env) (map (sc_stableUniqueName \<circ> fst) es) info"
    let ?named = "chooseUniquePublishedName (map fst es) ?sc"
    from Cons.prems(1) m False obtain ok sc1 w1 where
      i: "initWithOptions (se_regex se) (env_lib ?env) ofile ?named w = Some (Inr (ok, sc1, w1))"
      by (auto simp: Let_def split: option.splits sum.splits)
    have "sc_inputSources ?named = []" "sc_jobs ?named = []"
      by (simp_all add: chooseUniquePublishedName_def setPublishedName_def scanner_init_def Let_def)
    with initWithOptions_ok[OF i] have k: "w_refcount w1 = w_refcount w" "sc_jobs sc1 = []" "ident sc1 = ident ?named" "ok \<longrightarrow> ready sc1"
      by auto
    show ?thesis
    proof (cases ok)
      case False
      with i m \<open>\<not> b\<close> Cons.prems(1) have "?add cnt es w1 = Some (Inr (es', w'))" by (simp add: Let_def)
      from Cons.IH[OF this Cons.prems(2)] k(1) show ?thesis by force
    next
      case True
      let ?es = "case publish_scanner se sv (scanner_addresses sv pp cnt sc1) of None \<Rightarrow> es | Some e \<Rightarrow> es @ [e]"
      from True i m \<open>\<not> b\<close> Cons.prems(1) have r: "?add (cnt + 1) ?es w1 = Some (Inr (es', w'))" by (simp add: Let_def)
      have id: "sc_stableUniqueName sc1 = sc_stableUniqueName ?sc" "sc_uuid sc1 = sc_uuid ?sc"
        using k(3) by (simp_all add: ident_def chooseUniquePublishedName_def setPublishedName_def)
      have n: "sc_stableUniqueName sc1 \<notin> sc_stableUniqueName ` fst ` set es"
        using scanner_init_name[of "env_hash ?env" "env_machineId ?env" "map (sc_stableUniqueName \<circ> fst) es" info]
        unfolding id by (simp add: image_comp)
      have "sc_uuid ?sc = uuid_of (env_hash ?env) (env_machineId ?env) (sc_stableUniqueName ?sc)"
        by (simp add: scanner_init_def Let_def)
      with n k True id have "?inv (cnt + 1) ?es" by (intro entries_inv_step[OF Cons.prems(2)]) simp_all
      from Cons.IH[OF r this] k(1) show ?thesis
        by (auto simp: publish_scanner_def split: option.splits if_splits)
    qed
  qed
qed

subsection \<open>Addresses\<close>

text \<open>The part of the path that all scanners share: a slash, or a random UUID between slashes.\<close>

definition path_prefix :: "string \<Rightarrow> bool" where
  "path_prefix pp \<longleftrightarrow> pp = ''/'' \<or> (\<exists>bytes. pp = ''/'' @ Uuid_toString (Uuid_Random bytes) @ ''/'')"

lemma uuid_not_escl: "uuid_form v u \<Longrightarrow> \<not> prefix ''eSCL'' (u @ s)" "uuid_form v u \<Longrightarrow> \<not> prefix u (''eSCL'' @ s)"
proof -
  assume u: "uuid_form v u"
  have "u ! 1 \<in> set lower_hex" using u unfolding uuid_form_def by (force dest: bspec[where x = 1])
  then have n: "u ! 1 \<noteq> CHR ''S''" by (auto simp: lower_hex_def)
  have l: "length u = 36" using u by (simp add: uuid_form_def)
  show "\<not> prefix ''eSCL'' (u @ s)"
  proof
    assume "prefix ''eSCL'' (u @ s)"
    then have "(u @ s) ! 1 = CHR ''S''" by (auto simp: prefix_def)
    with n l show False by (simp add: nth_append)
  qed
  show "\<not> prefix u (''eSCL'' @ s)"
  proof
    assume "prefix u (''eSCL'' @ s)"
    then obtain t where "''eSCL'' @ s = u @ t" by (auto simp: prefix_def)
    then have "(u @ t) ! 1 = CHR ''S''" by (metis append_Cons nth_Cons_0 nth_Cons_Suc One_nat_def)
    with n l show False by (simp add: nth_append)
  qed
qed

lemma path_prefix_uuid:
  assumes "path_prefix pp" "uuid_form v u"
  obtains x t v' where "pp @ u = ''/'' @ x @ t" "uuid_form v' x"
proof (cases "pp = ''/''")
  case True
  with that[of u "[]" v] assms(2) show thesis by simp
next
  case False
  with assms(1) obtain bytes where "pp = ''/'' @ Uuid_toString (Uuid_Random bytes) @ ''/''"
    by (auto simp: path_prefix_def)
  with that[of "Uuid_toString (Uuid_Random bytes)" "''/'' @ u"] uuid_random_form show thesis by auto
qed

lemma path_prefix_not_escl:
  assumes "path_prefix pp" "uuid_form v u"
  shows "\<not> prefix ''/eSCL'' (pp @ u @ s)" "\<not> prefix (pp @ u) (''/eSCL'' @ s)"
proof -
  obtain x t v' where x: "pp @ u = ''/'' @ x @ t" "uuid_form v' x" using path_prefix_uuid[OF assms] .
  have e: "pp @ u @ s = ''/'' @ x @ t @ s" using arg_cong[OF x(1), of "\<lambda>l. l @ s"] by simp
  show "\<not> prefix ''/eSCL'' (pp @ u @ s)" unfolding e using uuid_not_escl(1)[OF x(2), of "t @ s"] by simp
  show "\<not> prefix (pp @ u) (''/eSCL'' @ s)"
    unfolding x(1) using uuid_not_escl(2)[OF x(2), of s] append_prefixD[of x t "''eSCL'' @ s"] by auto
qed

text \<open>The address of an entry is no prefix of an address below another entry.\<close>

lemma entry_addresses:
  assumes inv: "entries_inv pp hashfn mid n es" and pp: "path_prefix pp"
    and d: "distinct (map (sc_uuid \<circ> fst) es)" and k: "k < length es" and i: "i < length es" and ki: "k \<noteq> i"
  shows "\<not> prefix (sc_uri (fst (es ! k))) (sc_uri (fst (es ! i)) @ rest)"
proof -
  have ok: "entry_ok pp hashfn mid (es ! m)" if "m < length es" for m using inv that by (simp add: entries_inv_def)
  have f: "uuid_form (CHR ''5'') (sc_uuid (fst (es ! m)))" if "m < length es" for m
    using ok[OF that] uuid_of_form by (simp add: entry_ok_def)
  have tail: "sc_uri (fst (es ! m)) = pp @ sc_uuid (fst (es ! m))" if "m < length es" "m \<noteq> 0" for m
  proof -
    have "es ! m \<in> set (tl es)" using that by (cases es) (auto simp: nth_Cons' )
    with inv show ?thesis by (simp add: entries_inv_def)
  qed
  consider "sc_uri (fst (es ! k)) = pp @ sc_uuid (fst (es ! k))" "sc_uri (fst (es ! i)) = pp @ sc_uuid (fst (es ! i))"
    | "sc_uri (fst (es ! k)) = ''/eSCL''" "sc_uri (fst (es ! i)) = pp @ sc_uuid (fst (es ! i))"
    | "sc_uri (fst (es ! k)) = pp @ sc_uuid (fst (es ! k))" "sc_uri (fst (es ! i)) = ''/eSCL''"
    using tail[OF k] tail[OF i] ki ok[OF k] ok[OF i] by (fastforce simp: entry_ok_def)
  then show ?thesis
  proof cases
    case 1
    have "sc_uuid (fst (es ! k)) \<noteq> sc_uuid (fst (es ! i))" using d k i ki by (auto simp: distinct_conv_nth)
    moreover have "length (sc_uuid (fst (es ! k))) = length (sc_uuid (fst (es ! i)))"
      using f[OF k] f[OF i] by (simp add: uuid_form_def)
    ultimately show ?thesis by (auto simp: 1 prefix_def)
  next
    case 2
    with path_prefix_not_escl(1)[OF pp f[OF i]] show ?thesis by simp
  next
    case 3
    with path_prefix_not_escl(2)[OF pp f[OF k]] show ?thesis by simp
  qed
qed

lemma bind_result_assoc: "bind_result (bind_result x f) g = bind_result x (\<lambda>y. bind_result (f y) g)"
  by (cases x) simp_all

text \<open>The loop over the entries.\<close>

lemma scanner_requests_nth:
  assumes "i < length es" "prefix (sv_basePath sv @ sc_uri (fst (es ! i))) (rq_uri rq)"
    and "\<And>k. k < i \<Longrightarrow> \<not> prefix (sv_basePath sv @ sc_uri (fst (es ! k))) (rq_uri rq)"
  shows "scanner_requests env sv rq r es w =
    map_option (\<lambda>x. bind_result x (\<lambda>(rq', r', sc', w'). Inr (rq', r', es[i := (sc', snd (es ! i))], w')))
      (handleScannerRequest env sv (drop (length (sv_basePath sv @ sc_uri (fst (es ! i)))) (rq_uri rq)) rq r (fst (es ! i)) w)"
  using assms
proof (induction es arbitrary: i)
  case (Cons e es)
  show ?case
  proof (cases i)
    case 0
    with Cons.prems show ?thesis by (simp add: Let_def)
  next
    case (Suc m)
    have n: "\<not> prefix (sv_basePath sv @ sc_uri (fst e)) (rq_uri rq)" using Cons.prems(3)[of 0] Suc by simp
    have "scanner_requests env sv rq r es w =
      map_option (\<lambda>x. bind_result x (\<lambda>(rq', r', sc', w'). Inr (rq', r', es[m := (sc', snd (es ! m))], w')))
        (handleScannerRequest env sv (drop (length (sv_basePath sv @ sc_uri (fst (es ! m)))) (rq_uri rq)) rq r (fst (es ! m)) w)"
      using Cons.prems(1,2) Cons.prems(3)[of "Suc _"] Suc by (intro Cons.IH) simp_all
    with n Suc show ?thesis
      by (simp add: Let_def option.map_comp comp_def bind_result_assoc case_prod_beta)
  qed
qed simp

subsection \<open>Properties\<close>


text \<open>C11: Requests reach the scanner they are meant for. When the UUIDs of the scanners in the list are distinct, a request for
  the address of a scanner, or for anything below it, is handled by that scanner with the rest of the path, and
  by no other: the address of no other entry is a prefix of it, whether paths are compatible, random or plain.\<close>

theorem request_routing:
  assumes "add_scanners se sv ofile pathPrefix infos 0 [] w0 = Some (Inr (es, w1))" "path_prefix pathPrefix"
    and "distinct (map (sc_uuid \<circ> fst) es)" "i < length es"
    and "rq_uri rq = sv_basePath sv @ sc_uri (fst (es ! i)) @ rest"
  shows "scanner_requests env sv rq r es w =
    map_option (\<lambda>x. bind_result x (\<lambda>(rq', r', sc', w'). Inr (rq', r', es[i := (sc', snd (es ! i))], w')))
      (handleScannerRequest env sv rest rq r (fst (es ! i)) w)"
proof -
  obtain n where inv: "entries_inv pathPrefix (env_hash (se_env se)) (env_machineId (se_env se)) n es"
    using add_scanners_inv[OF assms(1)] by (auto simp: entries_inv_def)
  have "\<not> prefix (sv_basePath sv @ sc_uri (fst (es ! k))) (rq_uri rq)" if "k < i" for k
    using entry_addresses[OF inv assms(2,3) _ assms(4), of k rest] that assms(4,5) by simp
  from scanner_requests_nth[OF assms(4) _ this] assms(5) show ?thesis by simp
qed

text \<open>A server with one device.\<close>

definition sim_info :: device_info where
  "sim_info = \<lparr>di_name = ''test:0'', di_vendor = ''A'', di_model = ''B'', di_type = ''virtual''\<rparr>"

definition sim_setup :: "(unit, nat) setup_env" where
  "sim_setup = \<lparr>se_env = \<lparr>env_lib = duplex_lib, env_encoders = sim_env, env_hash = (\<lambda>s. 0), env_machineId = ''m'',
       env_pow = (\<lambda>a b. a), env_draws = [], env_hostname = ''host'', env_file = (\<lambda>n. None), env_isOpen = False,
       env_build = \<lparr>bi_timestamp = [], bi_commit = [], bi_branch = [], bi_revision = []\<rparr>\<rparr>,
     se_regex = (\<lambda>r. None), se_publish = (\<lambda>s. Some (srv_name s))\<rparr>"

lemma sim_add_scanners:
  obtains e w' where "add_scanners sim_setup (plain_server\<lparr>sv_announce := True\<rparr>) (OptionsFile_read ''options'' []) ''/'' [sim_info] 0 []
    \<lparr>w_sane = (), w_refcount = 0\<rparr> = Some (Inr ([e], w'))"
proof -
  let ?sc = "scanner_init (\<lambda>s. 0) ''m'' [] sim_info" and ?sv = "plain_server\<lparr>sv_announce := True\<rparr>"
  obtain sc w' where i: "initWithOptions (\<lambda>r. None) duplex_lib (OptionsFile_read ''options'' []) ?sc \<lparr>w_sane = (), w_refcount = 0\<rparr>
      = Some (Inr (True, sc, w'))"
    using duplex_initialised unfolding sim_info_def by blast
  have c: "chooseUniquePublishedName [] ?sc = ?sc"
    by (simp add: chooseUniquePublishedName_def unique_published.simps publishedNameExists_def name_suffix_def setPublishedName_def)
  have "sc_error (scanner_addresses ?sv ''/'' 0 sc) = None"
    using initWithOptions_ok[OF i] scanner_addresses_keeps(1)[of ?sv "''/''" 0 sc] by (simp add: scanner_init_def Let_def ready_def)
  then obtain e where "publish_scanner sim_setup ?sv (scanner_addresses ?sv ''/'' 0 sc) = Some e"
    by (simp add: publish_scanner_def sim_setup_def Let_def)
  with i c that show thesis
    by (simp add: sim_setup_def matchIgnorelist_def Let_def)
qed


theorem request_routing_witness:
  "\<exists>e w'. add_scanners sim_setup (plain_server\<lparr>sv_announce := True\<rparr>) (OptionsFile_read ''options'' []) ''/'' [sim_info] 0 []
      \<lparr>w_sane = (), w_refcount = 0\<rparr> = Some (Inr ([e], w')) \<and>
    (\<forall>r. scanner_requests (se_env sim_setup) (plain_server\<lparr>sv_announce := True\<rparr>)
       (sim_request HTTP_GET (sv_basePath plain_server @ sc_uri (fst e) @ ''/ScannerStatus'') []) r [e] w' =
     map_option (\<lambda>x. bind_result x (\<lambda>(rq', r', sc', w''). Inr (rq', r', [(sc', snd e)], w'')))
       (handleScannerRequest (se_env sim_setup) (plain_server\<lparr>sv_announce := True\<rparr>) ''/ScannerStatus''
         (sim_request HTTP_GET (sv_basePath plain_server @ sc_uri (fst e) @ ''/ScannerStatus'') []) r (fst e) w'))"
proof -
  obtain e w' where a: "add_scanners sim_setup (plain_server\<lparr>sv_announce := True\<rparr>) (OptionsFile_read ''options'' []) ''/'' [sim_info] 0 []
    \<lparr>w_sane = (), w_refcount = 0\<rparr> = Some (Inr ([e], w'))" by (rule sim_add_scanners)
  have "path_prefix ''/''" by (simp add: path_prefix_def)
  from request_routing[OF a this, of 0 "sim_request HTTP_GET (sv_basePath plain_server @ sc_uri (fst e) @ ''/ScannerStatus'') []" "''/ScannerStatus''"] a
  show ?thesis by (simp add: sim_request_def)
qed

end
