(* ===== verification/ServerLoop.thy ===== *)
theory ServerLoop
  imports ServerList
begin

text \<open>
  The loops of the program: the loop of \<open>HttpServer::run\<close> (\<open>src/web/httpserver.cpp\<close>), the rounds of \<open>Server::run\<close>, the
  signals of \<open>src/server/main.cpp\<close>, and the purge thread (\<open>src/server/purgethread.cpp\<close>).
\<close>

subsection \<open>Signals and the main function\<close>

text \<open>
  The handler of signals: \<open>None\<close> when there is no server. The main function returns whether the server ended well;
  a server object that is not to run returns at once.
\<close>

definition onSignal :: "bool \<Rightarrow> int \<Rightarrow> int list \<Rightarrow> http_server option \<Rightarrow> int list \<times> http_server option" where
  "onSignal written signal pipe server = (case server of None \<Rightarrow> (pipe, None)
     | Some hs \<Rightarrow> if signal \<in> {SIGHUP, SIGTERM}
         then (let (ok, pipe', hs') = terminate written signal pipe hs in (pipe', Some hs')) else (pipe, Some hs))"

definition main_result ::
  "host_names \<Rightarrow> (string \<Rightarrow> int) \<Rightarrow> http_server \<Rightarrow> string list \<Rightarrow> ('s, 'l) setup_env \<Rightarrow> access_env \<Rightarrow> 's round list \<Rightarrow> 's world
    \<Rightarrow> (int \<times> 's world) result option" where
  "main_result hn nametoindex http args se ae ros w =
     map_option (\<lambda>x. bind_result x (\<lambda>(ok, sv, w'). Inr (if ok then 0 else - 1, w')))
       (Server_run se ae ros (Server_init hn nametoindex http args) w)"

subsection \<open>The purge thread\<close>

text \<open>
  What \<open>select\<close> reports: the number of descriptors that are ready, or an error. The thread sleeps through interruptions; it
  ends when the pipe is readable or when \<open>select\<close> fails. Each round gives the outcomes of \<open>select\<close> and the time
  after it; \<open>None\<close> means that the thread is still at work after them.
\<close>

datatype select_result = Ready nat | SelectError int

fun interruptibleSleep :: "select_result list \<Rightarrow> bool option" where
  "interruptibleSleep [] = None"
| "interruptibleSleep (Ready n # rs) = Some (n = 0)"
| "interruptibleSleep (SelectError e # rs) = (if e = EINTR then interruptibleSleep rs else Some False)"

fun purge_all :: "'s sane_lib \<Rightarrow> int \<Rightarrow> int \<Rightarrow> entries \<Rightarrow> 's world \<Rightarrow> (nat \<times> entries \<times> 's world) result" where
  "purge_all lib t maxTime [] w = Inr (0, [], w)"
| "purge_all lib t maxTime (e # es) w =
     bind_result (purgeJobs lib t maxTime (fst e) w) (\<lambda>(n, sc, w1).
     bind_result (purge_all lib t maxTime es w1) (\<lambda>(m, es', w2). Inr (n + m, (sc, snd e) # es', w2)))"

fun threadFunc ::
  "'s sane_lib \<Rightarrow> int \<Rightarrow> (select_result list \<times> int) list \<Rightarrow> entries \<Rightarrow> 's world \<Rightarrow> (entries \<times> 's world) result option" where
  "threadFunc lib maxTime [] es w = None"
| "threadFunc lib maxTime ((rs, t) # rounds) es w =
     (case interruptibleSleep rs of None \<Rightarrow> None
      | Some False \<Rightarrow> Some (Inr (es, w))
      | Some True \<Rightarrow>
          (case purge_all lib t maxTime es w of Inl e \<Rightarrow> Some (Inl e)
           | Inr (n, es', w') \<Rightarrow> threadFunc lib maxTime rounds es' w'))"

definition entries_held :: "entries \<Rightarrow> int" where
  "entries_held es = sum_list (map (\<lambda>e. jobs_held (sc_jobs (fst e))) es)"

definition live_jobs :: "int \<Rightarrow> int \<Rightarrow> entries \<Rightarrow> scan_job list list" where
  "live_jobs t maxTime es = map (\<lambda>e. filter (\<lambda>j. idleSeconds t j \<le> maxTime) (jobs (fst e))) es"

lemma entries_held_nonneg: "0 \<le> entries_held es"
  using jobs_held_nonneg by (induction es) (auto simp: entries_held_def)

lemma purgeJobs_entry:
  assumes "purgeJobs lib t maxTime sc w = Inr (n, sc', w')"
  shows "sc_uuid sc' = sc_uuid sc \<and> sc_uri sc' = sc_uri sc"
  using assms by (auto simp: purgeJobs_def bind_result_Inr_iff)

lemma idle_jobs_rest:
  "jobs_held js = jobs_held (idle_jobs t maxTime js) + sum_list (map held (filter (\<lambda>j. idleSeconds t j \<le> maxTime) (map snd js)))"
  "length (idle_jobs t maxTime js) + length (filter (\<lambda>j. idleSeconds t j \<le> maxTime) (map snd js)) = length js"
  by (induction js) (auto simp: jobs_held_def idle_jobs_def)

lemma jobs_held_jobs: "jobs_held (sc_jobs sc) = sum_list (map held (jobs sc))"
  unfolding jobs_held_def jobs_def by (rule arg_cong[where f = sum_list]) auto

lemma purge_all_ok:
  assumes "\<forall>e \<in> set es. jobs_inv (fst e)" "entries_held es \<le> w_refcount w"
  shows "\<exists>n es' w'. purge_all lib t maxTime es w = Inr (n, es', w') \<and> map (jobs \<circ> fst) es' = live_jobs t maxTime es \<and>
    map (sc_uri \<circ> fst) es' = map (sc_uri \<circ> fst) es \<and>
    n + length (concat (map (jobs \<circ> fst) es')) = length (concat (map (jobs \<circ> fst) es)) \<and>
    (\<forall>e \<in> set es'. jobs_inv (fst e)) \<and> w_refcount w' - entries_held es' = w_refcount w - entries_held es"
  using assms
proof (induction es arbitrary: w)
  case (Cons e es)
  let ?js = "sc_jobs (fst e)"
  have h: "jobs_held ?js \<le> w_refcount w" "jobs_inv (fst e)"
    using Cons.prems entries_held_nonneg[of es] by (simp_all add: entries_held_def)
  obtain sc' w1 where p: "purgeJobs lib t maxTime (fst e) w = Inr (length (idle_jobs t maxTime ?js), sc', w1)" "jobs_inv sc'"
      "jobs sc' = filter (\<lambda>j. idleSeconds t j \<le> maxTime) (jobs (fst e))"
      "w_refcount w1 = w_refcount w - jobs_held (idle_jobs t maxTime ?js)"
    using purgeJobs_ok[OF h(2,1)] by blast
  have js: "jobs_held (sc_jobs sc') = jobs_held ?js - jobs_held (idle_jobs t maxTime ?js)"
    using idle_jobs_rest(1)[of ?js t maxTime] p(3) jobs_held_jobs[of sc'] by (simp add: jobs_def)
  have n: "length (idle_jobs t maxTime ?js) + length (jobs sc') = length (jobs (fst e))"
    using idle_jobs_rest(2)[of t maxTime ?js] p(3) by (simp add: jobs_def)
  have "entries_held es \<le> w_refcount w1" using Cons.prems(2) p(4) js jobs_held_nonneg[of "sc_jobs sc'"] by (simp add: entries_held_def)
  moreover have "\<forall>e \<in> set es. jobs_inv (fst e)" using Cons.prems(1) by simp
  ultimately obtain m es' w2 where ih: "purge_all lib t maxTime es w1 = Inr (m, es', w2)"
      "map (jobs \<circ> fst) es' = live_jobs t maxTime es" "map (sc_uri \<circ> fst) es' = map (sc_uri \<circ> fst) es"
      "m + length (concat (map (jobs \<circ> fst) es')) = length (concat (map (jobs \<circ> fst) es))"
      "\<forall>e \<in> set es'. jobs_inv (fst e)" "w_refcount w2 - entries_held es' = w_refcount w1 - entries_held es"
    using Cons.IH[of w1] by blast
  from p ih js n purgeJobs_entry[OF p(1)] show ?case
    by (intro exI[of _ "length (idle_jobs t maxTime ?js) + m"] exI[of _ "(sc', snd e) # es'"] exI[of _ w2])
       (simp add: live_jobs_def entries_held_def comp_def)
qed (simp add: live_jobs_def entries_held_def)

text \<open>C20: The purge thread keeps the job lists clean. When the sleep ends by timeout, interrupted or not, the round removes from every
  scanner exactly the jobs that have been idle for longer than the timeout, keeps the others in order, gives back the
  device handles of the removed jobs, and goes on with the next round. When the pipe becomes readable the thread ends
  and touches nothing.\<close>

theorem purge_thread_round:
  assumes "\<forall>e \<in> set es. jobs_inv (fst e)" "entries_held es \<le> w_refcount w"
  shows "\<exists>es' w'. map (jobs \<circ> fst) es' = live_jobs t maxTime es \<and> map (sc_uri \<circ> fst) es' = map (sc_uri \<circ> fst) es \<and>
    (\<forall>e \<in> set es'. jobs_inv (fst e)) \<and> w_refcount w' - entries_held es' = w_refcount w - entries_held es \<and>
    threadFunc lib maxTime ((replicate n (SelectError EINTR) @ Ready 0 # rs, t) # rounds) es w = threadFunc lib maxTime rounds es' w' \<and>
    threadFunc lib maxTime ((replicate n (SelectError EINTR) @ Ready (Suc k) # rs, t) # rounds) es w = Some (Inr (es, w))"
proof -
  have s: "interruptibleSleep (replicate n (SelectError EINTR) @ xs) = interruptibleSleep xs" for xs
    by (induction n) simp_all
  from purge_all_ok[OF assms, of lib t maxTime] obtain m es' w' where "purge_all lib t maxTime es w = Inr (m, es', w')"
      "map (jobs \<circ> fst) es' = live_jobs t maxTime es" "map (sc_uri \<circ> fst) es' = map (sc_uri \<circ> fst) es"
      "\<forall>e \<in> set es'. jobs_inv (fst e)" "w_refcount w' - entries_held es' = w_refcount w - entries_held es"
    by blast
  then show ?thesis by (intro exI[of _ es'] exI[of _ w']) (simp add: s)
qed

theorem purge_thread_round_witness:
  "\<forall>lib s. \<exists>es' w'. map (jobs \<circ> fst) es' = live_jobs 3600 300 [(demo_jobs, service_init)] \<and>
     threadFunc lib 300 [([SelectError EINTR, Ready 0], 3600), ([Ready 1], 3605)] [(demo_jobs, service_init)] \<lparr>w_sane = s, w_refcount = 1\<rparr>
       = Some (Inr (es', w')) \<and> w_refcount w' - entries_held es' = 1 - entries_held [(demo_jobs, service_init)]"
proof (intro allI)
  fix lib :: "'a sane_lib" and s :: 'a
  let ?es = "[(demo_jobs, service_init)]" and ?w = "\<lparr>w_sane = s, w_refcount = 1\<rparr>"
  have "\<forall>e \<in> set ?es. jobs_inv (fst e)" "entries_held ?es \<le> w_refcount ?w"
    using demo_jobs_inv by (simp_all add: entries_held_def)
  from purge_thread_round[OF this, where n = 1 and t = 3600 and maxTime = 300 and lib = lib and rs = "[]" and rounds = "[([Ready 1], 3605)]"]
  obtain es' w' where r: "map (jobs \<circ> fst) es' = live_jobs 3600 300 ?es" "w_refcount w' - entries_held es' = 1 - entries_held ?es"
    "threadFunc lib 300 [([SelectError EINTR, Ready 0], 3600), ([Ready 1], 3605)] ?es ?w = threadFunc lib 300 [([Ready 1], 3605)] es' w'"
    by auto
  have "threadFunc lib 300 [([Ready 1], 3605)] es' w' = Some (Inr (es', w'))" by simp
  with r show "\<exists>es' w'. map (jobs \<circ> fst) es' = live_jobs 3600 300 ?es \<and>
     threadFunc lib 300 [([SelectError EINTR, Ready 0], 3600), ([Ready 1], 3605)] ?es ?w = Some (Inr (es', w')) \<and>
     w_refcount w' - entries_held es' = 1 - entries_held ?es" by metis
qed

subsection \<open>The loop of the HTTP server\<close>

fun quiet_event :: "poll_event \<Rightarrow> bool" where
  "quiet_event (Incoming cs) = True"
| "quiet_event (PollFailed e) = (e = EINTR)"
| "quiet_event _ = False"

fun accepted :: "poll_event list \<Rightarrow> connection list" where
  "accepted [] = []"
| "accepted (Incoming cs # evs) = cs @ accepted evs"
| "accepted (_ # evs) = accepted evs"

text \<open>A call that fails leaves an \<open>errno\<close> that is not zero.\<close>

definition errors_set :: "(socket_call \<Rightarrow> int + int) \<Rightarrow> poll_event list \<Rightarrow> bool" where
  "errors_set sys evs \<longleftrightarrow> (\<forall>c e. sys c = Inl e \<longrightarrow> e \<noteq> 0) \<and> PollFailed 0 \<notin> set evs"

lemma serve_cases:
  assumes "serve evs st = Some (cs, err, st')" "PollFailed 0 \<notin> set evs"
  obtains (ended) pre v post where "evs = pre @ PipeValue v # post" "list_all quiet_event pre" "cs = accepted pre" "err = 0" "st' = v"
    | (failed) "err \<noteq> 0" "st' = st"
  using assms
proof (induction evs st arbitrary: cs err st' thesis rule: serve.induct)
  case (2 v evs st)
  from "2.prems"(1)[of "[]" v evs] "2.prems"(3) show ?case by simp
next
  case (3 e evs st)
  then show ?case by (auto simp: EBADMSG_def split: if_splits)
next
  case (4 c evs st)
  from "4.prems"(3) obtain cs' where s: "serve evs st = Some (cs', err, st')" "cs = c @ cs'" by auto
  show ?case
  proof (rule "4.IH"[OF _ _ s(1)])
    fix pre v post
    assume "evs = pre @ PipeValue v # post" "list_all quiet_event pre" "cs' = accepted pre" "err = 0" "st' = v"
    with "4.prems"(1)[of "Incoming c # pre" v post] s(2) show ?case by simp
  qed (use "4.prems" in auto)
next
  case (5 e evs st)
  show ?case
  proof (cases "e = EINTR")
    case True
    with "5.prems"(3) have s: "serve evs st = Some (cs, err, st')" by simp
    show ?thesis
    proof (rule "5.IH"[OF True _ _ s])
      fix pre v post
      assume "evs = pre @ PipeValue v # post" "list_all quiet_event pre" "cs = accepted pre" "err = 0" "st' = v"
      with "5.prems"(1)[of "PollFailed e # pre" v post] True show ?thesis by simp
    qed (use "5.prems" in auto)
  next
    case False
    with "5.prems" show ?thesis by auto
  qed
qed simp

lemma http_run_cases:
  assumes "http_run None ifs sys evs hs = Some (ok, cs, hs')" "\<not> hs_running hs" "errors_set sys evs"
  obtains (ended) pre v post where "evs = pre @ PipeValue v # post" "list_all quiet_event pre" "cs = accepted pre" "ok"
      "hs' = hs\<lparr>hs_running := False, hs_lastError := 0, hs_terminationStatus := v\<rparr>"
    | (failed) err where "err \<noteq> 0" "\<not> ok" "hs' = hs\<lparr>hs_running := False, hs_lastError := err, hs_terminationStatus := - 1\<rparr>"
proof -
  obtain err0 addrs where d: "determineAddresses ifs hs = (err0, addrs)" by fastforce
  let ?err = "if err0 \<noteq> 0 then err0 else fst (open_sockets sys hs addrs)"
  let ?res = "if ?err \<noteq> 0 then Some ([], ?err, 0) else serve evs 0"
  have "map_option (\<lambda>(cs, err, status). (err = 0, cs, hs\<lparr>hs_running := False, hs_lastError := err,
      hs_terminationStatus := (if err \<noteq> 0 \<and> status = 0 then - 1 else status)\<rparr>)) ?res = Some (ok, cs, hs')"
    using assms(1,2) unfolding http_run_def Let_def d by simp
  then obtain err st where r: "?res = Some (cs, err, st)" "ok = (err = 0)"
      "hs' = hs\<lparr>hs_running := False, hs_lastError := err, hs_terminationStatus := (if err \<noteq> 0 \<and> st = 0 then - 1 else st)\<rparr>"
    unfolding map_option_eq_Some by auto
  show thesis
  proof (cases "?err = 0")
    case True
    with r(1) have s: "serve evs 0 = Some (cs, err, st)" by simp
    have "PollFailed 0 \<notin> set evs" using assms(3) by (simp add: errors_set_def)
    from s this show thesis
      by (cases rule: serve_cases) (use r that in auto)
  next
    case False
    then have "?res = Some ([], ?err, 0)" by (rule if_P)
    with r(1) have "cs = []" "err = ?err" "st = 0" by simp_all
    with r False that(2)[of err] show thesis by simp
  qed
qed


definition sim_sys :: "socket_call \<Rightarrow> int + int" where
  "sim_sys c = Inr 5"

definition sim_http :: http_server where
  "sim_http = HttpServer_init (\<lambda>i. None) 128"

lemma sim_http_ok: "\<not> hs_running sim_http" "errors_set sim_sys [PollFailed EINTR, Incoming [(7, Inet [10, 0, 0, 1])], PipeValue 15]"
  by (simp_all add: sim_http_def HttpServer_init_def setPort_def setInterfaceIndex_def errors_set_def sim_sys_def EINTR_def)

lemma sim_http_run:
  "http_run None (Some [(''lo'', Some (Inet [127, 0, 0, 1]))]) sim_sys [PollFailed EINTR, Incoming [(7, Inet [10, 0, 0, 1])], PipeValue 15] sim_http
     = Some (True, [(7, Inet [10, 0, 0, 1])], sim_http\<lparr>hs_running := False, hs_lastError := 0, hs_terminationStatus := 15\<rparr>)"
  by code_simp


lemma socket_setup_status: "socket_setup (hs\<lparr>hs_terminationStatus := st\<rparr>) fd a = socket_setup hs fd a"
  by (cases a) (simp_all add: socket_setup_def)

text \<open>Two ways to lose control of the HTTP server. A request to terminate that arrives while the server is not running is
  acknowledged, but it does not reach the next run, which starts with a cleared status; and after a run that could not
  create its pipe the server counts as running for good: every later run fails at once, and requests to
  terminate are written to a pipe that does not exist.\<close>

theorem termination_request_lost:
  assumes "\<not> hs_running hs"
  shows "(\<exists>hs1. terminate written status pipe hs = (True, pipe, hs1) \<and> http_run None ifs sys evs hs1 = http_run None ifs sys evs hs) \<and>
    (\<exists>hs2. http_run (Some e) ifs sys evs hs = Some (False, [], hs2) \<and>
       (\<forall>pe ifs' sys' evs'. \<exists>hs3. http_run pe ifs' sys' evs' hs2 = Some (False, [], hs3) \<and> hs_running hs3))"
proof -
  have d: "determineAddresses ifs (hs\<lparr>hs_terminationStatus := st\<rparr>) = determineAddresses ifs hs" for st
    by (simp add: determineAddresses_def)
  have c: "createListeningSocket sys (hs\<lparr>hs_terminationStatus := st\<rparr>) a = createListeningSocket sys hs a" for st a
    by (simp add: createListeningSocket_def socket_setup_status split: sum.split)
  have o: "open_sockets sys (hs\<lparr>hs_terminationStatus := st\<rparr>) as = open_sockets sys hs as" for st as
    by (induction as) (simp_all add: c)
  show ?thesis using assms by (simp add: terminate_def http_run_def d o split: prod.split)
qed

theorem termination_request_lost_witness:
  "\<exists>hs1. terminate True SIGTERM [] sim_http = (True, [], hs1) \<and>
     (\<forall>ifs sys evs. http_run None ifs sys evs hs1 = http_run None ifs sys evs sim_http)"
  using termination_request_lost[OF sim_http_ok(1), of True SIGTERM "[]"] by (metis prod.inject)

subsection \<open>The rounds of the server\<close>

text \<open>
  What is assumed of the rounds: handlers, purge thread and destruction of the scanners give back the references that they
  take, and failing calls set \<open>errno\<close>.
\<close>

definition balanced_round :: "'s round \<Rightarrow> bool" where
  "balanced_round ro \<longleftrightarrow> (\<forall>sv es cs w. w_refcount (ro_world ro sv es cs w) = w_refcount w) \<and> errors_set (ro_sys ro) (ro_events ro)"

lemma enumerate_devices_acct:
  "enumerate_devices lib localonly w = Inr (devs, w') \<Longrightarrow> w_refcount w' = w_refcount w"
  by (auto simp: enumerate_devices_def sane_init_release_def Let_def bind_result_Inr_iff split: prod.splits if_splits)

lemma serve_round_effect:
  assumes "serve_round se ro sv es w = Some (Inr (oc, sv', w'))" "balanced_round ro"
  shows "w_refcount w' = w_refcount w - 1 \<and> (oc = Stop True \<longrightarrow> PipeValue SIGTERM \<in> set (ro_events ro)) \<and>
    (oc = Reload \<longrightarrow> PipeValue SIGHUP \<in> set (ro_events ro))"
proof -
  from assms(1) obtain ok cs hs where h: "http_run (ro_pipe ro) (ro_ifs ro) (ro_sys ro) (ro_events ro) (sv_http sv) = Some (ok, cs, hs)"
      "sane_init_release (env_lib (se_env se)) (ro_world ro sv es cs w) = Inr w'" "oc = after_serving ok (hs_terminationStatus hs)"
    by (auto simp: serve_round_def bind_result_Inr_iff)
  have w: "w_refcount w' = w_refcount w - 1"
    using h(2) assms(2) by (auto simp: sane_init_release_def balanced_round_def Let_def split: if_splits)
  show ?thesis
  proof (cases "ok")
    case False
    with w h(3) show ?thesis by (simp add: after_serving_def)
  next
    case True
    with h(1) have r: "\<not> hs_running (sv_http sv)" "ro_pipe ro = None"
      by (auto simp: http_run_def split: if_splits option.splits)
    have "errors_set (ro_sys ro) (ro_events ro)" using assms(2) by (simp add: balanced_round_def)
    with h(1)[unfolded r(2)] r(1) show ?thesis
    proof (cases rule: http_run_cases)
      case (ended pre v post)
      with w h(3) show ?thesis by (auto simp: after_serving_def SIGTERM_def SIGHUP_def)
    next
      case failed
      with True show ?thesis by simp
    qed
  qed
qed

lemma server_round_effect:
  assumes "server_round se ae ro sv w = Some (Inr (oc, sv', w'))" "balanced_round ro"
  shows "w_refcount w' = w_refcount w \<and> (oc = Stop True \<longrightarrow> PipeValue SIGTERM \<in> set (ro_events ro)) \<and>
    (oc = Reload \<longrightarrow> PipeValue SIGHUP \<in> set (ro_events ro))"
proof (cases "hs_unixSocket (sv_http sv) = [] \<and> af_errors (AccessFile_read ae (env_file (se_env se) (sv_accessfile sv))) \<noteq> []")
  case True
  with assms(1) show ?thesis by (auto simp: server_round_def Let_def)
next
  case False
  let ?env = "se_env se"
  let ?sv = "if hs_unixSocket (sv_http sv) = [] then sv\<lparr>sv_http := applyAccessFile (AccessFile_read ae (env_file ?env (sv_accessfile sv))) (sv_http sv)\<rparr> else sv"
  let ?of = "OptionsFile_read (sv_optionsfile sv) (case env_file ?env (sv_optionsfile sv) of None \<Rightarrow> [] | Some s \<Rightarrow> s)"
  let ?pp = "''/'' @ (if sv_randompaths sv then ro_random ro @ ''/'' else [])"
  let ?w = "sane_init_addref (env_lib ?env) w"
  have eq: "server_round se ae ro sv w = (case enumerate_devices (env_lib ?env) (sv_localonly sv) ?w of Inl e \<Rightarrow> Some (Inl e)
      | Inr (infos, w2) \<Rightarrow> (case add_scanners se ?sv ?of ?pp infos 0 [] w2 of
           None \<Rightarrow> None | Some (Inl e) \<Rightarrow> Some (Inl e) | Some (Inr (es, w3)) \<Rightarrow> serve_round se ro (?sv\<lparr>sv_startupTime := ro_startup ro\<rparr>) es w3))"
    unfolding server_round_def Let_def using False by (rule if_not_P)
  from assms(1)[unfolded eq] obtain infos w2 where e: "enumerate_devices (env_lib ?env) (sv_localonly sv) ?w = Inr (infos, w2)"
    by (cases "enumerate_devices (env_lib ?env) (sv_localonly sv) ?w") auto
  from assms(1)[unfolded eq e] obtain es w3 where a: "add_scanners se ?sv ?of ?pp infos 0 [] w2 = Some (Inr (es, w3))"
    by (cases "add_scanners se ?sv ?of ?pp infos 0 [] w2") (simp_all split: sum.splits prod.splits)
  from assms(1)[unfolded eq e] have s: "serve_round se ro (?sv\<lparr>sv_startupTime := ro_startup ro\<rparr>) es w3 = Some (Inr (oc, sv', w'))"
    unfolding sum.case prod.case a option.case .
  have "entries_inv ?pp (env_hash ?env) (env_machineId ?env) 0 []" by (simp add: entries_inv_def)
  from add_scanners_inv[OF a this] enumerate_devices_acct[OF e] serve_round_effect[OF s assms(2)] show ?thesis by simp
qed

lemma run_rounds_effect:
  assumes "run_rounds se ae ros sv w = Some (Inr (ok, sv', w'))" "\<forall>ro \<in> set ros. balanced_round ro"
  shows "w_refcount w' = w_refcount w \<and> (ok \<longrightarrow> (\<exists>ro \<in> set ros. PipeValue SIGTERM \<in> set (ro_events ro)))"
  using assms
proof (induction ros arbitrary: sv w)
  case (Cons ro ros)
  from Cons.prems(1) obtain oc sv1 w1 where r: "server_round se ae ro sv w = Some (Inr (oc, sv1, w1))"
    by (auto split: option.splits sum.splits)
  have e: "w_refcount w1 = w_refcount w" "oc = Stop True \<longrightarrow> PipeValue SIGTERM \<in> set (ro_events ro)"
    using server_round_effect[OF r] Cons.prems(2) by auto
  show ?case
  proof (cases oc)
    case Reload
    with r Cons.prems(1) have "run_rounds se ae ros sv1 w1 = Some (Inr (ok, sv', w'))" by simp
    from Cons.IH[OF this] Cons.prems(2) e(1) show ?thesis by auto
  next
    case (Stop b)
    with r Cons.prems(1) e show ?thesis by auto
  qed
qed simp

text \<open>C13: How the program ends. However often the server reloads its configuration, when the program ends the reference count of
  the SANE library is what it was at the start, provided that the handlers give back what they take; the exit
  status is 0 or -1; and it is 0 only when the command line was accepted and SIGTERM came through the pipe in one of the
  rounds.\<close>

theorem clean_exit:
  assumes "main_result hn nametoindex http args se ae ros w = Some (Inr (status, w'))" "\<forall>ro \<in> set ros. balanced_round ro"
  shows "w_refcount w' = w_refcount w \<and> status \<in> {0, - 1} \<and>
    (status = 0 \<longrightarrow> sv_doRun (Server_init hn nametoindex http args) \<and> (\<exists>ro \<in> set ros. PipeValue SIGTERM \<in> set (ro_events ro)))"
proof -
  let ?sv = "Server_init hn nametoindex http args"
  from assms(1) obtain ok sv' where r: "Server_run se ae ros ?sv w = Some (Inr (ok, sv', w'))" "status = (if ok then 0 else - 1)"
    by (auto simp: main_result_def bind_result_Inr_iff)
  show ?thesis
  proof (cases "sv_doRun ?sv")
    case True
    with r(1) have "run_rounds se ae ros ?sv w = Some (Inr (ok, sv', w'))" by (simp add: Server_run_def)
    from run_rounds_effect[OF this assms(2)] r(2) True show ?thesis by auto
  next
    case False
    with r show ?thesis by (auto simp: Server_run_def)
  qed
qed

definition sim_round :: "string round" where
  "sim_round = \<lparr>ro_random = [], ro_startup = Fin 1, ro_pipe = None, ro_ifs = None, ro_sys = sim_sys,
     ro_events = [PipeValue SIGTERM], ro_world = (\<lambda>sv es cs w. w)\<rparr>"

definition sim_start :: server where
  "sim_start = Server_init \<lparr>hn_system = ''host'', hn_mdns = ''host'', hn_mdnsFqdn = ''host.local''\<rparr> (\<lambda>n. 0) sim_http [''--unix-socket=/x'']"

definition sim_files :: "(string, nat) setup_env" where
  "sim_files = \<lparr>se_env = sim_server_env, se_regex = (\<lambda>r. None), se_publish = (\<lambda>s. None)\<rparr>"

lemma sim_start: "sv_doRun sim_start" "hs_unixSocket (sv_http sim_start) = ''/x''" "\<not> hs_running (sv_http sim_start)"
  by code_simp+

lemma sim_serve: "serve_round sim_files sim_round sv [] w = Some (Inr (Stop True, sv\<lparr>sv_http := hs\<rparr>, w'))"
  if "sv_http sv = sv_http sim_start" "w = \<lparr>w_sane = ''abc'', w_refcount = 1\<rparr>"
    "hs = (sv_http sv)\<lparr>hs_running := False, hs_lastError := 0, hs_terminationStatus := SIGTERM\<rparr>" "w' = \<lparr>w_sane = ''abc'', w_refcount = 0\<rparr>"
proof -
  have "http_run (ro_pipe sim_round) (ro_ifs sim_round) (ro_sys sim_round) (ro_events sim_round) (sv_http sv) = Some (True, [], hs)"
    using that sim_start(2,3)
    by (simp add: sim_round_def http_run_def determineAddresses_def sun_path_size_def createListeningSocket_def socket_setup_def sim_sys_def)
  with that(2-4) show ?thesis
    by (simp add: serve_round_def sim_round_def sim_files_def sim_server_env_def sim_lib_def sane_init_release_def sane_def
        after_serving_def SIGTERM_def SIGHUP_def)
qed

theorem clean_exit_witness:
  "\<forall>ae. main_result \<lparr>hn_system = ''host'', hn_mdns = ''host'', hn_mdnsFqdn = ''host.local''\<rparr> (\<lambda>n. 0) sim_http [''--unix-socket=/x'']
      sim_files ae [sim_round] \<lparr>w_sane = ''abc'', w_refcount = 0\<rparr> = Some (Inr (0, \<lparr>w_sane = ''abc'', w_refcount = 0\<rparr>)) \<and>
    (\<exists>ro \<in> {sim_round}. PipeValue SIGTERM \<in> set (ro_events ro))"
proof
  fix ae
  let ?w = "\<lparr>w_sane = ''abc'', w_refcount = 0\<rparr>"
  have "enumerate_devices sim_lib l (sane_init_addref sim_lib ?w) = Inr ([], \<lparr>w_sane = ''abc'', w_refcount = 1\<rparr>)" for l
    by (simp add: enumerate_devices_def sane_init_addref_def sane_init_release_def sim_lib_def sane_def)
  then have "server_round sim_files ae sim_round sim_start ?w = Some (Inr (Stop True, (sim_start\<lparr>sv_startupTime := ro_startup sim_round\<rparr>)
      \<lparr>sv_http := (sv_http sim_start)\<lparr>hs_running := False, hs_lastError := 0, hs_terminationStatus := SIGTERM\<rparr>\<rparr>, ?w))"
    using sim_start(2) sim_serve[of "sim_start\<lparr>sv_startupTime := ro_startup sim_round\<rparr>"]
    by (simp add: server_round_def Let_def sim_files_def sim_server_env_def)
  then have m: "main_result \<lparr>hn_system = ''host'', hn_mdns = ''host'', hn_mdnsFqdn = ''host.local''\<rparr> (\<lambda>n. 0) sim_http [''--unix-socket=/x'']
      sim_files ae [sim_round] ?w = Some (Inr (0, ?w))"
    using sim_start(1) by (simp add: main_result_def Server_run_def flip: sim_start_def)
  have b: "\<forall>ro \<in> set [sim_round]. balanced_round ro" by (simp add: balanced_round_def sim_round_def errors_set_def sim_sys_def)
  from clean_exit[OF m b] m show "main_result \<lparr>hn_system = ''host'', hn_mdns = ''host'', hn_mdnsFqdn = ''host.local''\<rparr> (\<lambda>n. 0) sim_http
      [''--unix-socket=/x''] sim_files ae [sim_round] ?w = Some (Inr (0, ?w)) \<and>
    (\<exists>ro \<in> {sim_round}. PipeValue SIGTERM \<in> set (ro_events ro))" by simp
qed

end
