(* ===== verification/ServerStart.thy ===== *)
theory ServerStart
  imports ServerContract
begin

text \<open>
  Starting the server: what the command line means, the limits of the settings, and the names under which scanners are published.
\<close>

subsection \<open>The command line\<close>

definition option_arg :: "string \<times> string \<Rightarrow> string" where
  "option_arg nv = ''--'' @ fst nv @ ''='' @ snd nv"

definition options_ok :: "(string \<times> string) list \<Rightarrow> bool" where
  "options_ok opts \<longleftrightarrow> distinct (map fst opts) \<and> (\<forall>n \<in> fst ` set opts. CHR ''='' \<notin> set n)"

definition override :: "string \<times> string \<Rightarrow> (string \<times> string) list \<Rightarrow> (string \<times> string) list" where
  "override nv opts = map (\<lambda>(k, d). (k, if k = fst nv then snd nv else d)) opts"

lemma options_ok_defaults: "options_ok option_defaults"
  unfolding options_ok_def option_defaults_def by code_simp

lemma override_names [simp]: "map fst (override nv opts) = map fst opts"
  by (simp add: override_def comp_def case_prod_beta)

lemma override_ok: "options_ok (override nv opts) = options_ok opts"
proof -
  have "fst ` set (override nv opts) = fst ` set opts" by (metis override_names set_map)
  then show ?thesis by (simp add: options_ok_def)
qed

lemma prefix_eq_sign:
  assumes "CHR ''='' \<notin> set k" "CHR ''='' \<notin> set n"
  shows "prefix (k @ ''='') (n @ ''='' @ v) \<longleftrightarrow> k = n"
proof
  assume "prefix (k @ ''='') (n @ ''='' @ v)"
  then obtain t where t: "n @ ''='' @ v = (k @ ''='') @ t" by (auto simp: prefix_def)
  have "takeWhile (\<lambda>c. c \<noteq> CHR ''='') (n @ ''='' @ v) = n" "takeWhile (\<lambda>c. c \<noteq> CHR ''='') ((k @ ''='') @ t) = k"
    using assms by (simp_all add: takeWhile_append)
  with t show "k = n" by simp
qed simp

lemma apply_option_known:
  assumes "options_ok opts" "n \<in> fst ` set opts"
  shows "apply_option (option_arg (n, v)) opts = (True, False, override (n, v) opts)"
  using assms
proof (induction opts)
  case (Cons kd opts)
  obtain k d where kd: "kd = (k, d)" by (cases kd)
  have s: "CHR ''='' \<notin> set k" "CHR ''='' \<notin> set n" using Cons.prems kd by (auto simp: options_ok_def)
  have o: "options_ok opts" "k \<notin> fst ` set opts" using Cons.prems(1) kd by (auto simp: options_ok_def)
  have p: "prefix (''--'' @ k @ ''='') (option_arg (n, v)) \<longleftrightarrow> k = n" using prefix_eq_sign[OF s] by (simp add: option_arg_def)
  have ne: "option_arg (n, v) \<noteq> ''--'' @ k" using s(1) by (auto simp: option_arg_def dest: arg_cong[of _ _ set])
  have f: "find_str ''='' (option_arg (n, v)) = Some (2 + length n)"
    using find_str_singleton_append[of "CHR ''=''" "''--'' @ n" v] s(2) by (simp add: option_arg_def)
  show ?case
  proof (cases "k = n")
    case True
    have "override (n, v) opts = opts" using o(2) True unfolding override_def by (intro map_idI) (auto simp: image_iff)
    with True p f kd show ?thesis by (simp add: override_def option_arg_def)
  next
    case False
    with Cons.IH o(1) Cons.prems(2) kd have "apply_option (option_arg (n, v)) opts = (True, False, override (n, v) opts)" by auto
    with False p ne kd show ?thesis by (simp add: override_def)
  qed
qed simp

lemma parse_args_known:
  assumes "options_ok opts" "\<forall>nv \<in> set nvs. fst nv \<in> fst ` set opts"
  shows "parse_args (map option_arg nvs) (hlp, opts) = (hlp, fold override nvs opts)"
  using assms
proof (induction nvs arbitrary: opts)
  case (Cons nv nvs)
  have "fst ` set (override nv opts) = fst ` set opts" by (metis override_names set_map)
  with Cons apply_option_known[OF Cons.prems(1), of "fst nv" "snd nv"] show ?case
    by (simp add: override_ok)
qed simp

lemma fold_override:
  "fold override nvs opts = map (\<lambda>(k, d). (k, case map_of (rev nvs) k of None \<Rightarrow> d | Some v \<Rightarrow> v)) opts"
proof (induction nvs arbitrary: opts)
  case (Cons nv nvs)
  have "fold override (nv # nvs) opts = map (\<lambda>(k, d). (k, case map_of (rev nvs) k of None \<Rightarrow> d | Some v \<Rightarrow> v)) (override nv opts)"
    using Cons.IH by simp
  also have "\<dots> = map (\<lambda>(k, d). (k, case map_of (rev (nv # nvs)) k of None \<Rightarrow> d | Some v \<Rightarrow> v)) opts"
    by (auto simp: override_def map_add_def split: option.splits)
  finally show ?case .
qed simp

text \<open>The arguments that lead to a start: all others ask for help.\<close>

lemma apply_option_names: "map fst (snd (snd (apply_option arg opts))) = map fst opts"
  by (induction arg opts rule: apply_option.induct) (auto simp: Let_def split: prod.splits)

lemma apply_option_found:
  "apply_option arg opts = (True, False, opts') \<Longrightarrow> \<exists>n v. arg = option_arg (n, v) \<and> n \<in> fst ` set opts"
proof (induction arg opts arbitrary: opts' rule: apply_option.induct)
  case (2 arg name d opts)
  show ?case
  proof (cases "prefix (''--'' @ name @ ''='') arg")
    case True
    then show ?thesis by (force simp: option_arg_def prefix_def)
  next
    case False
    with "2.prems" have "arg \<noteq> ''--'' @ name" by auto
    with 2 False show ?thesis by (force split: prod.splits)
  qed
qed simp

lemma parse_args_no_help:
  "\<not> fst (parse_args args (hlp, opts)) \<Longrightarrow> \<not> hlp \<and> (\<forall>arg \<in> set args. \<exists>n v. arg = option_arg (n, v) \<and> n \<in> fst ` set opts)"
proof (induction args arbitrary: hlp opts)
  case (Cons arg args)
  obtain found h opts' where a: "apply_option arg opts = (found, h, opts')" by (metis prod_cases3)
  have n: "fst ` set opts' = fst ` set opts" using apply_option_names[of arg opts] a by (metis set_map snd_conv)
  from Cons.prems a have "\<not> fst (parse_args args (hlp \<or> h \<or> \<not> found, opts'))" by simp
  from Cons.IH[OF this] n a apply_option_found[of arg opts opts'] show ?case by auto
qed simp

text \<open>The command line. When every argument has the form \<open>--name=value\<close> for an option that the server knows, no help is
  shown, and each option has the value that was given last, whatever characters it contains, or its default when
  it was not given.\<close>

theorem command_line_values:
  assumes "\<forall>nv \<in> set nvs. fst nv \<in> fst ` set option_defaults"
  shows "parse_args (map option_arg nvs) (False, option_defaults) =
    (False, map (\<lambda>(n, d). (n, case map_of (rev nvs) n of None \<Rightarrow> d | Some v \<Rightarrow> v)) option_defaults)"
  using parse_args_known[OF options_ok_defaults assms] by (simp add: fold_override)

theorem command_line_values_witness:
  "parse_args [''--listen-port=1'', ''--options-file=a=b'', ''--listen-port=8000''] (False, option_defaults) =
    (False, map (\<lambda>(n, d). (n, if n = ''listen-port'' then ''8000'' else if n = ''options-file'' then ''a=b'' else d)) option_defaults)"
proof -
  let ?nvs = "[(''listen-port'', ''1''), (''options-file'', ''a=b''), (''listen-port'', ''8000'')]"
  have "\<forall>nv \<in> set ?nvs. fst nv \<in> fst ` set option_defaults" by (simp add: option_defaults_def)
  from command_line_values[OF this] show ?thesis by (simp add: option_arg_def option_defaults_def)
qed

subsection \<open>Limits\<close>

lemma stream_int_bounds: "stream_int lo hi s = (True, v) \<Longrightarrow> lo \<le> v \<and> v \<le> hi"
  by (auto simp: stream_int_def Let_def split: prod.splits if_splits)

lemma stream_uint16_bounds: "stream_uint16 s = (True, v) \<Longrightarrow> 0 \<le> v \<and> v < 65536"
  by (auto simp: stream_uint16_def split: prod.splits if_splits)

text \<open>C23: A server that starts has settings within their limits. Every argument was an assignment to a known option, the port is a
  16 bit number, the delay before a reload is not negative, and job timeout and purge interval are at
  least one second and fit into an int.\<close>

theorem settings_within_limits:
  assumes "sv_doRun (Server_init hn nametoindex http args)"
  shows "(\<forall>arg \<in> set args. \<exists>n v. arg = option_arg (n, v) \<and> n \<in> fst ` set option_defaults) \<and>
    0 \<le> hs_port (sv_http (Server_init hn nametoindex http args)) \<and> hs_port (sv_http (Server_init hn nametoindex http args)) < 65536 \<and>
    sv_reloadDelay (Server_init hn nametoindex http args) \<in> {0 ..< 2 ^ 31} \<and>
    sv_jobtimeout (Server_init hn nametoindex http args) \<in> {1 ..< 2 ^ 31} \<and>
    sv_purgeinterval (Server_init hn nametoindex http args) \<in> {1 ..< 2 ^ 31}"
proof -
  obtain hlp opts where p: "parse_args args (False, option_defaults) = (hlp, opts)" by fastforce
  let ?u = "Url_parse (getString opts ''announce-base-url'')"
  let ?port = "if ur_port ?u \<noteq> ''%p'' \<and> ur_port ?u \<noteq> [] then ur_port ?u else getString opts ''listen-port''"
  obtain po pv where po: "stream_uint16 ?port = (po, pv)" by fastforce
  obtain d dv where d: "stream_int32 (getString opts ''reload-delay'') = (d, dv)" by fastforce
  obtain t tv where t: "stream_int32 (getString opts ''job-timeout'') = (t, tv)" by fastforce
  obtain i iv where i: "stream_int32 (getString opts ''purge-interval'') = (i, iv)" by fastforce
  note e = p po d t i
  have r: "\<not> hlp" "po" "d" "0 \<le> dv" "t" "1 \<le> tv" "i" "1 \<le> iv"
    using assms unfolding Server_init_def Let_def by (simp_all add: e)
  have s: "hs_port (sv_http (Server_init hn nametoindex http args)) = pv mod 65536"
      "sv_reloadDelay (Server_init hn nametoindex http args) = dv" "sv_jobtimeout (Server_init hn nametoindex http args) = tv"
      "sv_purgeinterval (Server_init hn nametoindex http args) = iv"
    using assms unfolding Server_init_def Let_def by (simp_all add: e setUnixSocket_def setPort_def)
  have "\<forall>arg \<in> set args. \<exists>n v. arg = option_arg (n, v) \<and> n \<in> fst ` set option_defaults"
    using parse_args_no_help[of args False option_defaults] p r(1) by simp
  then show ?thesis
    using stream_uint16_bounds[of ?port pv] po r d t i stream_int_bounds[of "- (2 ^ 31)" "2 ^ 31 - 1"]
    unfolding s stream_int32_def by fastforce
qed

theorem settings_within_limits_witness:
  "sv_doRun (Server_init \<lparr>hn_system = ''host'', hn_mdns = ''host'', hn_mdnsFqdn = ''host.local''\<rparr> (\<lambda>n. 0)
     (HttpServer_init (\<lambda>i. None) 128) [''--job-timeout=7'']) \<and>
   sv_jobtimeout (Server_init \<lparr>hn_system = ''host'', hn_mdns = ''host'', hn_mdnsFqdn = ''host.local''\<rparr> (\<lambda>n. 0)
     (HttpServer_init (\<lambda>i. None) 128) [''--job-timeout=7'']) \<in> {1 ..< 2 ^ 31}"
proof -
  let ?s = "Server_init \<lparr>hn_system = ''host'', hn_mdns = ''host'', hn_mdnsFqdn = ''host.local''\<rparr> (\<lambda>n. 0)
     (HttpServer_init (\<lambda>i. None) 128) [''--job-timeout=7'']"
  have "sv_doRun ?s" by code_simp
  with settings_within_limits[OF this] show ?thesis by blast
qed

subsection \<open>Published names\<close>

text \<open>A published name is new. The name that is chosen for a scanner is not the name of a scanner in the list; it is the name
  asked for when that is free, and otherwise that name followed by the first free number from two on in
  parentheses.\<close>

theorem published_name_unique:
  "\<exists>n \<ge> 1. sc_publishedName (chooseUniquePublishedName scs sc) = sc_publishedName sc @ name_suffix n \<and>
     \<not> publishedNameExists scs (sc_publishedName (chooseUniquePublishedName scs sc)) \<and>
     (\<forall>k. 1 \<le> k \<and> k < n \<longrightarrow> publishedNameExists scs (sc_publishedName sc @ name_suffix k))"
proof -
  have "1 \<le> i \<Longrightarrow> \<exists>n \<ge> i. unique_published scs nm i = nm @ name_suffix n \<and> \<not> publishedNameExists scs (nm @ name_suffix n) \<and>
      (\<forall>k. i \<le> k \<and> k < n \<longrightarrow> publishedNameExists scs (nm @ name_suffix k))" for nm i
  proof (induction scs nm i rule: unique_published.induct)
    case (1 scs nm i)
    show ?case
    proof (cases "publishedNameExists scs (nm @ name_suffix i)")
      case True
      with 1 obtain n where n: "i + 1 \<le> n" "unique_published scs nm (i + 1) = nm @ name_suffix n" "\<not> publishedNameExists scs (nm @ name_suffix n)"
          "\<forall>k. i + 1 \<le> k \<and> k < n \<longrightarrow> publishedNameExists scs (nm @ name_suffix k)"
        by auto
      have "publishedNameExists scs (nm @ name_suffix k)" if "i \<le> k" "k < n" for k using n(4) True that by (cases "k = i") auto
      with n True "1.prems" show ?thesis by (intro exI[of _ n]) (simp add: unique_published.simps[of scs nm i])
    next
      case False
      then show ?thesis by (intro exI[of _ i]) (auto simp: unique_published.simps[of scs nm i])
    qed
  qed
  from this[of 1 "sc_publishedName sc"] show ?thesis
    by (auto simp: chooseUniquePublishedName_def setPublishedName_def)
qed

theorem published_name_unique_witness:
  "\<exists>n \<ge> 1. \<forall>sc :: scanner. sc_publishedName (chooseUniquePublishedName [] sc) = sc_publishedName sc @ name_suffix n"
proof -
  have "sc_publishedName (chooseUniquePublishedName [] sc) = sc_publishedName sc @ name_suffix 1" for sc :: scanner
    using published_name_unique[of "[]" sc] by (force simp: publishedNameExists_def)
  then show ?thesis by auto
qed

end
