(* ===== verification/NetworkHotplug.thy ===== *)
theory NetworkHotplug
  imports ServerContract "HOL-Library.Word"
begin

unbundle bit_operations_syntax

text \<open>
  The network notifier, \<open>src/zeroconf/networkhotplugnotifier.cpp\<close>: it keeps the set of local network addresses and reports changes
  that netlink messages announce; \<open>NetworkNotifier\<close> and \<open>Notifier\<close> of \<open>src/server/server.cpp\<close> turn reports into a reload. The USB
  notifier (\<open>src/zeroconf/hotplugnotifier.cpp\<close>) is at the end.

  A buffer is a list of bytes; pointers into it are offsets, and numbers are in the byte order of the machine, taken to be
  little endian. The macros of the netlink interface are modelled as the manual pages netlink(3) and rtnetlink(3)
  describe them: \<open>NLMSG_NEXT\<close> and \<open>RTA_NEXT\<close> return the next pointer and reduce the length.
\<close>

subsection \<open>Addresses and their order\<close>

datatype socket_address = Unspec | UnixSock string | In4 string string | In6 string string

fun sa_family :: "socket_address \<Rightarrow> nat" where
  "sa_family Unspec = 0"
| "sa_family (UnixSock _) = 1"
| "sa_family (In4 _ _) = 2"
| "sa_family (In6 _ _) = 10"

text \<open>\<open>memcmp\<close> on fields of the same size and \<open>strcmp\<close> compare bytes lexicographically.\<close>

definition memcmp :: "string \<Rightarrow> string \<Rightarrow> int" where
  "memcmp a b = (if a < b then - 1 else if b < a then 1 else 0)"

definition compareAddresses :: "socket_address \<Rightarrow> socket_address \<Rightarrow> bool" where
  "compareAddresses a b =
     (if sa_family a \<noteq> sa_family b then sa_family a < sa_family b
      else let cmp = (case (a, b) of (UnixSock p, UnixSock q) \<Rightarrow> memcmp p q | (In4 x p, In4 y q) \<Rightarrow> memcmp x y
                       | (In6 x p, In6 y q) \<Rightarrow> memcmp x y | _ \<Rightarrow> 0) in
           if cmp < 0 then True else if cmp > 0 then False
           else case (a, b) of (In4 x p, In4 y q) \<Rightarrow> memcmp p q < 0 | (In6 x p, In6 y q) \<Rightarrow> memcmp p q < 0 | _ \<Rightarrow> False)"

lemma compareAddresses_simps:
  "compareAddresses (In4 x p) (In4 y q) = (x < y \<or> x = y \<and> p < q)"
  "compareAddresses (In6 x p) (In6 y q) = (x < y \<or> x = y \<and> p < q)"
  "compareAddresses (UnixSock s) (UnixSock t) = (s < t)"
  by (auto simp: compareAddresses_def memcmp_def)

lemma compareAddresses_families:
  "sa_family a \<noteq> sa_family b \<Longrightarrow> compareAddresses a b = (sa_family a < sa_family b)" "\<not> compareAddresses Unspec Unspec"
  by (simp_all add: compareAddresses_def)

text \<open>The comparison makes the addresses a linear order, as \<open>std::set\<close> demands.\<close>

instantiation socket_address :: linorder
begin

definition less_socket_address :: "socket_address \<Rightarrow> socket_address \<Rightarrow> bool" where
  "less_socket_address a b = compareAddresses a b"

definition less_eq_socket_address :: "socket_address \<Rightarrow> socket_address \<Rightarrow> bool" where
  "less_eq_socket_address a b = (a = b \<or> compareAddresses a b)"

instance
proof
  fix a b c :: socket_address
  have irr: "\<not> compareAddresses a a" by (cases a) (simp_all add: compareAddresses_simps compareAddresses_families)
  have asym: "compareAddresses a b \<Longrightarrow> \<not> compareAddresses b a"
    by (cases a; cases b) (auto simp: compareAddresses_simps compareAddresses_families)
  have trans: "compareAddresses a b \<Longrightarrow> compareAddresses b c \<Longrightarrow> compareAddresses a c"
    by (cases a; cases b; cases c) (auto simp: compareAddresses_simps compareAddresses_families)
  show "a < b \<longleftrightarrow> a \<le> b \<and> \<not> b \<le> a"
    using irr asym by (auto simp: less_socket_address_def less_eq_socket_address_def)
  show "a \<le> a" by (simp add: less_eq_socket_address_def)
  show "a \<le> b \<Longrightarrow> b \<le> c \<Longrightarrow> a \<le> c" using trans by (auto simp: less_eq_socket_address_def)
  show "a \<le> b \<Longrightarrow> b \<le> a \<Longrightarrow> a = b" using asym by (auto simp: less_eq_socket_address_def)
  show "a \<le> b \<or> b \<le> a"
    by (cases a; cases b) (auto simp: less_eq_socket_address_def compareAddresses_simps compareAddresses_families)
qed

end

subsection \<open>The set of addresses\<close>

text \<open>What \<open>getifaddrs\<close> reports for an interface: no address, or an address, \<open>UnixSock\<close> standing for all other families.\<close>

definition ifa_address :: "socket_address option \<Rightarrow> socket_address" where
  "ifa_address p = (case p of Some (In4 x q) \<Rightarrow> In4 x q | Some (In6 x q) \<Rightarrow> In6 x q | _ \<Rightarrow> Unspec)"

definition initAddresses :: "socket_address option list option \<Rightarrow> socket_address list" where
  "initAddresses ifs = (case ifs of None \<Rightarrow> []
     | Some l \<Rightarrow> fold (\<lambda>p s. let a = ifa_address p in if a \<noteq> Unspec then insort_insert a s else s) l [])"

subsection \<open>Netlink messages\<close>

definition u8 :: "string \<Rightarrow> nat \<Rightarrow> int" where
  "u8 b p = (if p < length b then int (of_char (b ! p)) else 0)"

definition u16 :: "string \<Rightarrow> nat \<Rightarrow> int" where
  "u16 b p = u8 b p + 256 * u8 b (p + 1)"

definition u32 :: "string \<Rightarrow> nat \<Rightarrow> int" where
  "u32 b p = u16 b p + 65536 * u16 b (p + 2)"

definition field :: "string \<Rightarrow> nat \<Rightarrow> nat \<Rightarrow> string" where
  "field b p n = map (\<lambda>i. if p + i < length b then b ! (p + i) else CHR 0x00) [0..<n]"

definition align4 :: "int \<Rightarrow> int" where
  "align4 n = (n + 3) div 4 * 4"

definition nlmsg_len :: "string \<Rightarrow> nat \<Rightarrow> int" where "nlmsg_len b p = u32 b p"
definition nlmsg_type :: "string \<Rightarrow> nat \<Rightarrow> int" where "nlmsg_type b p = u16 b (p + 4)"
definition nlmsg_flags :: "string \<Rightarrow> nat \<Rightarrow> int" where "nlmsg_flags b p = u16 b (p + 6)"
definition rta_len :: "string \<Rightarrow> nat \<Rightarrow> int" where "rta_len b r = u16 b r"
definition rta_type :: "string \<Rightarrow> nat \<Rightarrow> int" where "rta_type b r = u16 b (r + 2)"

definition NLMSG_OK :: "string \<Rightarrow> nat \<Rightarrow> int \<Rightarrow> bool" where
  "NLMSG_OK b p len \<longleftrightarrow> len \<ge> 16 \<and> nlmsg_len b p \<ge> 16 \<and> nlmsg_len b p \<le> len"

definition NLMSG_NEXT :: "string \<Rightarrow> nat \<Rightarrow> int \<Rightarrow> nat \<times> int" where
  "NLMSG_NEXT b p len = (p + nat (align4 (nlmsg_len b p)), len - align4 (nlmsg_len b p))"

definition RTA_OK :: "string \<Rightarrow> nat \<Rightarrow> int \<Rightarrow> bool" where
  "RTA_OK b r len \<longleftrightarrow> len \<ge> 4 \<and> rta_len b r \<ge> 4 \<and> rta_len b r \<le> len"

definition RTA_NEXT :: "string \<Rightarrow> nat \<Rightarrow> int \<Rightarrow> nat \<times> int" where
  "RTA_NEXT b r len = (r + nat (align4 (rta_len b r)), len - align4 (rta_len b r))"

definition AF_INET :: int where "AF_INET = 2"
definition AF_INET6 :: int where "AF_INET6 = 10"
definition IFA_ADDRESS :: int where "IFA_ADDRESS = 1"
definition NLMSG_DONE :: int where "NLMSG_DONE = 3"
definition RTM_NEWADDR :: int where "RTM_NEWADDR = 20"
definition RTM_DELADDR :: int where "RTM_DELADDR = 21"
definition RTM_GETADDR :: int where "RTM_GETADDR = 22"
definition MSG_TRUNC :: int where "MSG_TRUNC = 0x20"

lemma align4_ge: "n \<le> align4 n"
  unfolding align4_def by presburger

text \<open>
  The loop over the attributes of a message of the given family. The pointer that \<open>RTA_NEXT\<close> returns is not used: the loop looks at
  the same attribute again while the length goes down.
\<close>

definition attr_address :: "string \<Rightarrow> int \<Rightarrow> nat \<Rightarrow> socket_address \<Rightarrow> socket_address" where
  "attr_address b family r a =
     (if family = AF_INET \<and> rta_type b r = IFA_ADDRESS then In4 (field b (r + 4) 4) [CHR 0x00, CHR 0x00]
      else if family = AF_INET6 \<and> rta_type b r = IFA_ADDRESS then In6 (field b (r + 4) 16) [CHR 0x00, CHR 0x00]
      else a)"

function attr_loop :: "string \<Rightarrow> int \<Rightarrow> nat \<Rightarrow> int \<Rightarrow> socket_address \<Rightarrow> socket_address" where
  "attr_loop b family r ifalen a =
     (if ifalen \<noteq> 0 \<and> RTA_OK b r ifalen
      then let (nx, ifalen') = RTA_NEXT b r ifalen in attr_loop b family r ifalen' (attr_address b family r a)
      else a)"
  by pat_completeness auto
termination
proof (relation "measure (\<lambda>(b, family, r, ifalen, a). nat ifalen)", goal_cases)
  case (2 b family r ifalen a x nx ifalen')
  then have "ifalen' = ifalen - align4 (rta_len b r)" "4 \<le> rta_len b r" "4 \<le> ifalen" by (auto simp: RTA_NEXT_def RTA_OK_def)
  with align4_ge[of "rta_len b r"] show ?case by simp
qed simp

declare attr_loop.simps [simp del]

datatype net_event = addressArrived | addressLeft | addressChange | other_event

text \<open>One message: the addresses that are known, and the events that were reported. \<open>ifaddrmsg\<close> has eight bytes.\<close>

type_synonym net_state = "socket_address list \<times> net_event list"

definition message_address :: "string \<Rightarrow> nat \<Rightarrow> socket_address" where
  "message_address b p = attr_loop b (u8 b (p + 16)) (p + 24) (nlmsg_len b p - 24) Unspec"

definition handle_message :: "string \<Rightarrow> nat \<Rightarrow> net_state \<Rightarrow> net_state" where
  "handle_message b p st = (case st of (addrs, evs) \<Rightarrow>
     if nlmsg_type b p \<in> {RTM_NEWADDR, RTM_DELADDR, RTM_GETADDR} \<and> message_address b p \<noteq> Unspec
     then if nlmsg_type b p = RTM_NEWADDR
          then (if message_address b p \<notin> set addrs then (insort_insert (message_address b p) addrs, evs @ [addressArrived]) else st)
          else if nlmsg_type b p = RTM_DELADDR then (remove1 (message_address b p) addrs, evs @ [addressLeft])
          else st
     else st)"

function msg_loop :: "string \<Rightarrow> nat \<Rightarrow> int \<Rightarrow> net_state \<Rightarrow> net_state" where
  "msg_loop b p len st =
     (if NLMSG_OK b p len \<and> nlmsg_type b p \<noteq> NLMSG_DONE
      then let (nx, len') = NLMSG_NEXT b p len in msg_loop b p len' (handle_message b p st)
      else st)"
  by pat_completeness auto
termination
proof (relation "measure (\<lambda>(b, p, len, st). nat len)", goal_cases)
  case (2 b p len st x nx len')
  then have "len' = len - align4 (nlmsg_len b p)" "16 \<le> nlmsg_len b p" "16 \<le> len" by (auto simp: NLMSG_NEXT_def NLMSG_OK_def)
  with align4_ge[of "nlmsg_len b p"] show ?case by simp
qed simp

declare msg_loop.simps [simp del]

definition on_netlink :: "string \<Rightarrow> int \<Rightarrow> net_state \<Rightarrow> net_state" where
  "on_netlink b len st = (if len > 0 \<and> nlmsg_flags b 0 AND MSG_TRUNC = 0 then msg_loop b 0 len st else st)"

text \<open>The thread: \<open>None\<close> when it is still waiting after the events.\<close>

datatype net_poll = NetTerminate | NetData string int | NetPollFailed

fun net_thread :: "net_poll list \<Rightarrow> net_state \<Rightarrow> net_state option" where
  "net_thread [] st = None"
| "net_thread (NetTerminate # evs) st = Some st"
| "net_thread (NetData b len # evs) st = net_thread evs (on_netlink b len st)"
| "net_thread (NetPollFailed # evs) st = net_thread evs st"

definition hotplugThread ::
  "bool \<Rightarrow> bool \<Rightarrow> socket_address option list option \<Rightarrow> net_poll list \<Rightarrow> net_state option" where
  "hotplugThread socket_ok bind_ok ifs evs =
     (if \<not> socket_ok \<or> \<not> bind_ok then Some ([], []) else net_thread evs (initAddresses ifs, []))"

text \<open>A reported change makes the server reload, after a delay.\<close>

definition onNetworkEvent :: "net_event \<Rightarrow> bool \<Rightarrow> int list \<Rightarrow> http_server \<Rightarrow> int list \<times> http_server" where
  "onNetworkEvent ev written pipe hs =
     (if ev = other_event then (pipe, hs) else let (ok, pipe', hs') = terminate written SIGHUP pipe hs in (pipe', hs'))"

subsection \<open>The USB notifier\<close>

datatype usb_event = deviceArrived | deviceLeft | other_usb

definition LIBUSB_HOTPLUG_EVENT_DEVICE_ARRIVED :: int where "LIBUSB_HOTPLUG_EVENT_DEVICE_ARRIVED = 1"
definition LIBUSB_HOTPLUG_EVENT_DEVICE_LEFT :: int where "LIBUSB_HOTPLUG_EVENT_DEVICE_LEFT = 2"
definition LIBUSB_ERROR_TIMEOUT :: int where "LIBUSB_ERROR_TIMEOUT = - 7"
definition LIBUSB_ERROR_INTERRUPTED :: int where "LIBUSB_ERROR_INTERRUPTED = - 10"

definition hotplugCallback :: "int \<Rightarrow> usb_event" where
  "hotplugCallback e = (if e = LIBUSB_HOTPLUG_EVENT_DEVICE_ARRIVED then deviceArrived
     else if e = LIBUSB_HOTPLUG_EVENT_DEVICE_LEFT then deviceLeft else other_usb)"

definition onHotplugEvent :: "usb_event \<Rightarrow> bool \<Rightarrow> int list \<Rightarrow> http_server \<Rightarrow> int list \<times> http_server" where
  "onHotplugEvent ev written pipe hs =
     (if ev = other_usb then (pipe, hs) else let (ok, pipe', hs') = terminate written SIGHUP pipe hs in (pipe', hs'))"

text \<open>
  The thread over the calls of \<open>libusb_handle_events\<close>: whether termination was requested before the call, the events it delivers to
  the callback and its result. \<open>None\<close> when the thread goes on after them.
\<close>

fun usb_thread :: "(bool \<times> int list \<times> int) list \<Rightarrow> usb_event list option" where
  "usb_thread [] = None"
| "usb_thread ((terminating, evs, err) # calls) =
     (if terminating then Some []
      else if err \<in> {0, LIBUSB_ERROR_INTERRUPTED, LIBUSB_ERROR_TIMEOUT}
      then map_option (\<lambda>r. map hotplugCallback evs @ r) (usb_thread calls)
      else Some (map hotplugCallback evs))"

subsection \<open>What the loops compute\<close>

lemma attr_address_idem: "attr_address b f r (attr_address b f r a) = attr_address b f r a"
  by (simp add: attr_address_def)

lemma attr_loop_first: "attr_loop b f r len a = (if len \<noteq> 0 \<and> RTA_OK b r len then attr_address b f r a else a)"
proof (induction b f r len a rule: attr_loop.induct)
  case (1 b f r len a)
  then show ?case
    by (subst attr_loop.simps) (auto simp: attr_address_idem Let_def split: prod.split)
qed

lemma msg_loop_iterates:
  "\<exists>k. msg_loop b p len st = (handle_message b p ^^ k) st \<and> (NLMSG_OK b p len \<and> nlmsg_type b p \<noteq> NLMSG_DONE \<longleftrightarrow> 0 < k)"
proof (induction b p len st rule: msg_loop.induct)
  case (1 b p len st)
  show ?case
  proof (cases "NLMSG_OK b p len \<and> nlmsg_type b p \<noteq> NLMSG_DONE")
    case True
    obtain nx len' where n: "NLMSG_NEXT b p len = (nx, len')" by fastforce
    obtain k where k: "msg_loop b p len' (handle_message b p st) = (handle_message b p ^^ k) (handle_message b p st)"
      using 1[OF True n[symmetric] refl] by blast
    have "msg_loop b p len st = (handle_message b p ^^ Suc k) st"
      using True n k by (subst msg_loop.simps) (simp add: funpow_swap1)
    with True show ?thesis by (intro exI[of _ "Suc k"]) simp
  next
    case False
    then show ?thesis by (intro exI[of _ 0]) (subst msg_loop.simps, auto)
  qed
qed

lemma msg_loop_cong:
  assumes "nlmsg_len b p = nlmsg_len b' p" "nlmsg_type b p = nlmsg_type b' p" "handle_message b p = handle_message b' p"
  shows "msg_loop b p len st = msg_loop b' p len st"
proof (induction "nat len" arbitrary: len st rule: less_induct)
  case less
  show ?case
  proof (cases "NLMSG_OK b p len \<and> nlmsg_type b p \<noteq> NLMSG_DONE")
    case True
    let ?len = "len - align4 (nlmsg_len b p)"
    have "16 \<le> nlmsg_len b p" "16 \<le> len" using True by (auto simp: NLMSG_OK_def)
    with align4_ge[of "nlmsg_len b p"] have "nat ?len < nat len" by simp
    from less[OF this] True assms show ?thesis
      by (subst (1 2) msg_loop.simps) (auto simp: NLMSG_OK_def NLMSG_NEXT_def)
  next
    case False
    with assms show ?thesis by (subst (1 2) msg_loop.simps) (auto simp: NLMSG_OK_def)
  qed
qed

text \<open>The first 44 bytes hold the header, the address message, and an attribute with sixteen bytes.\<close>

lemma first_message_bytes:
  assumes "take 44 b = take 44 b'"
  shows "nlmsg_len b 0 = nlmsg_len b' 0 \<and> nlmsg_type b 0 = nlmsg_type b' 0 \<and> nlmsg_flags b 0 = nlmsg_flags b' 0 \<and>
    handle_message b 0 = handle_message b' 0"
proof -
  have byte: "(p < length b) = (p < length b') \<and> (p < length b \<longrightarrow> b ! p = b' ! p)" if "p < 44" for p
    using that assms by (metis length_take min_less_iff_conj nth_take)
  have u: "u8 b p = u8 b' p" if "p < 44" for p using byte[OF that] by (auto simp: u8_def)
  have f: "field b 28 n = field b' 28 n" if "n \<le> 16" for n
    unfolding field_def by (rule map_cong[OF refl]) (use that byte in auto)
  have m: "nlmsg_len b 0 = nlmsg_len b' 0" "nlmsg_type b 0 = nlmsg_type b' 0" "nlmsg_flags b 0 = nlmsg_flags b' 0"
      "rta_len b 24 = rta_len b' 24" "rta_type b 24 = rta_type b' 24" "u8 b 16 = u8 b' 16"
    by (simp_all add: nlmsg_len_def nlmsg_type_def nlmsg_flags_def rta_len_def rta_type_def u32_def u16_def u)
  have a: "message_address b 0 = message_address b' 0"
    by (simp add: message_address_def attr_loop_first attr_address_def RTA_OK_def m f)
  have "handle_message b 0 = handle_message b' 0" unfolding handle_message_def m(2) a ..
  with m show ?thesis by simp
qed

text \<open>The invariant of the set: strictly sorted, without the unspecified address.\<close>

definition addresses_inv :: "socket_address list \<Rightarrow> bool" where
  "addresses_inv addrs \<longleftrightarrow> sorted_wrt (<) addrs \<and> Unspec \<notin> set addrs"

lemma addresses_inv_insert: "addresses_inv s \<Longrightarrow> a \<noteq> Unspec \<Longrightarrow> addresses_inv (insort_insert a s)"
  by (auto simp: addresses_inv_def strict_sorted_iff sorted_insort_insert distinct_insort insort_insert_key_def set_insort_key sorted_insort)

lemma addresses_inv_remove: "addresses_inv s \<Longrightarrow> addresses_inv (remove1 a s)"
  by (auto simp: addresses_inv_def strict_sorted_iff sorted_remove1 dest: notin_set_remove1)

lemma handle_message_inv: "addresses_inv (fst st) \<Longrightarrow> addresses_inv (fst (handle_message b p st))"
  by (auto simp: handle_message_def addresses_inv_insert addresses_inv_remove split: prod.split)

lemma msg_loop_inv: "addresses_inv (fst st) \<Longrightarrow> addresses_inv (fst (msg_loop b p len st))"
proof -
  assume "addresses_inv (fst st)"
  then have "addresses_inv (fst ((handle_message b p ^^ k) st))" for k by (induction k) (simp_all add: handle_message_inv)
  with msg_loop_iterates[of b p len st] show ?thesis by metis
qed

lemma net_thread_inv: "net_thread evs st = Some st' \<Longrightarrow> addresses_inv (fst st) \<Longrightarrow> addresses_inv (fst st')"
  by (induction evs st rule: net_thread.induct) (auto simp: on_netlink_def msg_loop_inv)

lemma initAddresses_inv: "addresses_inv (initAddresses ifs)"
proof -
  have "addresses_inv s \<Longrightarrow> addresses_inv (fold (\<lambda>p s. let a = ifa_address p in if a \<noteq> Unspec then insort_insert a s else s) l s)" for l s
    by (induction l arbitrary: s) (simp_all add: Let_def addresses_inv_insert)
  then show ?thesis by (simp add: initAddresses_def addresses_inv_def split: option.split)
qed

subsection \<open>Properties\<close>


text \<open>A new address is reported once. A netlink message that announces an address adds it to the set and reports its arrival when
  it was not known, and does nothing when it was, however often the loop comes back to the message.\<close>

theorem new_address_reported_once:
  assumes "NLMSG_OK b 0 len" "nlmsg_type b 0 = RTM_NEWADDR" "nlmsg_flags b 0 AND MSG_TRUNC = 0" "message_address b 0 \<noteq> Unspec"
  shows "on_netlink b len (addrs, evs) = (if message_address b 0 \<in> set addrs then (addrs, evs)
    else (insort_insert (message_address b 0) addrs, evs @ [addressArrived]))"
proof -
  let ?h = "handle_message b 0" and ?a = "message_address b 0"
  have h: "?h (addrs, evs) = (if ?a \<in> set addrs then (addrs, evs) else (insort_insert ?a addrs, evs @ [addressArrived]))" for addrs evs
    using assms(2,4) by (simp add: handle_message_def)
  have "(?h ^^ Suc k) (addrs, evs) = ?h (addrs, evs)" for k
  proof (induction k)
    case (Suc k)
    have "?h (?h (addrs, evs)) = ?h (addrs, evs)" by (auto simp: h set_insort_insert)
    with Suc show ?case by simp
  qed simp
  moreover obtain k where "msg_loop b 0 len (addrs, evs) = (?h ^^ k) (addrs, evs)" "0 < k"
    using msg_loop_iterates[of b 0 len "(addrs, evs)"] assms(1,2) by (auto simp: RTM_NEWADDR_def NLMSG_DONE_def)
  moreover have "0 < len" using assms(1) by (simp add: NLMSG_OK_def)
  ultimately show ?thesis using assms(3) h by (cases k) (simp_all add: on_netlink_def del: funpow.simps)
qed

text \<open>Only the first attribute of the first message counts. The result of the macros that move on to the next attribute and to the
  next message is dropped, so a message whose first attribute is not the address changes nothing, and what follows the
  first 44 bytes of a buffer, in particular every further message, has no effect at all.\<close>

theorem network_first_message_only:
  "(rta_type b 24 \<noteq> IFA_ADDRESS \<longrightarrow> on_netlink b len st = st) \<and> (take 44 b = take 44 b' \<longrightarrow> on_netlink b len st = on_netlink b' len st)"
proof
  have "handle_message b 0 st = st" if "rta_type b 24 \<noteq> IFA_ADDRESS" for st
    using that by (auto simp: handle_message_def message_address_def attr_loop_first attr_address_def split: prod.split)
  then have "(handle_message b 0 ^^ k) st = st" if "rta_type b 24 \<noteq> IFA_ADDRESS" for k
    using that by (induction k) simp_all
  with msg_loop_iterates[of b 0 len st] show "rta_type b 24 \<noteq> IFA_ADDRESS \<longrightarrow> on_netlink b len st = st"
    by (auto simp: on_netlink_def)
  show "take 44 b = take 44 b' \<longrightarrow> on_netlink b len st = on_netlink b' len st"
    using first_message_bytes[of b b'] msg_loop_cong[of b 0 b'] by (simp add: on_netlink_def)
qed

theorem network_first_message_only_witness:
  "on_netlink (replicate 44 (CHR 0x00) @ ''more'') 48 ([], []) = on_netlink (replicate 44 (CHR 0x00)) 48 ([], [])"
  using network_first_message_only[of "replicate 44 (CHR 0x00) @ ''more''" 48 "([], [])" "replicate 44 (CHR 0x00)"] by simp

text \<open>A message that announces 10.0.0.5.\<close>

definition sim_newaddr :: string where
  "sim_newaddr = map char_of [32 :: nat, 0, 0, 0, 20, 0, 0, 0, 0, 0, 0, 0, 0, 0, 0, 0, 2, 24, 0, 0, 1, 0, 0, 0, 8, 0, 1, 0, 10, 0, 0, 5]"

theorem new_address_reported_once_witness:
  "on_netlink sim_newaddr 32 ([], []) = ([In4 (map char_of [10 :: nat, 0, 0, 5]) [CHR 0x00, CHR 0x00]], [addressArrived])"
proof -
  have "NLMSG_OK sim_newaddr 0 32" "nlmsg_type sim_newaddr 0 = RTM_NEWADDR" "nlmsg_flags sim_newaddr 0 AND MSG_TRUNC = 0"
    by code_simp+
  moreover have a: "message_address sim_newaddr 0 = In4 (map char_of [10 :: nat, 0, 0, 5]) [CHR 0x00, CHR 0x00]" by code_simp
  ultimately show ?thesis using new_address_reported_once[of sim_newaddr 32 "[]" "[]"] by (simp add: insort_insert_key_def)
qed


end
