(* ===== verification/MdnsPublisher.thy ===== *)
theory MdnsPublisher
  imports Server
begin

text \<open>
  The mDNS publisher on Avahi, \<open>src/zeroconf/mdnspublisher-avahi.cpp\<close>: a client connection and a list of service entries, each of which
  holds at most one entry group of the Avahi library.

  The library is an argument with a state of its own, which the operations thread through. \<open>avahi_client_new\<close> calls the callback of the client once before it returns, with the state in which the
  client starts; this state is part of its result. Callbacks run under the lock of the Avahi thread, so operations do not
  interleave.
\<close>

subsection \<open>The library\<close>

datatype client_state = S_REGISTERING | S_RUNNING | S_COLLISION | CL_FAILURE | CONNECTING

datatype group_state = G_UNCOMMITED | G_REGISTERING | G_ESTABLISHED | G_COLLISION | G_FAILURE

definition AVAHI_ERR_FAILURE :: int where "AVAHI_ERR_FAILURE = - 1"
definition AVAHI_ERR_COLLISION :: int where "AVAHI_ERR_COLLISION = - 8"
definition AVAHI_ERR_DISCONNECTED :: int where "AVAHI_ERR_DISCONNECTED = - 23"

record 'a avahi_lib =
  av_group_new :: "nat \<Rightarrow> 'a \<Rightarrow> 'a \<times> nat option"
  av_client_errno :: "'a \<Rightarrow> int"
  av_add_service :: "nat \<Rightarrow> service \<Rightarrow> 'a \<Rightarrow> 'a \<times> int"
  av_group_commit :: "nat \<Rightarrow> 'a \<Rightarrow> 'a \<times> int"
  av_update_txt :: "nat \<Rightarrow> service \<Rightarrow> 'a \<Rightarrow> 'a \<times> int"
  av_group_free :: "nat \<Rightarrow> 'a \<Rightarrow> 'a"
  av_alternative_name :: "string \<Rightarrow> string"
  av_client_new :: "'a \<Rightarrow> 'a \<times> client_state \<times> nat option"
  av_client_free :: "nat \<Rightarrow> 'a \<Rightarrow> 'a"
  av_host_name_fqdn :: "nat \<Rightarrow> 'a \<Rightarrow> string option"

subsection \<open>Service entries\<close>

text \<open>An entry has the identity of its service, which is a pointer in the code, the service, and its group.\<close>

record service_entry =
  en_id :: nat
  en_service :: service
  en_group :: "nat option"

definition entry_unannounce :: "'a avahi_lib \<Rightarrow> service_entry \<Rightarrow> 'a \<Rightarrow> service_entry \<times> 'a" where
  "entry_unannounce lib e w = (case en_group e of None \<Rightarrow> (e, w) | Some g \<Rightarrow> (e\<lparr>en_group := None\<rparr>, av_group_free lib g w))"

definition renameService :: "'a avahi_lib \<Rightarrow> service_entry \<Rightarrow> service_entry" where
  "renameService lib e = e\<lparr>en_service := (en_service e)\<lparr>srv_name := av_alternative_name lib (srv_name (en_service e))\<rparr>\<rparr>"

definition doAnnounce ::
  "'a avahi_lib \<Rightarrow> nat option \<Rightarrow> service_entry \<Rightarrow> 'a \<Rightarrow> int \<times> service_entry \<times> 'a" where
  "doAnnounce lib client e w = (case client of None \<Rightarrow> (AVAHI_ERR_FAILURE, e, w)
     | Some c \<Rightarrow>
         let w1 = (case en_group e of None \<Rightarrow> w | Some g \<Rightarrow> av_group_free lib g w);
             (w2, group) = av_group_new lib c w1;
             e1 = e\<lparr>en_group := group\<rparr>
         in (case group of None \<Rightarrow> (av_client_errno lib w2, e1, w2)
             | Some g \<Rightarrow>
                 let (w3, err) = av_add_service lib g (en_service e) w2;
                     (w4, err2) = (if err = 0 then av_group_commit lib g w3 else (w3, err));
                     (w5, err3) = (if err2 = 0 then av_update_txt lib g (en_service e) w4 else (w4, err2))
                 in (err3, e1, w5)))"

text \<open>The loop tries names until one does not collide; \<open>None\<close> when that never happens.\<close>

partial_function (option) announce_loop ::
  "'a avahi_lib \<Rightarrow> nat option \<Rightarrow> service_entry \<Rightarrow> 'a \<Rightarrow> (int \<times> service_entry \<times> 'a) option" where
  "announce_loop lib client e w =
     (case doAnnounce lib client e w of (err, e1, w1) \<Rightarrow>
        if err = AVAHI_ERR_COLLISION then announce_loop lib client (renameService lib e1) w1 else Some (err, e1, w1))"

definition entry_announce ::
  "'a avahi_lib \<Rightarrow> nat option \<Rightarrow> service_entry \<Rightarrow> 'a \<Rightarrow> (bool \<times> service_entry \<times> 'a) option" where
  "entry_announce lib client e w =
     (case entry_unannounce lib e w of (e1, w1) \<Rightarrow>
        map_option (\<lambda>(err, e2, w2). (err = 0, e2, w2)) (announce_loop lib client e1 w1))"

definition entryGroupCallback ::
  "'a avahi_lib \<Rightarrow> nat option \<Rightarrow> group_state \<Rightarrow> service_entry \<Rightarrow> 'a \<Rightarrow> (service_entry \<times> 'a) option" where
  "entryGroupCallback lib client state e w =
     (if state = G_COLLISION
      then map_option (\<lambda>(ok, e', w'). (e', w')) (entry_announce lib client (renameService lib e) w)
      else if state = G_FAILURE then Some (entry_unannounce lib e w)
      else Some (e, w))"

subsection \<open>The publisher\<close>

record publisher =
  pb_client :: "nat option"
  pb_state :: client_state
  pb_hostnameFqdn :: string
  pb_hostname :: string
  pb_services :: "service_entry list"

fun announce_all ::
  "'a avahi_lib \<Rightarrow> nat option \<Rightarrow> service_entry list \<Rightarrow> 'a \<Rightarrow> (service_entry list \<times> 'a) option" where
  "announce_all lib client [] w = Some ([], w)"
| "announce_all lib client (e # es) w =
     (case entry_announce lib client e w of None \<Rightarrow> None
      | Some (ok, e', w1) \<Rightarrow> map_option (\<lambda>(es', w2). (e' # es', w2)) (announce_all lib client es w1))"

fun unannounce_all :: "'a avahi_lib \<Rightarrow> service_entry list \<Rightarrow> 'a \<Rightarrow> service_entry list \<times> 'a" where
  "unannounce_all lib [] w = ([], w)"
| "unannounce_all lib (e # es) w =
     (let (e', w1) = entry_unannounce lib e w; (es', w2) = unannounce_all lib es w1 in (e' # es', w2))"

definition onConnected :: "'a avahi_lib \<Rightarrow> publisher \<Rightarrow> 'a \<Rightarrow> (publisher \<times> 'a) option" where
  "onConnected lib pb w =
     map_option (\<lambda>(es, w'). (pb\<lparr>pb_services := es\<rparr>, w')) (announce_all lib (pb_client pb) (pb_services pb) w)"

definition destroyClient :: "'a avahi_lib \<Rightarrow> publisher \<Rightarrow> 'a \<Rightarrow> publisher \<times> 'a" where
  "destroyClient lib pb w = (case pb_client pb of None \<Rightarrow> (pb, w)
     | Some c \<Rightarrow> let (es, w1) = unannounce_all lib (pb_services pb) w
         in (pb\<lparr>pb_services := es, pb_client := None\<rparr>, av_client_free lib c w1))"

text \<open>The callback of the client in a state that is not a failure.\<close>

definition state_callback :: "'a avahi_lib \<Rightarrow> client_state \<Rightarrow> publisher \<Rightarrow> 'a \<Rightarrow> (publisher \<times> 'a) option" where
  "state_callback lib state pb w =
     map_option (\<lambda>(pb', w'). (pb'\<lparr>pb_state := state\<rparr>, w'))
       (if pb_state pb = CONNECTING \<and> state \<in> {S_COLLISION, S_REGISTERING, S_RUNNING} then onConnected lib pb w else Some (pb, w))"

definition set_client :: "'a avahi_lib \<Rightarrow> nat option \<Rightarrow> 'a \<Rightarrow> publisher \<Rightarrow> publisher" where
  "set_client lib client w pb = (case client of None \<Rightarrow> pb\<lparr>pb_client := None\<rparr>
     | Some c \<Rightarrow> (case av_host_name_fqdn lib c w of None \<Rightarrow> pb\<lparr>pb_client := Some c\<rparr>
         | Some name \<Rightarrow> pb\<lparr>pb_client := Some c, pb_hostnameFqdn := name,
               pb_hostname := (case find_str ''.'' name of None \<Rightarrow> name | Some pos \<Rightarrow> take pos name)\<rparr>))"

definition createClient :: "'a avahi_lib \<Rightarrow> publisher \<Rightarrow> 'a \<Rightarrow> (publisher \<times> 'a) option" where
  "createClient lib pb w =
     (let (pb1, w1) = destroyClient lib pb w; (s, state, client) = av_client_new lib w1 in
      map_option (\<lambda>(pb2, w2). (set_client lib client w2 pb2, w2)) (state_callback lib state pb1 s))"

definition onDisconnected :: "'a avahi_lib \<Rightarrow> publisher \<Rightarrow> 'a \<Rightarrow> (publisher \<times> 'a) option" where
  "onDisconnected lib pb w = (case destroyClient lib pb w of (pb1, w1) \<Rightarrow> createClient lib pb1 w1)"

definition onError :: "'a avahi_lib \<Rightarrow> publisher \<Rightarrow> 'a \<Rightarrow> publisher \<times> 'a" where
  "onError lib pb w = destroyClient lib pb w"

definition clientCallback ::
  "'a avahi_lib \<Rightarrow> client_state \<Rightarrow> int \<Rightarrow> publisher \<Rightarrow> 'a \<Rightarrow> (publisher \<times> 'a) option" where
  "clientCallback lib state err pb w =
     (if state = CL_FAILURE
      then if err = AVAHI_ERR_DISCONNECTED
           then map_option (\<lambda>(pb', w'). (pb'\<lparr>pb_state := state\<rparr>, w')) (onDisconnected lib pb w)
           else Some (case onError lib pb w of (pb1, w1) \<Rightarrow> (pb1\<lparr>pb_state := state\<rparr>, w1))
      else state_callback lib state pb w)"

definition publisher_init :: "'a avahi_lib \<Rightarrow> 'a \<Rightarrow> (publisher \<times> 'a) option" where
  "publisher_init lib w =
     createClient lib \<lparr>pb_client = None, pb_state = CONNECTING, pb_hostnameFqdn = [], pb_hostname = [], pb_services = []\<rparr> w"

definition findService :: "nat \<Rightarrow> publisher \<Rightarrow> service_entry option" where
  "findService i pb = find (\<lambda>e. en_id e = i) (pb_services pb)"

definition publisher_announce ::
  "'a avahi_lib \<Rightarrow> nat \<Rightarrow> service \<Rightarrow> publisher \<Rightarrow> 'a \<Rightarrow> (bool \<times> publisher \<times> 'a) option" where
  "publisher_announce lib i s pb w = (if findService i pb \<noteq> None then Some (True, pb, w)
     else map_option (\<lambda>(ok, e, w'). (ok, pb\<lparr>pb_services := pb_services pb @ [e]\<rparr>, w'))
            (entry_announce lib (pb_client pb) \<lparr>en_id = i, en_service = s, en_group = None\<rparr> w))"

fun unannounce_first :: "'a avahi_lib \<Rightarrow> nat \<Rightarrow> service_entry list \<Rightarrow> 'a \<Rightarrow> bool \<times> service_entry list \<times> 'a" where
  "unannounce_first lib i [] w = (False, [], w)"
| "unannounce_first lib i (e # es) w =
     (if en_id e = i then (let (e', w') = entry_unannounce lib e w in (True, es, w'))
      else let (ok, es', w') = unannounce_first lib i es w in (ok, e # es', w'))"

definition publisher_unannounce :: "'a avahi_lib \<Rightarrow> nat \<Rightarrow> publisher \<Rightarrow> 'a \<Rightarrow> bool \<times> publisher \<times> 'a" where
  "publisher_unannounce lib i pb w =
     (let (ok, es, w') = unannounce_first lib i (pb_services pb) w in (ok, pb\<lparr>pb_services := es\<rparr>, w'))"

subsection \<open>Entry groups\<close>

text \<open>
  What the library promises about entry groups: \<open>live\<close> is the set of groups that exist. A new group did not exist before, freeing a
  group removes it, and nothing else creates or removes groups.
\<close>

definition avahi_laws :: "'a avahi_lib \<Rightarrow> ('a \<Rightarrow> nat set) \<Rightarrow> bool" where
  "avahi_laws lib live \<longleftrightarrow>
     (\<forall>c s. case av_group_new lib c s of (s', None) \<Rightarrow> live s' = live s | (s', Some g) \<Rightarrow> g \<notin> live s \<and> live s' = insert g (live s)) \<and>
     (\<forall>g s. live (av_group_free lib g s) = live s - {g}) \<and>
     (\<forall>g v s. live (fst (av_add_service lib g v s)) = live s) \<and> (\<forall>g s. live (fst (av_group_commit lib g s)) = live s) \<and>
     (\<forall>g v s. live (fst (av_update_txt lib g v s)) = live s) \<and> (\<forall>s. live (fst (av_client_new lib s)) = live s) \<and>
     (\<forall>c s. live (av_client_free lib c s) = live s)"

text \<open>The groups that exist are those of others, \<open>F\<close>, and the one the entry holds.\<close>

definition owns :: "('a \<Rightarrow> nat set) \<Rightarrow> nat set \<Rightarrow> service_entry \<Rightarrow> 'a \<Rightarrow> bool" where
  "owns live F e s \<longleftrightarrow> live s = F \<union> set_option (en_group e) \<and> set_option (en_group e) \<inter> F = {}"

definition groups :: "service_entry list \<Rightarrow> nat list" where
  "groups es = concat (map (\<lambda>e. case en_group e of None \<Rightarrow> [] | Some g \<Rightarrow> [g]) es)"

definition owns_all :: "('a \<Rightarrow> nat set) \<Rightarrow> nat set \<Rightarrow> service_entry list \<Rightarrow> 'a \<Rightarrow> bool" where
  "owns_all live F es s \<longleftrightarrow> live s = F \<union> set (groups es) \<and> distinct (groups es) \<and> set (groups es) \<inter> F = {}"

lemma groups_simps [simp]:
  "groups [] = []" "groups (e # es) = (case en_group e of None \<Rightarrow> [] | Some g \<Rightarrow> [g]) @ groups es" "groups (es @ fs) = groups es @ groups fs"
  by (simp_all add: groups_def)

lemma owns_all_Cons:
  "owns_all live F (e # es) s \<longleftrightarrow> owns live (F \<union> set (groups es)) e s \<and> distinct (groups es) \<and> set (groups es) \<inter> F = {}"
  by (cases "en_group e") (auto simp: owns_all_def owns_def)

lemma owns_all_Cons':
  "owns_all live F (e # es) s \<longleftrightarrow> owns_all live (F \<union> set_option (en_group e)) es s \<and> set_option (en_group e) \<inter> F = {}"
  by (cases "en_group e") (auto simp: owns_all_def)

lemma entry_unannounce_owns:
  assumes "avahi_laws lib live" "owns live F e s" "entry_unannounce lib e s = (e', s')"
  shows "owns live F e' s' \<and> en_group e' = None \<and> en_id e' = en_id e \<and> en_service e' = en_service e"
  using assms by (auto simp: entry_unannounce_def owns_def avahi_laws_def split: option.splits)

lemma renameService_keeps [simp]: "en_group (renameService lib e) = en_group e" "en_id (renameService lib e) = en_id e"
  by (simp_all add: renameService_def)

lemma owns_rename [simp]: "owns live F (renameService lib e) s = owns live F e s"
  by (simp add: owns_def)

lemma avahi_new:
  assumes "avahi_laws lib live" "av_group_new lib c s = (s', gr)"
  shows "live s' = live s \<union> set_option gr \<and> set_option gr \<inter> live s = {}"
proof -
  have "case av_group_new lib c s of (s', None) \<Rightarrow> live s' = live s | (s', Some g) \<Rightarrow> g \<notin> live s \<and> live s' = insert g (live s)"
    using assms(1) by (simp add: avahi_laws_def)
  with assms(2) show ?thesis by (cases gr) auto
qed

lemma avahi_calls:
  assumes "avahi_laws lib live"
  shows "live (av_group_free lib g s) = live s - {g}" "live (av_client_free lib c s) = live s"
    "av_add_service lib g v s = (s', err) \<Longrightarrow> live s' = live s" "av_group_commit lib g s = (s', err) \<Longrightarrow> live s' = live s"
    "av_update_txt lib g v s = (s', err) \<Longrightarrow> live s' = live s" "av_client_new lib s = (s', st, cl) \<Longrightarrow> live s' = live s"
  using assms unfolding avahi_laws_def by (simp, simp, metis fst_conv, metis fst_conv, metis fst_conv, metis fst_conv)

lemma doAnnounce_owns:
  assumes l: "avahi_laws lib live" and o: "owns live F e s" and d: "doAnnounce lib client e s = (err, e', s')"
  shows "owns live F e' s' \<and> en_id e' = en_id e"
proof (cases client)
  case None
  with o d show ?thesis by (simp add: doAnnounce_def)
next
  case (Some c)
  define s1 where "s1 = (case en_group e of None \<Rightarrow> s | Some g \<Rightarrow> av_group_free lib g s)"
  have s1: "live s1 = F" using avahi_calls(1)[OF l] o by (auto simp: s1_def owns_def split: option.split)
  obtain s2 gr where g: "av_group_new lib c s1 = (s2, gr)" by fastforce
  have s2: "live s2 = F \<union> set_option gr" "set_option gr \<inter> F = {}" using avahi_new[OF l g] s1 by auto
  show ?thesis
  proof (cases gr)
    case None
    with d g Some s2 show ?thesis by (auto simp: doAnnounce_def owns_def s1_def[symmetric] Let_def)
  next
    case (Some h)
    obtain s3 err1 where a: "av_add_service lib h (en_service e) s2 = (s3, err1)" by fastforce
    obtain s4 err2 where co: "(if err1 = 0 then av_group_commit lib h s3 else (s3, err1)) = (s4, err2)" by fastforce
    obtain s5 err3 where u: "(if err2 = 0 then av_update_txt lib h (en_service e) s4 else (s4, err2)) = (s5, err3)" by fastforce
    have "live s3 = live s2" using avahi_calls(3)[OF l a] .
    moreover have "live s4 = live s3" using avahi_calls(4)[OF l, of h s3] co by (auto split: if_splits)
    moreover have "live s5 = live s4" using avahi_calls(5)[OF l, of h "en_service e" s4] u by (auto split: if_splits)
    moreover have "e' = e\<lparr>en_group := Some h\<rparr>" "s' = s5"
      using d unfolding doAnnounce_def \<open>client = Some c\<close> option.case s1_def[symmetric] Let_def g Some prod.case a co u by simp_all
    ultimately show ?thesis using s2 Some by (simp add: owns_def)
  qed
qed

lemma announce_loop_owns:
  assumes "announce_loop lib client e s = Some y" "avahi_laws lib live" "owns live F e s"
  shows "owns live F (fst (snd y)) (snd (snd y)) \<and> en_id (fst (snd y)) = en_id e \<and> fst y \<noteq> AVAHI_ERR_COLLISION"
  using assms
proof (induction rule: announce_loop.raw_induct[rotated, consumes 1, case_names 1])
  case (1 f lib client e s y)
  obtain err e1 s1 where d: "doAnnounce lib client e s = (err, e1, s1)" by (metis prod_cases3)
  note o = doAnnounce_owns[OF "1.prems" d]
  show ?case
  proof (cases "err = AVAHI_ERR_COLLISION")
    case True
    with "1.hyps" d have "f lib client (renameService lib e1) s1 = Some y" by simp
    from "1.IH"[OF this "1.prems"(1)] o show ?thesis by simp
  next
    case False
    with "1.hyps" d o show ?thesis by auto
  qed
qed

lemma entry_announce_owns:
  assumes "entry_announce lib client e s = Some (ok, e', s')" "avahi_laws lib live" "owns live F e s"
  shows "owns live F e' s' \<and> en_id e' = en_id e"
proof -
  obtain e1 s1 where u: "entry_unannounce lib e s = (e1, s1)" by fastforce
  from assms(1) u obtain err where "announce_loop lib client e1 s1 = Some (err, e', s')" by (auto simp: entry_announce_def)
  from announce_loop_owns[OF this assms(2)] entry_unannounce_owns[OF assms(2,3) u] show ?thesis by auto
qed

lemma announce_all_owns:
  assumes "announce_all lib client es s = Some (es', s')" "avahi_laws lib live" "owns_all live F es s"
  shows "owns_all live F es' s' \<and> map en_id es' = map en_id es"
  using assms
proof (induction es arbitrary: es' s s' F)
  case (Cons e es)
  from Cons.prems(1) obtain ok e1 s1 es1 where a: "entry_announce lib client e s = Some (ok, e1, s1)"
      "announce_all lib client es s1 = Some (es1, s')" "es' = e1 # es1"
    by (auto split: option.splits)
  have o: "owns live (F \<union> set (groups es)) e s" "distinct (groups es)" "set (groups es) \<inter> F = {}"
    using Cons.prems(3) by (simp_all add: owns_all_Cons)
  from entry_announce_owns[OF a(1) Cons.prems(2) o(1)] o(2,3)
  have e1: "owns_all live (F \<union> set_option (en_group e1)) es s1" "set_option (en_group e1) \<inter> F = {}" "en_id e1 = en_id e"
    by (auto simp: owns_def owns_all_def)
  from Cons.IH[OF a(2) Cons.prems(2) e1(1)] e1 a(3) show ?case by (simp add: owns_all_Cons')
qed simp

lemma unannounce_all_owns:
  assumes "unannounce_all lib es s = (es', s')" "avahi_laws lib live" "owns_all live F es s"
  shows "live s' = F \<and> groups es' = [] \<and> map en_id es' = map en_id es"
  using assms
proof (induction es arbitrary: es' s s')
  case (Cons e es)
  obtain e1 s1 where u: "entry_unannounce lib e s = (e1, s1)" by fastforce
  obtain es1 s2 where v: "unannounce_all lib es s1 = (es1, s2)" by fastforce
  have o: "owns live (F \<union> set (groups es)) e s" "distinct (groups es)" "set (groups es) \<inter> F = {}"
    using Cons.prems(3) by (simp_all add: owns_all_Cons)
  note e1 = entry_unannounce_owns[OF Cons.prems(2) o(1) u]
  then have "owns_all live F es s1" using o(2,3) by (auto simp: owns_def owns_all_def)
  from Cons.IH[OF v Cons.prems(2) this] e1 u v Cons.prems(1) show ?case by auto
qed (simp add: owns_all_def)

subsection \<open>The publisher as a state machine\<close>

text \<open>
  What may happen to a publisher: the server announces or withdraws a service, the library reports a new state of the client, or of the
  group of an entry that has one.
\<close>

inductive publisher_step :: "'a avahi_lib \<Rightarrow> publisher \<times> 'a \<Rightarrow> publisher \<times> 'a \<Rightarrow> bool" for lib where
  announce: "publisher_announce lib i v pb s = Some (ok, pb', s') \<Longrightarrow> publisher_step lib (pb, s) (pb', s')"
| unannounce: "publisher_unannounce lib i pb s = (ok, pb', s') \<Longrightarrow> publisher_step lib (pb, s) (pb', s')"
| client: "clientCallback lib st err pb s = Some (pb', s') \<Longrightarrow> publisher_step lib (pb, s) (pb', s')"
| group: "k < length (pb_services pb) \<Longrightarrow> en_group (pb_services pb ! k) \<noteq> None \<Longrightarrow>
    entryGroupCallback lib (pb_client pb) st (pb_services pb ! k) s = Some (e, s') \<Longrightarrow>
    publisher_step lib (pb, s) (pb\<lparr>pb_services := (pb_services pb)[k := e]\<rparr>, s')"

inductive publisher_reachable :: "'a avahi_lib \<Rightarrow> 'a \<Rightarrow> publisher \<times> 'a \<Rightarrow> bool" for lib s0 where
  init: "publisher_init lib s0 = Some ps \<Longrightarrow> publisher_reachable lib s0 ps"
| step: "publisher_reachable lib s0 ps \<Longrightarrow> publisher_step lib ps qs \<Longrightarrow> publisher_reachable lib s0 qs"

definition publisher_inv :: "('a \<Rightarrow> nat set) \<Rightarrow> publisher \<times> 'a \<Rightarrow> bool" where
  "publisher_inv live ps \<longleftrightarrow> owns_all live {} (pb_services (fst ps)) (snd ps) \<and> distinct (map en_id (pb_services (fst ps)))"

lemma state_callback_inv:
  assumes "state_callback lib st pb s = Some (pb', s')" "avahi_laws lib live" "publisher_inv live (pb, s)"
  shows "publisher_inv live (pb', s')"
proof -
  from assms(1) obtain pb1 where p: "(if pb_state pb = CONNECTING \<and> st \<in> {S_COLLISION, S_REGISTERING, S_RUNNING} then onConnected lib pb s
      else Some (pb, s)) = Some (pb1, s')" "pb' = pb1\<lparr>pb_state := st\<rparr>"
    unfolding state_callback_def map_option_eq_Some by auto
  show ?thesis
  proof (cases "pb_state pb = CONNECTING \<and> st \<in> {S_COLLISION, S_REGISTERING, S_RUNNING}")
    case True
    with p(1) have "onConnected lib pb s = Some (pb1, s')" by simp
    then obtain es where a: "announce_all lib (pb_client pb) (pb_services pb) s = Some (es, s')" "pb1 = pb\<lparr>pb_services := es\<rparr>"
      by (auto simp: onConnected_def)
    from announce_all_owns[OF a(1) assms(2)] assms(3) a(2) p(2) show ?thesis by (auto simp: publisher_inv_def)
  next
    case False
    then have "(if pb_state pb = CONNECTING \<and> st \<in> {S_COLLISION, S_REGISTERING, S_RUNNING} then onConnected lib pb s
      else Some (pb, s)) = Some (pb, s)" by (rule if_not_P)
    with p assms(3) show ?thesis by (simp add: publisher_inv_def)
  qed
qed

lemma destroyClient_inv:
  assumes "destroyClient lib pb s = (pb', s')" "avahi_laws lib live" "publisher_inv live (pb, s)"
  shows "publisher_inv live (pb', s')"
proof (cases "pb_client pb")
  case (Some c)
  obtain es s1 where u: "unannounce_all lib (pb_services pb) s = (es, s1)" by fastforce
  with assms(1) Some have "pb' = pb\<lparr>pb_services := es, pb_client := None\<rparr>" "s' = av_client_free lib c s1" by (simp_all add: destroyClient_def)
  moreover have "owns_all live {} (pb_services pb) s" using assms(3) by (simp add: publisher_inv_def)
  from unannounce_all_owns[OF u assms(2) this] have "live s1 = {}" "groups es = []" "map en_id es = map en_id (pb_services pb)" by simp_all
  moreover have "live (av_client_free lib c s1) = live s1" by (rule avahi_calls(2)[OF assms(2)])
  ultimately show ?thesis using assms(3) by (simp add: publisher_inv_def owns_all_def)
qed (use assms in \<open>simp add: destroyClient_def\<close>)

lemma set_client_keeps [simp]: "pb_services (set_client lib cl w pb) = pb_services pb" "pb_state (set_client lib cl w pb) = pb_state pb"
  by (simp_all add: set_client_def split: option.split)

lemma createClient_inv:
  assumes "createClient lib pb s = Some (pb', s')" "avahi_laws lib live" "publisher_inv live (pb, s)"
  shows "publisher_inv live (pb', s')"
proof -
  obtain pb1 s1 where d: "destroyClient lib pb s = (pb1, s1)" by fastforce
  obtain s2 st cl where n: "av_client_new lib s1 = (s2, st, cl)" by (metis prod_cases3)
  from assms(1) d n obtain pb2 where c: "state_callback lib st pb1 s2 = Some (pb2, s')" "pb_services pb' = pb_services pb2"
    by (auto simp: createClient_def)
  have "publisher_inv live (pb1, s2)"
    using destroyClient_inv[OF d assms(2,3)] avahi_calls(6)[OF assms(2) n] by (simp add: publisher_inv_def owns_all_def)
  from state_callback_inv[OF c(1) assms(2) this] c(2) show ?thesis by (simp add: publisher_inv_def)
qed

lemma clientCallback_inv:
  assumes "clientCallback lib st err pb s = Some (pb', s')" "avahi_laws lib live" "publisher_inv live (pb, s)"
  shows "publisher_inv live (pb', s')"
proof (cases "st = CL_FAILURE")
  case False
  with assms(1) have "state_callback lib st pb s = Some (pb', s')" by (simp add: clientCallback_def onDisconnected_def onError_def)
  from state_callback_inv[OF this assms(2,3)] show ?thesis .
next
  case True
  obtain pb1 s1 where d: "destroyClient lib pb s = (pb1, s1)" by fastforce
  note i = destroyClient_inv[OF d assms(2,3)]
  show ?thesis
  proof (cases "err = AVAHI_ERR_DISCONNECTED")
    case e: True
    with True assms(1) d obtain pb2 where "createClient lib pb1 s1 = Some (pb2, s')" "pb' = pb2\<lparr>pb_state := st\<rparr>"
      by (auto simp: clientCallback_def onDisconnected_def onError_def)
    with createClient_inv[OF _ assms(2) i] show ?thesis by (simp add: publisher_inv_def)
  next
    case e: False
    with True assms(1) d have "pb' = pb1\<lparr>pb_state := st\<rparr>" "s' = s1" by (simp_all add: clientCallback_def onDisconnected_def onError_def)
    with i show ?thesis by (simp add: publisher_inv_def)
  qed
qed

lemma owns_nth:
  assumes "k < length es"
  shows "owns_all live {} es s \<longleftrightarrow> owns live (set (groups (take k es @ drop (Suc k) es))) (es ! k) s \<and> distinct (groups (take k es @ drop (Suc k) es))"
proof -
  have "groups es = groups (take k es) @ (case en_group (es ! k) of None \<Rightarrow> [] | Some g \<Rightarrow> [g]) @ groups (drop (Suc k) es)"
    using id_take_nth_drop[OF assms] groups_simps(2,3) by metis
  then show ?thesis by (cases "en_group (es ! k)") (auto simp: owns_all_def owns_def)
qed

lemma entryGroupCallback_owns:
  assumes "entryGroupCallback lib client st e s = Some (e', s')" "avahi_laws lib live" "owns live F e s"
  shows "owns live F e' s' \<and> en_id e' = en_id e"
proof (cases "st = G_COLLISION")
  case True
  with assms(1) obtain ok where "entry_announce lib client (renameService lib e) s = Some (ok, e', s')"
    by (auto simp: entryGroupCallback_def)
  from entry_announce_owns[OF this assms(2)] assms(3) show ?thesis by simp
next
  case False
  show ?thesis
  proof (cases "st = G_FAILURE")
    case True
    with assms(1) have "entry_unannounce lib e s = (e', s')" by (simp add: entryGroupCallback_def)
    from entry_unannounce_owns[OF assms(2,3) this] show ?thesis by simp
  qed (use False assms in \<open>simp add: entryGroupCallback_def\<close>)
qed

lemma unannounce_first_owns:
  assumes "unannounce_first lib i es s = (ok, es', s')" "avahi_laws lib live" "owns_all live F es s"
  shows "owns_all live F es' s' \<and> en_id ` set es' \<subseteq> en_id ` set es \<and> (distinct (map en_id es) \<longrightarrow> distinct (map en_id es'))"
  using assms
proof (induction es arbitrary: ok es' s' F)
  case (Cons e es)
  show ?case
  proof (cases "en_id e = i")
    case True
    obtain e1 s1 where u: "entry_unannounce lib e s = (e1, s1)" by fastforce
    have o: "owns live (F \<union> set (groups es)) e s" "distinct (groups es)" "set (groups es) \<inter> F = {}"
      using Cons.prems(3) by (simp_all add: owns_all_Cons)
    from entry_unannounce_owns[OF Cons.prems(2) o(1) u] o(2,3) u True Cons.prems(1) show ?thesis
      by (auto simp: owns_all_def owns_def)
  next
    case False
    obtain ok1 es1 s1 where u: "unannounce_first lib i es s = (ok1, es1, s1)" by (metis prod_cases3)
    have o: "owns_all live (F \<union> set_option (en_group e)) es s" "set_option (en_group e) \<inter> F = {}"
      using Cons.prems(3) by (simp_all add: owns_all_Cons')
    have r: "es' = e # es1" "s' = s1" using u False Cons.prems(1) by simp_all
    note ih = Cons.IH[OF u Cons.prems(2) o(1)]
    have "owns_all live F es' s'" using ih o(2) by (simp add: r owns_all_Cons')
    moreover have "en_id ` set es' \<subseteq> en_id ` set (e # es)" using ih by (simp add: r) blast
    moreover have "distinct (map en_id (e # es)) \<longrightarrow> distinct (map en_id es')" using ih by (simp add: r) blast
    ultimately show ?thesis by blast
  qed
qed simp

lemma publisher_step_inv:
  assumes "publisher_step lib ps qs" "avahi_laws lib live" "publisher_inv live ps"
  shows "publisher_inv live qs"
  using assms
proof (cases rule: publisher_step.cases)
  case (announce i v pb s ok pb' s')
  show ?thesis
  proof (cases "findService i pb")
    case None
    let ?e = "\<lparr>en_id = i, en_service = v, en_group = None\<rparr>"
    from None announce obtain e where e: "entry_announce lib (pb_client pb) ?e s = Some (ok, e, s')" "pb' = pb\<lparr>pb_services := pb_services pb @ [e]\<rparr>"
      by (auto simp: publisher_announce_def)
    have "owns live (set (groups (pb_services pb))) ?e s" using assms(3) announce by (simp add: publisher_inv_def owns_all_def owns_def)
    from entry_announce_owns[OF e(1) assms(2) this] have o: "owns live (set (groups (pb_services pb))) e s'" "en_id e = i" by simp_all
    have "i \<notin> en_id ` set (pb_services pb)" using None by (auto simp: findService_def find_None_iff)
    with o e(2) assms(3) announce show ?thesis
      by (cases "en_group e") (auto simp: publisher_inv_def owns_all_def owns_def)
  qed (use announce assms(3) in \<open>simp add: publisher_announce_def\<close>)
next
  case (unannounce i pb s ok pb' s')
  obtain ok1 es s1 where u: "unannounce_first lib i (pb_services pb) s = (ok1, es, s1)" by (metis prod_cases3)
  from unannounce_first_owns[OF u assms(2)] assms(3) unannounce u show ?thesis
    by (auto simp: publisher_inv_def publisher_unannounce_def)
next
  case (client st err pb s pb' s')
  from clientCallback_inv[OF client(3) assms(2)] assms(3) client show ?thesis by simp
next
  case (group k pb st s e s')
  let ?es = "pb_services pb" and ?r = "groups (take k (pb_services pb) @ drop (Suc k) (pb_services pb))"
  have o: "owns live (set ?r) (?es ! k) s" "distinct ?r"
    using assms(3) group(1) owns_nth[OF group(3), of live s] by (simp_all add: publisher_inv_def)
  from entryGroupCallback_owns[OF group(5) assms(2) o(1)] have e: "owns live (set ?r) e s'" "en_id e = en_id (?es ! k)" by simp_all
  have "owns_all live {} (?es[k := e]) s'" using owns_nth[of k "?es[k := e]" live s'] group(3) e(1) o(2) by simp
  moreover have "map en_id (?es[k := e]) = map en_id ?es" using e(2) group(3) by (metis list_update_id map_update)
  ultimately show ?thesis using assms(3) group(1,2) by (simp add: publisher_inv_def)
qed

subsection \<open>Properties\<close>




subsection \<open>A simulated library\<close>

text \<open>The state is the list of groups; one name is taken.\<close>

definition sim_avahi :: "nat list avahi_lib" where
  "sim_avahi = \<lparr>av_group_new = (\<lambda>c s. (Suc (sum_list s) # s, Some (Suc (sum_list s)))), av_client_errno = (\<lambda>s. - 1),
     av_add_service = (\<lambda>g v s. (s, if srv_name v = ''taken'' then AVAHI_ERR_COLLISION else 0)), av_group_commit = (\<lambda>g s. (s, 0)),
     av_update_txt = (\<lambda>g v s. (s, 0)), av_group_free = removeAll, av_alternative_name = (\<lambda>n. n @ '' #2''),
     av_client_new = (\<lambda>s. (s, S_RUNNING, Some 1)), av_client_free = (\<lambda>c s. s), av_host_name_fqdn = (\<lambda>c s. Some ''host.local'')\<rparr>"

lemma sim_avahi_laws: "avahi_laws sim_avahi set"
proof -
  have "Suc (sum_list s) \<notin> set s" for s :: "nat list" using member_le_sum_list[of "Suc (sum_list s)" s] by auto
  then show ?thesis by (simp add: avahi_laws_def sim_avahi_def)
qed

definition sim_pb :: publisher where
  "sim_pb = \<lparr>pb_client = Some 1, pb_state = S_RUNNING, pb_hostnameFqdn = ''host.local'', pb_hostname = ''host'', pb_services = []\<rparr>"

lemma sim_pb_init: "publisher_init sim_avahi [] = Some (sim_pb, [])"
  by (simp add: publisher_init_def createClient_def destroyClient_def state_callback_def onConnected_def set_client_def sim_avahi_def sim_pb_def)

definition sim_entry :: service_entry where
  "sim_entry = \<lparr>en_id = 7, en_service = service_init\<lparr>srv_name := ''taken #2''\<rparr>, en_group = Some 1\<rparr>"

lemma sim_pb_announce:
  "publisher_announce sim_avahi 7 (service_init\<lparr>srv_name := ''taken''\<rparr>) sim_pb [] = Some (True, sim_pb\<lparr>pb_services := [sim_entry]\<rparr>, [1])"
proof -
  have 1: "doAnnounce sim_avahi (Some 1) \<lparr>en_id = 7, en_service = service_init\<lparr>srv_name := ''taken''\<rparr>, en_group = None\<rparr> [] =
      (AVAHI_ERR_COLLISION, \<lparr>en_id = 7, en_service = service_init\<lparr>srv_name := ''taken''\<rparr>, en_group = Some 1\<rparr>, [1])"
    by (simp add: doAnnounce_def sim_avahi_def service_init_def AVAHI_ERR_COLLISION_def)
  have 2: "doAnnounce sim_avahi (Some 1) sim_entry [1] = (0, sim_entry, [1])"
    by (simp add: doAnnounce_def sim_avahi_def sim_entry_def service_init_def)
  have r: "renameService sim_avahi \<lparr>en_id = 7, en_service = service_init\<lparr>srv_name := ''taken''\<rparr>, en_group = Some 1\<rparr> = sim_entry"
    by (simp add: renameService_def sim_avahi_def sim_entry_def service_init_def)
  have "announce_loop sim_avahi (Some 1) sim_entry [1] = Some (0, sim_entry, [1])"
    by (subst announce_loop.simps) (simp add: 2 AVAHI_ERR_COLLISION_def del: One_nat_def)
  then have "announce_loop sim_avahi (Some 1) \<lparr>en_id = 7, en_service = service_init\<lparr>srv_name := ''taken''\<rparr>, en_group = None\<rparr> []
      = Some (0, sim_entry, [1])"
    by (subst announce_loop.simps) (simp add: 1 r del: One_nat_def)
  then show ?thesis by (simp add: publisher_announce_def findService_def entry_announce_def entry_unannounce_def sim_pb_def)
qed

lemma sim_reachable: "publisher_reachable sim_avahi [] (sim_pb\<lparr>pb_services := [sim_entry]\<rparr>, [1])"
  by (rule publisher_reachable.step[OF publisher_reachable.init[OF sim_pb_init] publisher_step.announce[OF sim_pb_announce]])




end
