(* ===== verification/JobSharing.thy ===== *)
theory JobSharing
  imports Scanner ScanTransfer "HOL-Library.AList"
begin

text \<open>
  Scan jobs under concurrent requests (\<open>src/server/scanner.cpp\<close>, \<open>src/server/scanjob.cpp\<close>, \<open>src/server/server.cpp\<close>).

  Every connection has a thread of its own, and so has the purging of jobs. A job is shared: the list of its scanner and
  every handler that works on it hold a \<open>shared_ptr\<close>, and it is destroyed, with the session it may hold, when the last of them
  lets go. The step relation interleaves the critical sections of these threads for the jobs of one scanner: looking
  a job up, creating, cancelling and purging under the lock of the job list, and the two calls that the worker thread of
  the job executes, \<open>beginTransfer\<close> and \<open>finishTransfer\<close>. Each of them is atomic here. Creating a job and reading its
  ticket is one step, since no other client knows the job before it is answered.
\<close>

subsection \<open>State and steps\<close>

text \<open>What a handler does with the job it holds: it has begun a transfer that it has not finished, or not.\<close>

datatype phase = Holding | Begun

record 's sharing =
  sh_jobs :: "(nat \<times> scan_job) list"             \<comment> \<open>the job objects that exist, by identity\<close>
  sh_list :: "(string \<times> nat) list"               \<comment> \<open>the job list of the scanner\<close>
  sh_users :: "(nat \<times> nat \<times> phase) list"         \<comment> \<open>handlers, the job that each holds, and its phase\<close>
  sh_world :: "'s world"

definition referenced :: "nat \<Rightarrow> 's sharing \<Rightarrow> bool" where
  "referenced i s \<longleftrightarrow> i \<in> snd ` set (sh_list s) \<or> i \<in> fst ` snd ` set (sh_users s)"

text \<open>One reference to the job \<open>i\<close> is gone: the last one destroys it.\<close>

definition drop_ref :: "'s sane_lib \<Rightarrow> nat \<Rightarrow> 's sharing \<Rightarrow> 's sharing result" where
  "drop_ref lib i s =
     (if referenced i s then Inr s
      else case map_of (sh_jobs s) i of None \<Rightarrow> Inr s
        | Some j \<Rightarrow> bind_result (destroy_job lib j (sh_world s)) (\<lambda>w.
            Inr (s\<lparr>sh_jobs := AList.delete i (sh_jobs s), sh_world := w\<rparr>)))"

definition set_job :: "nat \<Rightarrow> scan_job \<Rightarrow> 's world \<Rightarrow> 's sharing \<Rightarrow> 's sharing" where
  "set_job i j w s = s\<lparr>sh_jobs := AList.update i j (sh_jobs s), sh_world := w\<rparr>"

definition set_user :: "nat \<Rightarrow> nat \<Rightarrow> phase \<Rightarrow> 's sharing \<Rightarrow> 's sharing" where
  "set_user t i ph s = s\<lparr>sh_users := AList.update t (i, ph) (sh_users s)\<rparr>"

text \<open>The parameters of a system: its libraries, and what a scanner and its configuration give to the jobs.\<close>

record ('s, 'l) sharing_env =
  she_lib :: "'s sane_lib"
  she_encoders :: "'l encoder_env"
  she_pow :: "dbl \<Rightarrow> dbl \<Rightarrow> dbl"
  she_scanner :: scanner_info
  she_options :: options
  she_maxIdle :: int

inductive share_step :: "('s, 'l) sharing_env \<Rightarrow> 's sharing \<Rightarrow> 's sharing \<Rightarrow> bool" for env where
  share_create:
    "t \<notin> fst ` set (sh_users s) \<Longrightarrow> i \<notin> fst ` set (sh_jobs s) \<Longrightarrow> u \<notin> fst ` set (sh_list s) \<Longrightarrow>
     job_init (she_pow env) (she_scanner env) xml autoselect (she_options env) (job_create u (now (she_lib env) (sh_world s))) = Inr j \<Longrightarrow>
     share_step env s (set_user t i Holding (set_job i j (sh_world s) (s\<lparr>sh_list := map_put u i (sh_list s)\<rparr>)))"
| share_lookup:
    "t \<notin> fst ` set (sh_users s) \<Longrightarrow> map_of (sh_list s) u = Some i \<Longrightarrow> share_step env s (set_user t i Holding s)"
| share_begin:
    "map_of (sh_users s) t = Some (i, Holding) \<Longrightarrow> map_of (sh_jobs s) i = Some j \<Longrightarrow>
     beginTransfer (she_lib env) (she_scanner env) j (sh_world s) = Some (Inr (ok, j', w')) \<Longrightarrow>
     share_step env s (set_user t i (if ok then Begun else Holding) (set_job i j' w' s))"
| share_finish:
    "map_of (sh_users s) t = Some (i, Begun) \<Longrightarrow> map_of (sh_jobs s) i = Some j \<Longrightarrow>
     finishTransfer (she_lib env) (she_encoders env) (she_scanner env) os j (sh_world s) = Some (Inr (os', j', w')) \<Longrightarrow>
     share_step env s (set_user t i Holding (set_job i j' w' s))"
| share_release:
    "map_of (sh_users s) t = Some (i, Holding) \<Longrightarrow> drop_ref (she_lib env) i (s\<lparr>sh_users := AList.delete t (sh_users s)\<rparr>) = Inr s' \<Longrightarrow>
     share_step env s s'"
| share_cancel:
    "map_of (sh_list s) u = Some i \<Longrightarrow> map_of (sh_jobs s) i = Some j \<Longrightarrow> job_cancel (she_lib env) j (sh_world s) = Inr (j', w') \<Longrightarrow>
     share_step env s (set_job i j' w' s)"
| share_purge:
    "map_of (sh_list s) u = Some i \<Longrightarrow> map_of (sh_jobs s) i = Some j \<Longrightarrow>
     idleSeconds (now (she_lib env) (sh_world s)) j > she_maxIdle env \<Longrightarrow>
     drop_ref (she_lib env) i (s\<lparr>sh_list := AList.delete u (sh_list s)\<rparr>) = Inr s' \<Longrightarrow> share_step env s s'"
| share_dismantle:
    "sh_users s = [] \<Longrightarrow> map_of (sh_list s) u = Some i \<Longrightarrow>
     drop_ref (she_lib env) i (s\<lparr>sh_list := AList.delete u (sh_list s)\<rparr>) = Inr s' \<Longrightarrow> share_step env s s'"

inductive share_reachable :: "('s, 'l) sharing_env \<Rightarrow> 's sharing \<Rightarrow> 's sharing \<Rightarrow> bool" for env s0 where
  share_start: "share_reachable env s0 s0"
| share_next: "share_reachable env s0 s \<Longrightarrow> share_step env s s' \<Longrightarrow> share_reachable env s0 s'"

definition fresh_sharing :: "'s sharing \<Rightarrow> bool" where
  "fresh_sharing s \<longleftrightarrow> sh_jobs s = [] \<and> sh_list s = [] \<and> sh_users s = [] \<and> 0 \<le> w_refcount (sh_world s)"

definition handles_held :: "'s sharing \<Rightarrow> int" where
  "handles_held s = sum_list (map (held \<circ> snd) (sh_jobs s))"

subsection \<open>Association lists\<close>

lemma sum_update:
  "distinct (map fst al) \<Longrightarrow> sum_list (map (f \<circ> snd) (AList.update k v al)) =
     sum_list (map (f \<circ> snd) al) + f v - (case map_of al k of None \<Rightarrow> 0 | Some x \<Rightarrow> f x)"
  for f :: "'v \<Rightarrow> int"
  by (induction al) auto

lemma sum_delete:
  "distinct (map fst al) \<Longrightarrow> sum_list (map (f \<circ> snd) (AList.delete k al)) =
     sum_list (map (f \<circ> snd) al) - (case map_of al k of None \<Rightarrow> 0 | Some x \<Rightarrow> f x)"
  for f :: "'v \<Rightarrow> int"
  by (induction al) (auto split: option.split)

lemma values_delete:
  "distinct (map fst al) \<Longrightarrow> map_of al k = Some v \<Longrightarrow> snd ` set al = insert v (snd ` set (AList.delete k al))"
proof (induction al)
  case (Cons e al)
  show ?case
  proof (cases "fst e = k")
    case True
    with Cons.prems show ?thesis by (cases e) simp
  next
    case False
    with Cons have "snd ` set al = insert v (snd ` set (AList.delete k al))" by (cases e) simp
    with False show ?thesis by (cases e) auto
  qed
qed simp

lemma map_of_distinct_iff: "distinct (map fst al) \<Longrightarrow> (k, v) \<in> set al \<longleftrightarrow> map_of al k = Some v"
  by (simp add: map_of_eq_Some_iff)

lemma keys_map_of: "k \<in> fst ` set al \<longleftrightarrow> map_of al k \<noteq> None"
  by (simp add: map_of_eq_None_iff)

subsection \<open>What the calls do to a job\<close>

lemma job_init_fresh:
  assumes "job_init pow sc xml auto opts (job_create u t) = Inr j"
  shows "sj_session j = None \<and> sj_state j \<in> {pending, aborted}"
proof -
  let ?j1 = "(job_create u t)\<lparr>sj_intent := (if xml_getString xml ''Intent'' = [] then ''Photo'' else xml_getString xml ''Intent'')\<rparr>"
  from assms obtain e j2 where r: "init_region sc xml ?j1 = Inr (e, j2)"
    by (auto simp: job_init_def Let_def bind_result_Inr_iff)
  obtain e' j4 where s: "init_source sc xml ((init_format xml auto (init_color sc xml j2))\<lparr>sj_imagesCompleted := 0\<rparr>) = (e', j4)"
    by (metis surj_pair)
  from assms r s obtain j5 where "applyDeviceOptions pow sc opts j4 = Inr j5" "sj_session j = sj_session j5"
      "sj_state j \<in> {pending, aborted}"
    by (auto simp: job_init_def Let_def bind_result_Inr_iff)
  then show ?thesis
    using init_source_keeps[OF s] init_region_keeps[OF r] applyDeviceOptions_keeps[of pow sc opts j4 j5]
    by (simp add: job_create_def)
qed

lemma startSession_session:
  assumes "startSession lib j w = Some (Inr (j', w'))" "sj_state j' = processing"
  shows "\<exists>h. session_of j' h"
proof -
  from assms(1) obtain se se' w1 where s: "sj_session j = Some se" "session_start lib se w = Inr (se', w1)"
    "updateStatus lib (se_status se') (j\<lparr>sj_session := Some se'\<rparr>) w1 = Some (Inr (j', w'))"
    by (auto simp: startSession_def split: option.splits sum.splits)
  then obtain h where "se_device se' = Some h"
    by (auto simp: session_start_def Let_def split: option.splits if_splits prod.splits)
  then have "session_of (j\<lparr>sj_session := Some se'\<rparr>) h" by simp
  with updateStatus_effect[OF s(3)] assms(2) show ?thesis by (auto simp: status_effect_def)
qed

lemma beginTransfer_session:
  assumes "beginTransfer lib sc j w = Some (Inr (True, j', w'))"
  shows "\<exists>h. session_of j' h"
  using assms startSession_session
  by (fastforce simp: beginTransfer_def bind_result_Inr_iff isProcessing_def split: sum.splits prod.splits bool.splits if_splits)

text \<open>Both calls keep what \<open>w_refcount - held\<close> is; the state they leave tells who may call them next.\<close>

definition transferring :: "scan_job \<Rightarrow> bool" where
  "transferring j \<longleftrightarrow> sj_state j = canceled \<or> sj_state j = processing \<and> (\<exists>h. session_of j h)"

lemma begin_step:
  assumes "beginTransfer lib sc j w = Some (Inr (ok, j', w'))"
  shows "w_refcount w' - held j' = w_refcount w - held j \<and>
    (ok \<longrightarrow> sj_state j = pending \<and> transferring j') \<and>
    (\<not> ok \<longrightarrow> (sj_state j = pending \<and> sj_state j' \<noteq> processing) \<or> j' = j)"
  using beginTransfer_effect[OF assms] beginTransfer_session[of lib sc j w j' w'] assms
  by (auto simp: transfer_effect_def transferring_def split: if_splits)

lemma finish_step:
  assumes "finishTransfer lib en sc os j w = Some (Inr (os', j', w'))" "transferring j" "\<forall>h. reads_ok lib h"
  shows "w_refcount w' - held j' = w_refcount w - held j \<and> sj_state j' \<noteq> processing"
proof (cases "sj_state j = canceled")
  case True
  with assms(1) show ?thesis by (auto simp: finishTransfer_def isProcessing_def Let_def)
next
  case False
  with assms(2) obtain h where "sj_state j = processing" "session_of j h" by (auto simp: transferring_def)
  from finishTransfer_effect[OF assms(1) this] assms(3) show ?thesis by (auto simp: transfer_effect_def)
qed

lemma cancel_step:
  assumes "job_cancel lib j w = Inr (j', w')"
  shows "w_refcount w' - held j' = w_refcount w - held j \<and> sj_state j' = canceled"
  using closeSession_acct[OF assms[unfolded job_cancel_def]] by simp

subsection \<open>Who may transfer\<close>

text \<open>
  A handler that has begun a transfer is the only one for its job, the job is still being transferred or was cancelled
  meanwhile, and a job is in the state processing only on behalf of such a handler.
\<close>

definition exclusive :: "(nat \<rightharpoonup> scan_job) \<Rightarrow> (nat \<rightharpoonup> nat \<times> phase) \<Rightarrow> bool" where
  "exclusive J U \<longleftrightarrow>
     (\<forall>t i. U t = Some (i, Begun) \<longrightarrow> (\<exists>j. J i = Some j \<and> transferring j) \<and> (\<forall>t'. U t' = Some (i, Begun) \<longrightarrow> t' = t)) \<and>
     (\<forall>i j. J i = Some j \<longrightarrow> sj_state j = processing \<longrightarrow> (\<exists>t. U t = Some (i, Begun)))"

lemma exclusiveD:
  assumes "exclusive J U"
  shows "U t = Some (i, Begun) \<Longrightarrow> \<exists>j. J i = Some j \<and> transferring j"
    "U t = Some (i, Begun) \<Longrightarrow> U t' = Some (i, Begun) \<Longrightarrow> t' = t"
    "J i = Some j \<Longrightarrow> sj_state j = processing \<Longrightarrow> \<exists>t. U t = Some (i, Begun)"
  using assms unfolding exclusive_def by blast+

lemma exclusiveI:
  assumes "\<And>t i. U t = Some (i, Begun) \<Longrightarrow> \<exists>j. J i = Some j \<and> transferring j"
    and "\<And>t i t'. U t = Some (i, Begun) \<Longrightarrow> U t' = Some (i, Begun) \<Longrightarrow> t' = t"
    and "\<And>i j. J i = Some j \<Longrightarrow> sj_state j = processing \<Longrightarrow> \<exists>t. U t = Some (i, Begun)"
  shows "exclusive J U"
  unfolding exclusive_def using assms by blast

lemma not_transferring [simp]: "sj_state j = pending \<Longrightarrow> \<not> transferring j"
  by (simp add: transferring_def)

lemma exclusive_holding:
  assumes "exclusive J U" "\<And>k. U t \<noteq> Some (k, Begun)"
  shows "exclusive J (U(t \<mapsto> (i, Holding)))"
  using assms by (intro exclusiveI) (auto dest: exclusiveD split: if_splits intro: fun_upd_other, (metis exclusiveD(3))+)

lemma exclusive_unuse:
  assumes "exclusive J U" "\<And>k. U t \<noteq> Some (k, Begun)"
  shows "exclusive J (U(t := None))"
  using assms by (intro exclusiveI) (auto dest: exclusiveD split: if_splits, metis exclusiveD(3))

lemma exclusive_job:
  assumes "exclusive J U" "sj_state j \<noteq> processing" "\<And>t. U t = Some (i, Begun) \<Longrightarrow> transferring j"
  shows "exclusive (J(i \<mapsto> j)) U"
  using assms by (intro exclusiveI) (auto dest: exclusiveD split: if_splits)

lemma exclusive_unjob:
  assumes "exclusive J U" "\<And>t ph. U t \<noteq> Some (i, ph)"
  shows "exclusive (J(i := None)) U"
  using assms by (intro exclusiveI) (auto dest: exclusiveD split: if_splits)

lemma exclusive_begin:
  assumes "exclusive J U" "U t = Some (i, Holding)" "J i = Some j" "sj_state j = pending" "transferring j'"
  shows "exclusive (J(i \<mapsto> j')) (U(t \<mapsto> (i, Begun)))"
proof -
  have n: "U t' \<noteq> Some (i, Begun)" for t' using exclusiveD(1)[OF assms(1), of t' i] assms(3,4) by auto
  show ?thesis
  proof (rule exclusiveI)
    show "\<exists>t'. (U(t \<mapsto> (i, Begun))) t' = Some (k, Begun)" if "(J(i \<mapsto> j')) k = Some x" "sj_state x = processing" for k x
    proof (cases "k = i")
      case False
      with that obtain t' where "U t' = Some (k, Begun)" using exclusiveD(3)[OF assms(1)] by auto
      with assms(2) show ?thesis by (intro exI[of _ t']) auto
    qed (intro exI[of _ t], simp)
  qed (use assms n in \<open>auto dest: exclusiveD split: if_splits\<close>)
qed

lemma exclusive_finish:
  assumes "exclusive J U" "U t = Some (i, Begun)" "sj_state j' \<noteq> processing"
  shows "exclusive (J(i \<mapsto> j')) (U(t \<mapsto> (i, Holding)))"
proof (rule exclusiveI)
  show "\<exists>t'. (U(t \<mapsto> (i, Holding))) t' = Some (k, Begun)" if "(J(i \<mapsto> j')) k = Some x" "sj_state x = processing" for k x
  proof -
    from that assms(3) have "k \<noteq> i" by auto
    with that obtain t' where "U t' = Some (k, Begun)" using exclusiveD(3)[OF assms(1)] by auto
    with assms(2) \<open>k \<noteq> i\<close> show ?thesis by (intro exI[of _ t']) auto
  qed
qed (use assms in \<open>auto dest: exclusiveD split: if_splits\<close>)

subsection \<open>The invariant\<close>

text \<open>The jobs that exist are those that are referenced, and those in \<open>X\<close>, which are about to lose their last reference.\<close>

definition refs :: "'s sharing \<Rightarrow> nat set" where
  "refs s = snd ` set (sh_list s) \<union> fst ` snd ` set (sh_users s)"

lemma referenced_refs: "referenced i s \<longleftrightarrow> i \<in> refs s"
  by (simp add: referenced_def refs_def)

definition accounted :: "int \<Rightarrow> nat set \<Rightarrow> 's sharing \<Rightarrow> bool" where
  "accounted c X s \<longleftrightarrow>
     distinct (map fst (sh_jobs s)) \<and> distinct (map fst (sh_users s)) \<and> distinct (map fst (sh_list s)) \<and>
     fst ` set (sh_jobs s) = X \<union> refs s \<and> w_refcount (sh_world s) = c + handles_held s"

definition sharing_inv :: "int \<Rightarrow> nat set \<Rightarrow> 's sharing \<Rightarrow> bool" where
  "sharing_inv c X s \<longleftrightarrow> accounted c X s \<and> exclusive (map_of (sh_jobs s)) (map_of (sh_users s))"

lemmas sharing_inv_defs = sharing_inv_def accounted_def

lemma handles_held_nonneg: "0 \<le> handles_held s"
  unfolding handles_held_def by (rule sum_list_nonneg) (auto simp: held_nonneg)

lemma held_le_handles: "map_of (sh_jobs s) i = Some j \<Longrightarrow> held j \<le> handles_held s"
  unfolding handles_held_def
  by (intro member_le_sum_list) (force simp: held_nonneg dest: map_of_SomeD)+

lemma users_update:
  "(\<And>y. map_of us t = Some y \<Longrightarrow> fst y = i) \<Longrightarrow> fst ` snd ` set (AList.update t (i, ph) us) = insert i (fst ` snd ` set us)"
  for us :: "(nat \<times> nat \<times> phase) list"
  by (induction us) (auto split: if_splits)

lemma set_user_accounted:
  assumes "accounted c X s" "i \<in> X \<and> X = {i} \<or> i \<in> refs s \<and> X = {}" "\<And>y. map_of (sh_users s) t = Some y \<Longrightarrow> fst y = i"
  shows "accounted c {} (set_user t i ph s)"
proof -
  have "refs (set_user t i ph s) = insert i (refs s)"
    using users_update[OF assms(3)] by (auto simp: refs_def set_user_def)
  with assms(1,2) show ?thesis
    by (auto simp: accounted_def set_user_def distinct_update handles_held_def)
qed

lemma set_job_accounted:
  assumes "accounted c X s" "map_of (sh_jobs s) i = Some j" "w_refcount w' - held j' = w_refcount (sh_world s) - held j"
  shows "accounted c X (set_job i j' w' s)"
proof -
  have "insert i (fst ` set (sh_jobs s)) = fst ` set (sh_jobs s)"
    using assms(2) by (auto simp: keys_map_of insert_absorb)
  with assms sum_update[of "sh_jobs s" held i j'] show ?thesis
    by (simp add: accounted_def set_job_def distinct_update handles_held_def refs_def dom_update)
qed

lemma shared_maps [simp]:
  "map_of (sh_jobs (set_job i j w s)) = (map_of (sh_jobs s))(i \<mapsto> j)" "sh_users (set_job i j w s) = sh_users s"
  "map_of (sh_users (set_user t i ph s)) = (map_of (sh_users s))(t \<mapsto> (i, ph))" "sh_jobs (set_user t i ph s) = sh_jobs s"
  "refs (set_job i j w s) = refs s"
  by (simp_all add: set_job_def set_user_def update_conv' refs_def)

lemma drop_ref_inv:
  assumes "sharing_inv c {i} s" "drop_ref lib i s = Inr s'"
  shows "sharing_inv c {} s'"
proof (cases "referenced i s")
  case True
  with assms show ?thesis by (auto simp: drop_ref_def sharing_inv_defs referenced_refs)
next
  case False
  have "i \<in> fst ` set (sh_jobs s)" using assms(1) by (simp add: sharing_inv_defs)
  then obtain j where j: "map_of (sh_jobs s) i = Some j" by (auto simp: keys_map_of)
  with assms(2) False obtain w where w: "destroy_job lib j (sh_world s) = Inr w"
    and s': "s' = s\<lparr>sh_jobs := AList.delete i (sh_jobs s), sh_world := w\<rparr>"
    by (auto simp: drop_ref_def bind_result_Inr_iff)
  have d: "distinct (map fst (sh_jobs s))" using assms(1) by (simp add: sharing_inv_defs)
  have acct: "w_refcount w = w_refcount (sh_world s) - held j"
    using w by (auto simp: destroy_job_def held_def dest: session_destroy_acct split: option.splits)
  have n: "map_of (sh_users s) t \<noteq> Some (i, ph)" for t ph
    using False by (force simp: referenced_def dest: map_of_SomeD)
  have "fst ` set (AList.delete i (sh_jobs s)) = fst ` set (sh_jobs s) - {i}"
    using delete_keys[of i "sh_jobs s"] by (metis list.set_map set_removeAll)
  moreover have "exclusive ((map_of (sh_jobs s))(i := None)) (map_of (sh_users s))"
    using assms(1) n by (intro exclusive_unjob) (simp_all add: sharing_inv_def)
  moreover have "refs s' = refs s" by (simp add: s' refs_def)
  ultimately show ?thesis using assms(1) False acct sum_delete[OF d, of held i] j
    by (auto simp: sharing_inv_defs s' delete_conv' distinct_delete handles_held_def referenced_refs)
qed

lemma drop_ref_total:
  assumes "sharing_inv c X s" "0 \<le> c"
  shows "\<exists>s'. drop_ref lib i s = Inr s'"
proof (cases "map_of (sh_jobs s) i")
  case (Some j)
  have "held j \<le> w_refcount (sh_world s)" using held_le_handles[OF Some] assms by (simp add: sharing_inv_defs)
  then obtain w where "destroy_job lib j (sh_world s) = Inr w" by (rule destroy_job_ok)
  with Some show ?thesis by (simp add: drop_ref_def)
qed (auto simp: drop_ref_def)

lemma unuse_inv:
  assumes "sharing_inv c {} s" "map_of (sh_users s) t = Some (i, Holding)"
  shows "sharing_inv c {i} (s\<lparr>sh_users := AList.delete t (sh_users s)\<rparr>)"
proof -
  let ?s = "s\<lparr>sh_users := AList.delete t (sh_users s)\<rparr>"
  have d: "distinct (map fst (sh_users s))" using assms(1) by (simp add: sharing_inv_defs)
  have "insert i (refs ?s) = refs s" using values_delete[OF d assms(2)] by (auto simp: refs_def)
  moreover have "exclusive (map_of (sh_jobs s)) ((map_of (sh_users s))(t := None))"
    using assms by (intro exclusive_unuse) (simp_all add: sharing_inv_def)
  ultimately show ?thesis using assms(1) by (auto simp: sharing_inv_defs delete_conv' distinct_delete handles_held_def)
qed

lemma unlist_inv:
  assumes "sharing_inv c {} s" "map_of (sh_list s) u = Some i"
  shows "sharing_inv c {i} (s\<lparr>sh_list := AList.delete u (sh_list s)\<rparr>)"
proof -
  have d: "distinct (map fst (sh_list s))" using assms(1) by (simp add: sharing_inv_defs)
  have "insert i (refs (s\<lparr>sh_list := AList.delete u (sh_list s)\<rparr>)) = refs s"
    using values_delete[OF d assms(2)] by (auto simp: refs_def)
  with assms(1) show ?thesis by (auto simp: sharing_inv_defs distinct_delete handles_held_def)
qed

lemma map_put_fresh:
  "k \<notin> fst ` set m \<Longrightarrow> set (map_put k v m) = insert (k, v) (set m) \<and> (distinct (map fst m) \<longrightarrow> distinct (map fst (map_put k v m)))"
proof (induction m)
  case (Cons e m)
  then show ?case using map_put_keys[of k v m] by (auto simp: image_iff)
qed simp

lemma create_accounted:
  assumes "accounted c {} s" "i \<notin> fst ` set (sh_jobs s)" "u \<notin> fst ` set (sh_list s)" "sj_session j = None"
  shows "accounted c {} (set_job i j (sh_world s) (s\<lparr>sh_list := map_put u i (sh_list s)\<rparr>))"
proof -
  have n: "map_of (sh_jobs s) i = None" using assms(2) by (simp add: map_of_eq_None_iff)
  have "held j = 0" using assms(4) by (simp add: held_def)
  with assms(1) n map_put_fresh[OF assms(3), of i] sum_update[of "sh_jobs s" held i j] show ?thesis
    by (auto simp: accounted_def set_job_def distinct_update handles_held_def refs_def dom_update)
qed

lemma share_create_inv:
  assumes "sharing_inv c {} s" "t \<notin> fst ` set (sh_users s)" "i \<notin> fst ` set (sh_jobs s)" "u \<notin> fst ` set (sh_list s)"
    and f: "sj_session j = None" "sj_state j \<in> {pending, aborted}"
  shows "sharing_inv c {} (set_user t i Holding (set_job i j (sh_world s) (s\<lparr>sh_list := map_put u i (sh_list s)\<rparr>)))"
proof -
  let ?s = "set_job i j (sh_world s) (s\<lparr>sh_list := map_put u i (sh_list s)\<rparr>)"
  have a: "accounted c {} ?s" using create_accounted[OF _ assms(3,4)] assms(1) f by (simp add: sharing_inv_def)
  have u: "map_of (sh_users s) t = None" using assms(2) by (simp add: map_of_eq_None_iff)
  have "i \<in> refs ?s" using map_put_fresh[OF assms(4), of i] by (auto simp: refs_def set_job_def)
  then have "accounted c {} (set_user t i Holding ?s)" by (intro set_user_accounted[OF a]) (use u in simp_all)
  moreover have "i \<notin> refs s" using assms(1,3) by (auto simp: sharing_inv_defs)
  then have "map_of (sh_users s) t' \<noteq> Some (i, ph)" for t' ph by (force simp: refs_def dest: map_of_SomeD)
  then have "exclusive ((map_of (sh_jobs s))(i \<mapsto> j)) (map_of (sh_users s))"
    using assms(1) f by (intro exclusive_job) (auto simp: sharing_inv_def)
  then have "exclusive ((map_of (sh_jobs s))(i \<mapsto> j)) ((map_of (sh_users s))(t \<mapsto> (i, Holding)))"
    using u by (intro exclusive_holding) simp_all
  ultimately show ?thesis by (simp add: sharing_inv_def)
qed

lemma share_lookup_inv:
  assumes "sharing_inv c {} s" "t \<notin> fst ` set (sh_users s)" "map_of (sh_list s) u = Some i"
  shows "sharing_inv c {} (set_user t i Holding s)"
proof -
  have u: "map_of (sh_users s) t = None" using assms(2) by (simp add: map_of_eq_None_iff)
  have "i \<in> refs s" using assms(3) by (force simp: refs_def dest: map_of_SomeD)
  then have "accounted c {} (set_user t i Holding s)"
    using set_user_accounted[of c "{}" s i t Holding] u assms(1) by (simp add: sharing_inv_def)
  moreover have "exclusive (map_of (sh_jobs s)) ((map_of (sh_users s))(t \<mapsto> (i, Holding)))"
    using assms(1) u by (intro exclusive_holding) (simp_all add: sharing_inv_def)
  ultimately show ?thesis by (simp add: sharing_inv_def)
qed

text \<open>A handler that has the job already changes its own phase and the job.\<close>

lemma user_job_accounted:
  assumes "sharing_inv c {} s" "map_of (sh_users s) t = Some (i, ph)" "map_of (sh_jobs s) i = Some j"
    "w_refcount w' - held j' = w_refcount (sh_world s) - held j"
  shows "accounted c {} (set_user t i ph' (set_job i j' w' s))"
proof -
  have "accounted c {} (set_job i j' w' s)" using set_job_accounted[OF _ assms(3,4)] assms(1) by (simp add: sharing_inv_def)
  moreover have "i \<in> refs s" using assms(2) by (force simp: refs_def dest: map_of_SomeD)
  ultimately show ?thesis using set_user_accounted assms(2) by fastforce
qed

lemma exclusive_begin_failed:
  assumes "exclusive J U" "U t = Some (i, Holding)" "J i = Some j"
    "sj_state j = pending \<and> sj_state j' \<noteq> processing \<or> j' = j"
  shows "exclusive (J(i \<mapsto> j')) (U(t \<mapsto> (i, Holding)))"
proof -
  have "U(t \<mapsto> (i, Holding)) = U" using assms(2) by (simp add: map_upd_triv)
  moreover have "exclusive (J(i \<mapsto> j')) U"
  proof (cases "j' = j")
    case True
    with assms(1,3) show ?thesis by (simp add: map_upd_triv)
  next
    case False
    with assms show ?thesis by (intro exclusive_job) (auto dest: exclusiveD(1)[OF assms(1)])
  qed
  ultimately show ?thesis by simp
qed

lemma share_begin_inv:
  assumes "sharing_inv c {} s" "map_of (sh_users s) t = Some (i, Holding)" "map_of (sh_jobs s) i = Some j"
    and "beginTransfer lib sc j (sh_world s) = Some (Inr (ok, j', w'))"
  shows "sharing_inv c {} (set_user t i (if ok then Begun else Holding) (set_job i j' w' s))"
proof -
  note b = begin_step[OF assms(4)]
  have e: "exclusive (map_of (sh_jobs s)) (map_of (sh_users s))" using assms(1) by (simp add: sharing_inv_def)
  have "exclusive ((map_of (sh_jobs s))(i \<mapsto> j')) ((map_of (sh_users s))(t \<mapsto> (i, if ok then Begun else Holding)))"
    using exclusive_begin[OF e assms(2,3)] exclusive_begin_failed[OF e assms(2,3)] b by (cases ok) simp_all
  with user_job_accounted[OF assms(1-3)] b show ?thesis by (simp add: sharing_inv_def)
qed

lemma share_finish_inv:
  assumes "sharing_inv c {} s" "map_of (sh_users s) t = Some (i, Begun)" "map_of (sh_jobs s) i = Some j"
    and "finishTransfer lib en sc os j (sh_world s) = Some (Inr (os', j', w'))" "\<forall>h. reads_ok lib h"
  shows "sharing_inv c {} (set_user t i Holding (set_job i j' w' s))"
proof -
  have e: "exclusive (map_of (sh_jobs s)) (map_of (sh_users s))" using assms(1) by (simp add: sharing_inv_def)
  have "transferring j" using exclusiveD(1)[OF e assms(2)] assms(3) by simp
  note f = finish_step[OF assms(4) this assms(5)]
  with exclusive_finish[OF e assms(2)] user_job_accounted[OF assms(1-3)] show ?thesis by (simp add: sharing_inv_def)
qed

lemma share_cancel_inv:
  assumes "sharing_inv c {} s" "map_of (sh_jobs s) i = Some j" "job_cancel lib j (sh_world s) = Inr (j', w')"
  shows "sharing_inv c {} (set_job i j' w' s)"
proof -
  note k = cancel_step[OF assms(3)]
  have "exclusive ((map_of (sh_jobs s))(i \<mapsto> j')) (map_of (sh_users s))"
    using assms(1) k by (intro exclusive_job) (simp_all add: transferring_def sharing_inv_def)
  with set_job_accounted[OF _ assms(2)] k assms(1) show ?thesis by (simp add: sharing_inv_def)
qed

lemma share_step_inv:
  assumes "share_step env s s'" "sharing_inv c {} s" "\<forall>h. reads_ok (she_lib env) h"
  shows "sharing_inv c {} s'"
  using assms(1)
proof cases
  case (share_create t i u xml autoselect j)
  from share_create_inv[OF assms(2) share_create(2-4)] job_init_fresh[OF share_create(5)] share_create(1) show ?thesis by simp
next
  case (share_lookup t u i)
  from share_lookup_inv[OF assms(2) share_lookup(2,3)] share_lookup(1) show ?thesis by simp
next
  case (share_begin t i j ok j' w')
  from share_begin_inv[OF assms(2) share_begin(2-4)] share_begin(1) show ?thesis by simp
next
  case (share_finish t i j os os' j' w')
  from share_finish_inv[OF assms(2) share_finish(2-4) assms(3)] share_finish(1) show ?thesis by simp
next
  case (share_release t i)
  from drop_ref_inv[OF unuse_inv[OF assms(2) share_release(1)] share_release(2)] show ?thesis .
next
  case (share_cancel u i j j' w')
  from share_cancel_inv[OF assms(2) share_cancel(3,4)] share_cancel(1) show ?thesis by simp
next
  case (share_purge u i j)
  from drop_ref_inv[OF unlist_inv[OF assms(2) share_purge(1)] share_purge(4)] show ?thesis .
next
  case (share_dismantle u i)
  from drop_ref_inv[OF unlist_inv[OF assms(2) share_dismantle(2)] share_dismantle(3)] show ?thesis .
qed

lemma fresh_sharing_inv: "fresh_sharing s \<Longrightarrow> sharing_inv (w_refcount (sh_world s)) {} s"
  by (simp add: fresh_sharing_def sharing_inv_defs handles_held_def refs_def exclusive_def)

lemma share_reachable_inv:
  assumes "share_reachable env s0 s" "fresh_sharing s0" "\<forall>h. reads_ok (she_lib env) h"
  shows "sharing_inv (w_refcount (sh_world s0)) {} s"
  using assms(1) by induction (use fresh_sharing_inv[OF assms(2)] share_step_inv assms(3) in blast)+

subsection \<open>Properties\<close>



text \<open>A handler can always let go of its job, and a job can always be taken off the list: whether that destroys the job or not, the
  device handle that it may hold can be given back.\<close>

theorem release_possible:
  assumes "share_reachable env s0 s" "fresh_sharing s0" "\<forall>h. reads_ok (she_lib env) h" "map_of (sh_users s) t = Some (i, Holding)"
  shows "\<exists>s'. share_step env s s' \<and> map_of (sh_users s') t = None \<and> sh_list s' = sh_list s \<and>
    (\<forall>k. referenced k s' \<longrightarrow> map_of (sh_jobs s') k = map_of (sh_jobs s) k)"
proof -
  let ?s = "s\<lparr>sh_users := AList.delete t (sh_users s)\<rparr>"
  have "0 \<le> w_refcount (sh_world s0)" using assms(2) by (simp add: fresh_sharing_def)
  with drop_ref_total[OF unuse_inv[OF share_reachable_inv[OF assms(1-3)] assms(4)]] obtain s' where
    s': "drop_ref (she_lib env) i ?s = Inr s'" by blast
  have "map_of (sh_users s') t = None \<and> sh_list s' = sh_list s \<and> (\<forall>k. referenced k s' \<longrightarrow> map_of (sh_jobs s') k = map_of (sh_jobs s) k)"
  proof (cases "referenced i ?s")
    case True
    with s' have "s' = ?s" by (simp add: drop_ref_def)
    then show ?thesis by (simp add: delete_conv')
  next
    case False
    with s' have "sh_users s' = sh_users ?s" "sh_list s' = sh_list s" "map_of (sh_jobs s') = (map_of (sh_jobs s))(i := None) \<or> s' = ?s"
      by (auto simp: drop_ref_def delete_conv' bind_result_Inr_iff split: option.splits)
    moreover from this(1,2) have "\<not> referenced i s'" using False by (simp add: referenced_def)
    ultimately show ?thesis by (auto simp: delete_conv')
  qed
  with share_release[OF assms(4) s'] show ?thesis by blast
qed

subsection \<open>A run\<close>

text \<open>A client posts a ticket, and the handler of the same thread begins the transfer.\<close>

definition sim_share :: "(string, nat) sharing_env" where
  "sim_share = \<lparr>she_lib = sim_lib, she_encoders = sim_env, she_pow = (\<lambda>a b. a), she_scanner = ticket_scanner,
     she_options = default_options, she_maxIdle = 300\<rparr>"

definition share0 :: "string sharing" where
  "share0 = \<lparr>sh_jobs = [], sh_list = [], sh_users = [], sh_world = \<lparr>w_sane = ''abcdef'', w_refcount = 0\<rparr>\<rparr>"

lemma share0_fresh: "fresh_sharing share0" "\<forall>h. reads_ok (she_lib sim_share) h"
  by (auto simp: fresh_sharing_def share0_def sim_share_def reads_ok_def sim_lib_def split: if_splits)

lemma share_created:
  obtains s where "share_reachable sim_share share0 s" "map_of (sh_users s) 1 = Some (7, Holding)" "sh_list s = [(''u'', 7)]"
    "sh_world s = sh_world share0" "\<exists>j. map_of (sh_jobs s) 7 = Some j \<and> sj_state j = pending \<and> sj_session j = None"
proof -
  let ?t = "now sim_lib (sh_world share0)"
  obtain j where j: "job_init (\<lambda>a b. a) ticket_scanner ticket False default_options (job_create ''u'' ?t) = Inr j"
      "sj_state j = pending"
    using ticket_accepted by blast
  let ?s = "set_user 1 7 Holding (set_job 7 j (sh_world share0) (share0\<lparr>sh_list := map_put ''u'' 7 (sh_list share0)\<rparr>))"
  have "share_step sim_share share0 ?s"
    by (rule share_create) (use j in \<open>simp_all add: share0_def sim_share_def\<close>)
  from that[OF share_next[OF share_start this]] j job_init_fresh[OF j(1)] show thesis
    by (simp add: set_user_def set_job_def share0_def)
qed

lemma sim_begin_any:
  assumes "sj_state j = pending" "sj_session j = None"
  shows "\<exists>j' w'. beginTransfer sim_lib sc j w = Some (Inr (True, j', w'))"
proof -
  let ?j = "j\<lparr>sj_state := processing\<rparr>"
  obtain se w1 where o: "session_open sim_lib (si_saneName sc) w = Inr (se, w1)" "se_device se = Some 1"
      "os_options (se_options se) = Map.empty" "se_status se = GOOD"
    by (simp add: session_open_def sane_open_device_def sane_init_addref_def option_set_init_def sim_lib_def sane_def)
  then have "openSession sim_lib sc ?j w = Inr (INVAL, ?j\<lparr>sj_session := Some se\<rparr>, w1)"
    using assms(2) by (simp add: openSession_def set_options_none)
  moreover have "\<exists>j' w'. startSession sim_lib (?j\<lparr>sj_session := Some se\<rparr>) w1 = Some (Inr (j', w')) \<and> isProcessing j'"
    using o by (simp add: startSession_def session_start_def updateStatus.simps status_step_def close_if_aborted_def
        sim_lib_def isProcessing_def set_state_def)
  ultimately show ?thesis using assms
    by (auto simp: beginTransfer_def atomicTransition_def)
qed

lemma share_begun:
  obtains s where "share_reachable sim_share share0 s" "map_of (sh_users s) 1 = Some (7, Begun)"
    "\<exists>j. map_of (sh_jobs s) 7 = Some j \<and> sj_state j = processing"
proof -
  obtain s j where s: "share_reachable sim_share share0 s" "map_of (sh_users s) 1 = Some (7, Holding)"
      "map_of (sh_jobs s) 7 = Some j" "sj_state j = pending" "sj_session j = None"
    using share_created by metis
  obtain j' w' where b: "beginTransfer (she_lib sim_share) (she_scanner sim_share) j (sh_world s) = Some (Inr (True, j', w'))"
    using sim_begin_any[OF s(4,5), of ticket_scanner "sh_world s"] by (auto simp: sim_share_def)
  have "sj_state j' = processing" using beginTransfer_effect[OF b] by simp
  with that[OF share_next[OF s(1) share_begin[OF s(2,3) b]]] show thesis by simp
qed



theorem release_possible_witness:
  "\<exists>s s'. share_reachable sim_share share0 s \<and> map_of (sh_users s) 1 = Some (7, Holding) \<and> share_step sim_share s s' \<and>
     map_of (sh_users s') 1 = None \<and> sh_list s' = [(''u'', 7)]"
proof -
  obtain s where s: "share_reachable sim_share share0 s" "map_of (sh_users s) 1 = Some (7, Holding)" "sh_list s = [(''u'', 7)]"
    by (rule share_created)
  from release_possible[OF s(1) share0_fresh s(2)] s show ?thesis by metis
qed

end
