(* ===== verification/CancelRace.thy ===== *)
theory CancelRace
  imports ScanTransfer
begin

text \<open>
  Cancelling a job while a page of it is read (\<open>src/server/scanjob.cpp\<close>). \<open>ScanJob::cancel\<close> runs in the thread of the request that
  deletes the job; the loop over the lines of \<open>ScanJob::Private::finishTransfer\<close> runs in the worker thread of the job. Nothing
  orders the two. The step relation cuts the loop where it first looks at the job (the condition of \<open>while\<close>) and where
  it then uses the session (its body), and lets a cancellation happen at the points given by \<open>P\<close>.

  Without cancellations the steps are those of \<open>read_page\<close>. A cancellation before the condition is noticed and the session is
  not used again; one between condition and body makes the worker read through a null pointer.
\<close>

datatype point = Condition | Body | Left | Failed cpp_error

type_synonym ('l, 's) loop_state = "string \<times> sane_status \<times> 'l any_encoder \<times> scan_job \<times> 's world"

definition loop_condition :: "sane_status \<Rightarrow> 'l any_encoder \<Rightarrow> scan_job \<Rightarrow> bool" where
  "loop_condition st e j \<longleftrightarrow> st = GOOD \<and> stream_ok e \<and> isProcessing j"

definition loop_body ::
  "'s sane_lib \<Rightarrow> 'l encoder_env \<Rightarrow> ('l, 's) loop_state \<Rightarrow> ('l, 's) loop_state result option" where
  "loop_body lib en = (\<lambda>(buf, st, e, j, w).
     case sj_session j of None \<Rightarrow> Some (Inl NullDeref)
     | Some se \<Rightarrow> Option.bind (session_read lib buf se w) (\<lambda>r. case r of Inl err \<Rightarrow> Some (Inl err)
         | Inr (buf1, se1, w1) \<Rightarrow>
             let j1 = j\<lparr>sj_session := Some se1, sj_lastActive := now lib w1\<rparr> in
             if se_status se1 \<noteq> GOOD then Some (Inr (buf1, se_status se1, e, j1, w1))
             else (case convert_line j1 buf1 of Inl err \<Rightarrow> Some (Inl err)
               | Inr buf2 \<Rightarrow> (case send_line lib en buf2 e j1 w1 of Inl err \<Rightarrow> Some (Inl err)
                   | Inr (e2, j2, w2) \<Rightarrow> Some (Inr (buf2, GOOD, e2, j2, w2))))))"

inductive loop_step ::
  "'s sane_lib \<Rightarrow> 'l encoder_env \<Rightarrow> point set \<Rightarrow> point \<times> ('l, 's) loop_state \<Rightarrow> point \<times> ('l, 's) loop_state \<Rightarrow> bool"
  for lib en P where
  loop_enter: "loop_condition st e j \<Longrightarrow> loop_step lib en P (Condition, buf, st, e, j, w) (Body, buf, st, e, j, w)"
| loop_leave: "\<not> loop_condition st e j \<Longrightarrow> loop_step lib en P (Condition, buf, st, e, j, w) (Left, buf, st, e, j, w)"
| loop_line: "loop_body lib en s = Some (Inr s') \<Longrightarrow> loop_step lib en P (Body, s) (Condition, s')"
| loop_fail: "loop_body lib en s = Some (Inl err) \<Longrightarrow> loop_step lib en P (Body, s) (Failed err, s)"
| loop_cancel: "pc \<in> P \<Longrightarrow> job_cancel lib j w = Inr (j', w') \<Longrightarrow>
    loop_step lib en P (pc, buf, st, e, j, w) (pc, buf, st, e, j', w')"

abbreviation loop_runs ::
  "'s sane_lib \<Rightarrow> 'l encoder_env \<Rightarrow> point set \<Rightarrow> point \<times> ('l, 's) loop_state \<Rightarrow> point \<times> ('l, 's) loop_state \<Rightarrow> bool" where
  "loop_runs lib en P \<equiv> (loop_step lib en P)\<^sup>*\<^sup>*"

subsection \<open>Without cancellations: the loop of the model\<close>

definition outcome :: "(sane_status \<times> ('l, 's) transfer) result \<Rightarrow> point \<times> ('l, 's) loop_state \<Rightarrow> bool" where
  "outcome r c = (case r of Inl err \<Rightarrow> fst c = Failed err
     | Inr (st, e, j, w) \<Rightarrow> (\<exists>buf. c = (Left, buf, st, e, j, w)))"

text \<open>The body of the model's loop, followed by any continuation.\<close>

lemma loop_body_then:
  "(case sj_session j of None \<Rightarrow> Some (Inl NullDeref)
    | Some se \<Rightarrow> Option.bind (session_read lib buf se w) (\<lambda>r. case r of Inl err \<Rightarrow> Some (Inl err)
        | Inr (buf1, se1, w1) \<Rightarrow>
            let j1 = j\<lparr>sj_session := Some se1, sj_lastActive := now lib w1\<rparr> in
            if se_status se1 \<noteq> GOOD then rp lib en buf1 (se_status se1) e j1 w1
            else (case convert_line j1 buf1 of Inl err \<Rightarrow> Some (Inl err)
              | Inr buf2 \<Rightarrow> (case send_line lib en buf2 e j1 w1 of Inl err \<Rightarrow> Some (Inl err)
                  | Inr (e2, j2, w2) \<Rightarrow> rp lib en buf2 GOOD e2 j2 w2)))) =
   Option.bind (loop_body lib en (buf, st, e, j, w)) (\<lambda>r. case r of Inl err \<Rightarrow> Some (Inl err)
     | Inr (buf', st', e', j', w') \<Rightarrow> rp lib en buf' st' e' j' w')"
proof (cases "sj_session j")
  case (Some se)
  then show ?thesis
    by (cases "session_read lib buf se w"; cases "the (session_read lib buf se w)")
       (auto simp: loop_body_def Let_def split: sum.split)
qed (simp add: loop_body_def)

lemma loop_turn:
  assumes "loop_condition st e j" "loop_body lib en (buf, st, e, j, w) = Some (Inr s)" "loop_runs lib en P (Condition, s) c"
  shows "loop_runs lib en P (Condition, buf, st, e, j, w) c"
  using assms by (meson loop_enter loop_line converse_rtranclp_into_rtranclp)

lemma loop_follows_read_page:
  "read_page lib en buf st e j w = Some r \<Longrightarrow> \<exists>c. loop_runs lib en {} (Condition, buf, st, e, j, w) c \<and> outcome r c"
proof (induction rule: read_page.raw_induct[rotated, consumes 1, case_names 1])
  case (1 rp lib en buf st e j w r)
  let ?s = "(buf, st, e, j, w)"
  show ?case
  proof (cases "loop_condition st e j")
    case False
    then have "r = Inr (st, e, j, w)" using 1(2) by (auto simp: loop_condition_def split: if_splits)
    with loop_leave[OF False, of lib en "{}" buf w] show ?thesis by (auto simp: outcome_def)
  next
    case True
    have b: "Option.bind (loop_body lib en ?s) (\<lambda>r. case r of Inl err \<Rightarrow> Some (Inl err)
        | Inr (buf', st', e', j', w') \<Rightarrow> rp lib en buf' st' e' j' w') = Some r"
      using 1(2) True loop_body_then[where rp = rp and st = st] by (simp add: loop_condition_def)
    then obtain r1 where r1: "loop_body lib en ?s = Some r1" by (cases "loop_body lib en ?s") auto
    show ?thesis
    proof (cases r1)
      case (Inl err)
      with b r1 have "r = Inl err" by simp
      moreover have "loop_runs lib en {} (Condition, ?s) (Failed err, ?s)"
        using loop_enter[OF True] loop_fail r1 Inl by (meson converse_rtranclp_into_rtranclp rtranclp.rtrancl_refl)
      ultimately show ?thesis by (intro exI[of _ "(Failed err, ?s)"]) (simp add: outcome_def)
    next
      case (Inr s')
      obtain buf' st' e' j' w' where s': "s' = (buf', st', e', j', w')" by (metis prod_cases5)
      with b r1 Inr have "rp lib en buf' st' e' j' w' = Some r" by simp
      from 1(1)[OF this] obtain c where "loop_runs lib en {} (Condition, s') c" "outcome r c" by (auto simp: s')
      with loop_turn[OF True] r1 Inr show ?thesis by blast
    qed
  qed
qed

subsection \<open>With cancellations\<close>

text \<open>Between two lines of a job in the state processing there is a session; in the body there is one at any rate.\<close>

definition loop_inv :: "point \<times> ('l, 's) loop_state \<Rightarrow> bool" where
  "loop_inv = (\<lambda>(pc, buf, st, e, j, w). (isProcessing j \<longrightarrow> sj_session j \<noteq> None) \<and> (pc = Body \<longrightarrow> isProcessing j))"

lemma loop_body_session:
  assumes "loop_body lib en (buf, st, e, j, w) = Some (Inr (buf', st', e', j', w'))" "isProcessing j'"
  shows "sj_session j' \<noteq> None"
proof -
  from assms(1) obtain se where se: "sj_session j = Some se" by (auto simp: loop_body_def split: option.split_asm)
  with assms(1) obtain buf1 se1 w1 where "session_read lib buf se w = Some (Inr (buf1, se1, w1))"
    by (cases "session_read lib buf se w"; cases "the (session_read lib buf se w)") (auto simp: loop_body_def)
  with assms se show ?thesis
    by (cases "se_status se1 = GOOD")
       (auto simp: loop_body_def Let_def isProcessing_def dest!: send_line_cases split: sum.split_asm prod.split_asm)
qed

lemma job_cancel_stops: "job_cancel lib j w = Inr (j', w') \<Longrightarrow> \<not> isProcessing j' \<and> sj_session j' = None"
  by (auto simp: job_cancel_def isProcessing_def dest!: closeSession_acct)

lemma loop_inv_step: "loop_step lib en {Condition} c c' \<Longrightarrow> loop_inv c \<Longrightarrow> loop_inv c'"
  by (cases rule: loop_step.cases, assumption)
     (auto simp: loop_inv_def loop_condition_def dest: loop_body_session job_cancel_stops)

lemma loop_inv_runs: "loop_runs lib en {Condition} c c' \<Longrightarrow> loop_inv c \<Longrightarrow> loop_inv c'"
  by (induction rule: rtranclp_induct) (auto intro: loop_inv_step)

text \<open>C28: 
  A job is cancelled while one of its pages is read. When cancellations come only before the condition of the loop, the worker
  always has a session where it uses it. But nothing keeps a cancellation from coming between the condition and
  the body: then the worker reads through a null pointer, whatever the device and the job are.
\<close>

theorem cancel_race:
  assumes "loop_condition st e j" "sj_session j \<noteq> None" "job_cancel lib j w = Inr (j', w')"
  shows "loop_runs lib en {Condition, Body} (Condition, buf, st, e, j, w) (Failed NullDeref, buf, st, e, j', w') \<and>
    (\<forall>buf2 st2 e2 j2 w2. loop_runs lib en {Condition} (Condition, buf, st, e, j, w) (Body, buf2, st2, e2, j2, w2) \<longrightarrow>
       sj_session j2 \<noteq> None)"
proof (intro conjI allI impI)
  let ?c = "(Condition, buf, st, e, j, w)" and ?P = "{Condition, Body}"
  have "loop_step lib en ?P ?c (Body, buf, st, e, j, w)" using assms(1) by (rule loop_enter)
  moreover have "loop_step lib en ?P (Body, buf, st, e, j, w) (Body, buf, st, e, j', w')"
    by (rule loop_cancel[OF _ assms(3)]) simp
  moreover have "loop_step lib en ?P (Body, buf, st, e, j', w') (Failed NullDeref, buf, st, e, j', w')"
    using job_cancel_stops[OF assms(3)] by (intro loop_fail) (simp add: loop_body_def)
  ultimately show "loop_runs lib en ?P ?c (Failed NullDeref, buf, st, e, j', w')"
    by (meson converse_rtranclp_into_rtranclp rtranclp.rtrancl_refl)
next
  fix buf2 st2 e2 j2 w2
  assume "loop_runs lib en {Condition} (Condition, buf, st, e, j, w) (Body, buf2, st2, e2, j2, w2)"
  from loop_inv_runs[OF this] assms(2) show "sj_session j2 \<noteq> None" by (auto simp: loop_inv_def)
qed

definition race_encoder :: "nat any_encoder" where
  "race_encoder = E_Png (raster_init\<lparr>ie_dest := Some sim_stream\<rparr>)"

theorem cancel_race_witness:
  "\<exists>j' w'. job_cancel sim_lib sim_scanning sim_world = Inr (j', w') \<and>
     loop_runs sim_lib sim_env {Condition, Body} (Condition, ''   '', GOOD, race_encoder, sim_scanning, sim_world)
       (Failed NullDeref, ''   '', GOOD, race_encoder, j', w')"
proof -
  have "loop_condition GOOD race_encoder sim_scanning"
    by (simp add: loop_condition_def race_encoder_def isProcessing_def sim_session_of(2)) (simp add: stream_ok_def any_dest_def any_base_def encoder.defs sim_stream_def)
  moreover have s: "sj_session sim_scanning = Some sim_session" by (simp add: sim_scanning_def)
  moreover have "held (set_state canceled PWG_JOB_CANCELED_BY_USER sim_scanning) \<le> w_refcount sim_world"
    by (simp add: held_def handles_of_def s sim_session_def sim_world_def)
  then obtain j' w' where "job_cancel sim_lib sim_scanning sim_world = Inr (j', w')"
    unfolding job_cancel_def by (rule closeSession_ok)
  ultimately show ?thesis using cancel_race[of GOOD race_encoder sim_scanning sim_lib sim_world j' w' sim_env] by auto
qed

end
