(* ===== verification/FormTicket.thy ===== *)
theory FormTicket
  imports ScannerPage ScanTicket
begin

text \<open>
  From the form of a scanner to the settings of a scan job: \<open>src/server/scannerpage.cpp\<close> turns the form into a dictionary and
  the dictionary into a ticket, and \<open>src/server/scanjob.cpp\<close> reads the ticket. The theorems state that the job gets
  what the user chose.
\<close>

subsection \<open>Half integers\<close>

text \<open>\<open>floor(x + 0.5)\<close> of a number that is an integer already.\<close>

lemma fround_half:
  assumes "0 \<le> n" "n < 2 ^ 51"
  shows "fround 53 (- 1074) (of_int n + 1 / 2) = of_int n + 1 / 2"
proof -
  let ?x = "rat_of_int n + 1 / 2" and ?m = "2 * n + 1"
  have x: "?x = rat_of_int ?m / 2" "0 < ?x" using assms(1) by (simp_all add: field_simps)
  have "coprime ?m 2" by simp
  then have q: "quotient_of ?x = (?m, 2)" using x(1)
    by (simp add: Fract_of_int_quotient[symmetric, of ?m 2, simplified] quotient_of_Fract Rat.normalize_def Let_def)
  have "floorlog 2 (nat ?m) \<le> 52"
  proof (rule floorlog_leI)
    show "nat ?m < 2 ^ 52" using assms by (simp add: nat_less_iff)
  qed simp_all
  moreover have "floorlog 2 (2::nat) = 2" by (simp add: floorlog_def)
  ultimately have "ilog 2 ?x \<le> 50" by (auto simp: ilog_def q Let_def)
  then have e: "max (- 1074) (ilog 2 \<bar>?x\<bar> - int (53 - 1)) \<le> - 1" using x(2) by simp
  let ?q = "max (- 1074) (ilog 2 \<bar>?x\<bar> - int (53 - 1))"
  define k where "k = nat (- ?q - 1)"
  have k: "?q = - int (Suc k)" using e by (simp add: k_def)
  have p: "pow_int 2 ?q = 1 / 2 ^ Suc k" unfolding k by (simp add: pow_int_def nat_add_distrib)
  have "?x / (1 / 2 ^ Suc k) = of_int (?m * 2 ^ k)" by (simp add: field_simps)
  then have "?x / pow_int 2 ?q = of_int (?m * 2 ^ k)" unfolding p .
  then have "round_half_even (?x / pow_int 2 ?q) = ?m * 2 ^ k" by (simp only: round_half_even_int)
  moreover have "of_int (?m * 2 ^ k) * (1 / 2 ^ Suc k) = ?x" by (simp add: field_simps)
  ultimately have "of_int (round_half_even (?x / pow_int 2 ?q)) * pow_int 2 ?q = ?x" by (simp only: p)
  with x(2) show ?thesis by (simp add: fround_def Let_def)
qed

lemma nearest_int:
  assumes "0 \<le> n" "n < 2 ^ 51"
  shows "dfloor (dadd (dbl_of_int n) (Fin (1 / 2))) = Fin (of_int n)"
proof -
  have "n < 2 ^ 53" using assms(2) by (rule order_less_trans) simp
  then have "dbl_of_int n = Fin (of_int n)" using assms(1) by (intro dbl_of_int_exact) simp
  moreover have "of_int n + 1 / 2 < (2 :: rat) ^ 1024"
  proof -
    have "rat_of_int n < 2 ^ 51" using assms(2) by (metis of_int_less_iff of_int_numeral of_int_power)
    moreover have "(2 :: rat) ^ 51 + 1 < 2 ^ 1024" by simp
    ultimately show ?thesis by linarith
  qed
  moreover have "- (2 ^ 1024) < of_int n + (1 / 2 :: rat)"
  proof -
    have "0 \<le> rat_of_int n" using assms(1) by simp
    moreover have "(0 :: rat) < 2 ^ 1024" by simp
    ultimately show ?thesis by linarith
  qed
  moreover have "\<lfloor>rat_of_int n + 1 / 2\<rfloor> = n" by linarith
  ultimately show ?thesis using fround_half[OF assms] by (simp add: to_dbl_def Let_def)
qed

subsection \<open>The ticket as a document\<close>

definition form_ok :: "dictionary \<Rightarrow> bool" where
  "form_ok d \<longleftrightarrow> dict_inv d \<and> (\<forall>(k, v) \<in> set d. xml_name k \<and> CHR ''<'' \<notin> set v)"

definition ticket_xml :: "dictionary \<Rightarrow> xml list" where
  "ticket_xml es = Elem ''x'' ''ContentRegionUnits'' [] [Text ''escl:ThreeHundredthsOfInches''] # Text nl #
     concat (map (\<lambda>(k, v). [Elem ''x'' k [] [Text v], Text nl]) es)"

lemma ticket_print: "buildScanJobTicket d = concat (map xml_print (ticket_xml (ticket_entries d)))"
proof -
  have "concat (map ticket_line es) = concat (map xml_print (concat (map (\<lambda>(k, v). [Elem ''x'' k [] [Text v], Text nl]) es)))" for es
    by (induction es) (auto simp: ticket_line_def)
  then show ?thesis by (simp add: buildScanJobTicket_def ticket_xml_def)
qed

lemma ticket_wf:
  assumes "\<forall>(k, v) \<in> set es. xml_name k \<and> CHR ''<'' \<notin> set v"
  shows "list_all xml_wf (ticket_xml es)"
proof -
  have "xml_name ''x''" "xml_name ''ContentRegionUnits''" by code_simp+
  with assms show ?thesis by (induction es) (auto simp: ticket_xml_def nl_def list_all_iff)
qed

lemma ticket_leaves:
  "concat (map xml_leaves (ticket_xml es)) = (''ContentRegionUnits'', ''escl:ThreeHundredthsOfInches'') # es"
proof -
  have "concat (map xml_leaves (concat (map (\<lambda>(k, v). [Elem ''x'' k [] [Text v], Text nl]) es))) = es"
    by (induction es) auto
  then show ?thesis by (simp add: ticket_xml_def)
qed

lemma getString_documents:
  assumes "list_all xml_wf xs" "xml_name n"
  shows "xml_getString (concat (map xml_print xs)) n = (case map_of (concat (map xml_leaves xs)) n of Some v \<Rightarrow> v | None \<Rightarrow> [])"
  using assms(1)
proof (induction xs)
  case (Cons x xs)
  then show ?case using getString_xml[OF _ assms(2), of x "concat (map xml_print xs)"]
    by (auto simp: first_leaf_def map_add_def split: option.splits)
qed simp

subsection \<open>The entries of the ticket\<close>

lemma form_ok_set: "form_ok d \<Longrightarrow> xml_name k \<Longrightarrow> CHR ''<'' \<notin> set v \<Longrightarrow> form_ok (dict_set d k v)"
  using set_dict_set[of d k v] by (auto simp: form_ok_def dict_inv_set)

lemma form_ok_erase: "form_ok d \<Longrightarrow> form_ok (eraseKey d k)"
  using set_eraseKey[of d k] by (auto simp: form_ok_def dict_inv_erase)

lemma form_ok_value: "form_ok d \<Longrightarrow> CHR ''<'' \<notin> set (getString d k)"
proof (cases "map_of d k")
  case (Some v)
  assume "form_ok d"
  with map_of_SomeD[OF Some] Some show ?thesis by (auto simp: getString_lookup dict_lookup_def form_ok_def)
qed (simp add: getString_lookup dict_lookup_def)

lemma ticket_names:
  "xml_name ''XResolution''" "xml_name ''YResolution''" "xml_name ''XOffset''" "xml_name ''YOffset''"
  "xml_name ''ConcatIfPossible''" "xml_name ''PaperSize''" "xml_name ''Width''" "xml_name ''Height''" "xml_name ''Intent''"
  "xml_name ''ContentRegionUnits''" "xml_name ''ColorMode''" "xml_name ''DocumentFormat''" "xml_name ''DocumentFormatExt''"
  "xml_name ''InputSource''" "xml_name ''Duplex''"
  by code_simp+

lemmas form_ok_intros = form_ok_set form_ok_erase form_ok_value ticket_names

definition ticket_values :: "dictionary \<Rightarrow> string \<rightharpoonup> string" where
  "ticket_values d = (dict_lookup d)(''preview'' := None, ''Resolution'' := None, ''XResolution'' \<mapsto> getString d ''Resolution'',
     ''YResolution'' \<mapsto> getString d ''Resolution'', ''PaperSize'' := None, ''XOffset'' \<mapsto> ''0'', ''YOffset'' \<mapsto> ''0'',
     ''ConcatIfPossible'' \<mapsto> ''1'', ''ContentRegionUnits'' \<mapsto> ''escl:ThreeHundredthsOfInches'')"

lemma form_ok_inv: "form_ok d \<Longrightarrow> dict_inv d"
  by (simp add: form_ok_def)

lemma ticket_entries_ok: "form_ok d \<Longrightarrow> form_ok (ticket_entries d)"
  by (simp add: ticket_entries_def Let_def form_ok_intros)

lemma ticket_entries_lookup:
  "form_ok d \<Longrightarrow> (dict_lookup (ticket_entries d))(''ContentRegionUnits'' \<mapsto> ''escl:ThreeHundredthsOfInches'') = ticket_values d"
  by (simp add: ticket_entries_def ticket_values_def Let_def dict_lookup_set dict_lookup_erase form_ok_inv form_ok_intros)

lemma ticket_getString:
  assumes "form_ok d" "xml_name n"
  shows "xml_getString (buildScanJobTicket d) n = (case ticket_values d n of Some v \<Rightarrow> v | None \<Rightarrow> [])"
proof -
  have "list_all xml_wf (ticket_xml (ticket_entries d))"
    using ticket_entries_ok[OF assms(1)] by (intro ticket_wf) (simp add: form_ok_def)
  from getString_documents[OF this assms(2)] show ?thesis
    unfolding ticket_print ticket_leaves by (simp add: dict_lookup_def flip: ticket_entries_lookup[OF assms(1)])
qed



subsection \<open>The settings of the job\<close>

lemma paper_names: "distinct (map fst paperSizes)"
  by (simp add: paperSizes_def)

lemma strtod_nat: "n < 2 ^ 53 \<Longrightarrow> strtod_c (dec_nat n) = Fin (of_nat n)"
  using read_double_dec_nat[of "[]" n] by (simp add: strtod_c_def number_end_def)

lemma strtod_resolution: "n < 2 ^ 53 \<Longrightarrow> strtod_c (dec_nat n @ '' dpi'') = Fin (of_nat n)"
  using read_double_dec_nat[of "'' dpi''" n] by (simp add: strtod_c_def number_end_def is_digit_def)

lemma strtod_one: "strtod_c ''0'' = Fin 0" "strtod_c ''1'' = Fin 1"
proof -
  have "dec_nat 0 = ''0''" "dec_nat 1 = ''1''" by code_simp+
  then show "strtod_c ''0'' = Fin 0" "strtod_c ''1'' = Fin 1" using strtod_nat[of 0] strtod_nat[of 1] by simp_all
qed

text \<open>The sides of the paper formats are printed in full.\<close>

lemma fmt_g_sides:
  "fmt_g 2480 = dec_nat 2480" "fmt_g 3508 = dec_nat 3508" "fmt_g 1748 = dec_nat 1748" "fmt_g 1240 = dec_nat 1240"
  "fmt_g 2550 = dec_nat 2550" "fmt_g 3300 = dec_nat 3300" "fmt_g 4200 = dec_nat 4200"
  by code_simp+

definition printed_size :: "int \<Rightarrow> bool" where
  "printed_size n \<longleftrightarrow> 0 < n \<and> strtod_c (wp_numtostr (dbl_of_int n)) = Fin (of_int n) \<and> CHR ''<'' \<notin> set (wp_numtostr (dbl_of_int n))"

lemma printed_sizeI: "fmt_g (of_nat n) = dec_nat n \<Longrightarrow> 0 < n \<Longrightarrow> n < 2 ^ 53 \<Longrightarrow> printed_size (int n)"
  using dbl_of_int_exact[of "int n"] strtod_nat[of n] dec_nat_digits[of "CHR ''<''" n]
  by (auto simp: printed_size_def wp_numtostr_def dbl_str_def is_digit_def simp flip: of_nat_less_iff)

lemma printed_sides:
  "printed_size 2480" "printed_size 3508" "printed_size 1748" "printed_size 1240" "printed_size 2550" "printed_size 3300"
  "printed_size 4200"
  using fmt_g_sides[THEN printed_sizeI[where n = "numeral _", unfolded of_nat_numeral]] by simp_all

lemma paper_numbers: "(name, w, h) \<in> set paperSizes \<Longrightarrow> w \<noteq> 0 \<Longrightarrow> printed_size w \<and> printed_size h"
  by (auto simp: paperSizes_def printed_sides)

definition with_paper :: "int \<Rightarrow> int \<Rightarrow> dictionary \<Rightarrow> dictionary" where
  "with_paper w h d = dict_set (dict_set d ''Width'' (wp_numtostr (dbl_of_int w))) ''Height'' (wp_numtostr (dbl_of_int h))"

lemma apply_paper_found:
  assumes "(name, w, h) \<in> set ps" "distinct (map fst ps)" "w \<noteq> 0" "h \<noteq> 0" "dict_lookup d ''PaperSize'' = Some name"
  shows "apply_paper sc ps d = Inr (with_paper w h d)"
proof -
  have "dict_find d ''PaperSize'' \<noteq> None" using assms(5) by (simp add: dict_find_lookup)
  then have r: "fst (dict_ref d ''PaperSize'') = d" by (auto simp: dict_ref_def)
  have g: "getString d ''PaperSize'' = name" using assms(5) by (simp add: getString_lookup)
  from assms(1,2) show ?thesis
  proof (induction ps)
    case (Cons p ps)
    obtain n w' h' where p: "p = (n, w', h')" by (cases p)
    show ?case
    proof (cases "n = name")
      case True
      with Cons.prems p have "w' = w" "h' = h" by force+
      with True p r g assms(3,4) show ?thesis by (simp add: with_paper_def)
    next
      case False
      with Cons p r g show ?thesis by simp
    qed
  qed simp
qed

lemma to_dbl_not_NaN [simp]: "to_dbl x \<noteq> NaN"
  by (simp add: to_dbl_def Let_def)

lemma scaled_not_NaN: "w \<noteq> 0 \<Longrightarrow> dmul (Fin w) (ddiv (Fin r) (Fin 300)) \<noteq> NaN"
  by (cases "to_dbl (r / 300)") (auto simp: dmul_def ddiv_def dinf_def dsign_def sgn_if)

lemma modes_known:
  "color_mode_match ''RGB24'' = Some (''RGB'', ''24'')" "color_mode_match ''Grayscale8'' = Some (''Grayscale'', ''8'')"
  "atoi ''24'' = 24" "atoi ''8'' = 8" "cdiv 24 3 = 8"
  by code_simp+

text \<open>What the ticket of a form says about the region, with the scale from 1/300 inch to pixels.\<close>

definition px_scale :: "nat \<Rightarrow> dbl" where
  "px_scale r = ddiv (Fin (of_nat r)) (Fin 300)"

lemma form_region:
  assumes "xml_getString xml ''XResolution'' = dec_nat r @ '' dpi''" "xml_getString xml ''YResolution'' = dec_nat r @ '' dpi''"
    and "xml_getString xml ''XOffset'' = ''0''" "xml_getString xml ''YOffset'' = ''0''"
    and "xml_getString xml ''ContentRegionUnits'' = ''escl:ThreeHundredthsOfInches''"
    and "xml_getString xml ''Width'' = wp_numtostr (dbl_of_int w)" "xml_getString xml ''Height'' = wp_numtostr (dbl_of_int h)"
    and "(name, w, h) \<in> set paperSizes" "w \<noteq> 0" "r < 2 ^ 31"
  shows "init_region sc xml j = Inr (False, j\<lparr>sj_left_px := dmul (Fin 0) (px_scale r), sj_top_px := dmul (Fin 0) (px_scale r),
     sj_width_px := dmul (Fin (of_int w)) (px_scale r), sj_height_px := dmul (Fin (of_int h)) (px_scale r), sj_res_dpi := int r\<rparr>)"
proof -
  have r: "r < 2 ^ 53" using assms(10) by (rule order_less_trans) simp
  have "(2 :: int) ^ 31 < 2 ^ 51" by simp
  moreover have i: "int r < 2 ^ 31" using assms(10) by (simp flip: of_nat_less_iff)
  ultimately have n: "dfloor (dadd (dbl_of_int (int r)) (Fin (1 / 2))) = Fin (of_nat r)" using nearest_int[of "int r"] by simp
  have d: "dbl_of_int (int r) = Fin (of_nat r)" using dbl_of_int_exact[of "int r"] i by simp
  have "int_of_dbl (dbl_of_int (int r)) = Inr (int r)" using i by (intro int_of_dbl_of_int) simp_all
  then have t: "int_of_dbl (Fin (of_nat r)) = Inr (int r)" by (simp only: d)
  have w: "w \<noteq> 0" "strtod_c (wp_numtostr (dbl_of_int w)) = Fin (of_int w)"
    and h: "h \<noteq> 0" "strtod_c (wp_numtostr (dbl_of_int h)) = Fin (of_int h)"
    using paper_numbers[OF assms(8,9)] by (auto simp: printed_size_def)
  have num: "xml_getNumber xml ''XResolution'' = Fin (of_nat r)" "xml_getNumber xml ''YResolution'' = Fin (of_nat r)"
    "xml_getNumber xml ''XOffset'' = Fin 0" "xml_getNumber xml ''YOffset'' = Fin 0"
    "xml_getNumber xml ''Width'' = Fin (of_int w)" "xml_getNumber xml ''Height'' = Fin (of_int h)"
    by (simp_all add: xml_getNumber_def assms(1-7) strtod_resolution[OF r] strtod_one w h)
  have nn: "dmul (Fin (of_int w)) (px_scale r) \<noteq> NaN" "dmul (Fin (of_int h)) (px_scale r) \<noteq> NaN"
    using w h by (simp_all add: px_scale_def scaled_not_NaN)
  show ?thesis
    unfolding init_region_def Let_def num assms(5) n[unfolded d] nan_default_def
    using nn by (simp add: t deq_def flip: px_scale_def)
qed

text \<open>What a user can choose in the form; \<open>r\<close> is the resolution and \<open>(name, w, h)\<close> the paper.\<close>

definition chosen :: "dictionary \<Rightarrow> nat \<Rightarrow> string \<Rightarrow> string \<Rightarrow> string \<Rightarrow> string \<Rightarrow> bool" where
  "chosen d r paper mode fmt src \<longleftrightarrow> form_ok d \<and>
     dict_lookup d ''Resolution'' = Some (dec_nat r @ '' dpi'') \<and> dict_lookup d ''PaperSize'' = Some paper \<and>
     dict_lookup d ''ColorMode'' = Some mode \<and> mode \<in> {''RGB24'', ''Grayscale8''} \<and>
     dict_lookup d ''DocumentFormat'' = Some fmt \<and> fmt \<noteq> [] \<and>
     dict_lookup d ''InputSource'' = Some src \<and> src \<in> {''Platen'', ''Feeder''} \<and> dict_lookup d ''Duplex'' = None"

definition page_dictionary :: "int \<Rightarrow> int \<Rightarrow> dictionary \<Rightarrow> dictionary" where
  "page_dictionary w h d = with_paper w h (dict_set d ''Intent'' ''TextAndGraphic'')"

lemma page_dictionary_ok:
  assumes "form_ok d" "printed_size w" "printed_size h"
  shows "form_ok (page_dictionary w h d)"
  using assms by (auto simp: page_dictionary_def with_paper_def printed_size_def intro!: form_ok_set ticket_names)

lemma page_dictionary_lookup:
  "dict_lookup (page_dictionary w h d) = (dict_lookup d)(''Intent'' \<mapsto> ''TextAndGraphic'',
     ''Width'' \<mapsto> wp_numtostr (dbl_of_int w), ''Height'' \<mapsto> wp_numtostr (dbl_of_int h))"
  by (simp add: page_dictionary_def with_paper_def dict_lookup_set)

lemma scan_dictionary_chosen:
  assumes "chosen d r paper mode fmt src" "(paper, w, h) \<in> set paperSizes" "w \<noteq> 0"
  shows "scan_dictionary sc False d = Inr (page_dictionary w h d)"
proof -
  have "h \<noteq> 0" using paper_numbers[OF assms(2,3)] by (auto simp: printed_size_def)
  then show ?thesis using apply_paper_found[OF assms(2) paper_names assms(3), of "dict_set d ''Intent'' ''TextAndGraphic''" sc] assms(1)
    by (simp add: scan_dictionary_def page_dictionary_def chosen_def dict_lookup_set)
qed

lemma chosen_ticket:
  assumes "chosen d r paper mode fmt src" "(paper, w, h) \<in> set paperSizes" "w \<noteq> 0"
  defines "xml \<equiv> buildScanJobTicket (page_dictionary w h d)"
  shows "xml_getString xml ''XResolution'' = dec_nat r @ '' dpi''" "xml_getString xml ''YResolution'' = dec_nat r @ '' dpi''"
    "xml_getString xml ''XOffset'' = ''0''" "xml_getString xml ''YOffset'' = ''0''"
    "xml_getString xml ''ContentRegionUnits'' = ''escl:ThreeHundredthsOfInches''"
    "xml_getString xml ''Width'' = wp_numtostr (dbl_of_int w)" "xml_getString xml ''Height'' = wp_numtostr (dbl_of_int h)"
    "xml_getString xml ''Intent'' = ''TextAndGraphic''" "xml_getString xml ''ColorMode'' = mode"
    "xml_getString xml ''DocumentFormat'' = fmt" "xml_getString xml ''InputSource'' = src" "xml_getString xml ''Duplex'' = []"
    "xml_getString xml ''ConcatIfPossible'' = ''1''"
proof -
  have "form_ok (page_dictionary w h d)"
    using assms(1) paper_numbers[OF assms(2,3)] by (intro page_dictionary_ok) (simp_all add: chosen_def)
  note g = ticket_getString[OF this, folded xml_def]
  note v = ticket_values_def page_dictionary_lookup getString_lookup ticket_names
  have d: "dict_lookup d ''Resolution'' = Some (dec_nat r @ '' dpi'')" "dict_lookup d ''ColorMode'' = Some mode"
    "dict_lookup d ''DocumentFormat'' = Some fmt" "dict_lookup d ''InputSource'' = Some src" "dict_lookup d ''Duplex'' = None"
    using assms(1) by (simp_all add: chosen_def)
  show "xml_getString xml ''XResolution'' = dec_nat r @ '' dpi''" "xml_getString xml ''YResolution'' = dec_nat r @ '' dpi''"
    "xml_getString xml ''XOffset'' = ''0''" "xml_getString xml ''YOffset'' = ''0''"
    "xml_getString xml ''ContentRegionUnits'' = ''escl:ThreeHundredthsOfInches''"
    "xml_getString xml ''Width'' = wp_numtostr (dbl_of_int w)" "xml_getString xml ''Height'' = wp_numtostr (dbl_of_int h)"
    "xml_getString xml ''Intent'' = ''TextAndGraphic''" "xml_getString xml ''ColorMode'' = mode"
    "xml_getString xml ''DocumentFormat'' = fmt" "xml_getString xml ''InputSource'' = src" "xml_getString xml ''Duplex'' = []"
    "xml_getString xml ''ConcatIfPossible'' = ''1''"
    by (simp_all add: g v d)
qed

definition geometry :: "scan_job \<Rightarrow> int \<times> dbl \<times> dbl \<times> string" where
  "geometry j = (sj_res_dpi j, sj_width_px j, sj_height_px j, sj_intent j)"

lemma applyDeviceOptions_geometry:
  "applyDeviceOptions pow si opts j = Inr j' \<Longrightarrow> geometry j' = geometry j"
  by (auto simp: applyDeviceOptions_def Let_def bind_result_Inr_iff geometry_def dest!: initGammaTable_keeps split: option.splits)


definition submitted :: dictionary where
  "submitted = [(''DocumentFormat'', ''application/pdf''), (''ColorMode'', ''RGB24''), (''InputSource'', ''Feeder''),
     (''PaperSize'', ''A4 Portrait''), (''Resolution'', ''300 dpi''), (''download'', ''Scan and download'')]"

lemma submitted_chosen: "chosen submitted 300 ''A4 Portrait'' ''RGB24'' MIME_TYPE_PDF ''Feeder''"
proof -
  have "dec_nat 300 = ''300''" by code_simp
  moreover have "form_ok submitted" unfolding form_ok_def dict_inv_def by code_simp
  ultimately show ?thesis by (simp add: chosen_def submitted_def dict_lookup_def MIME_TYPE_PDF_def)
qed


end
