(* ===== verification/AccessLog.thy ===== *)
theory AccessLog
  imports HttpServer
begin

text \<open>
  The access log of \<open>HttpServer::Private::handleRequest\<close> (\<open>src/web/httpserver.cpp\<close>): one line on standard output for each
  request that was let in, after its response was flushed. \<open>inet_ntop\<close> and \<open>strftime\<close> are arguments: \<open>ntop\<close> gives the text of an
  address and \<open>time\<close> the formatted time, or \<open>n/a\<close>.
\<close>

text \<open>A buffer of 128 characters is enough for each of the texts: \<open>inet_ntop\<close> needs 46 at most.\<close>

fun ipString :: "(8 word list \<Rightarrow> string) \<Rightarrow> sockaddr \<Rightarrow> string" where
  "ipString ntop (Inet a) = ntop a"
| "ipString ntop (Inet6 a) = ''['' @ ntop a @ '']''"
| "ipString ntop (UnixAddr p) = ''unix''"
| "ipString ntop OtherFamily = ''n/a''"

text \<open>The size in the log: what the stream has got since the header was sent.\<close>

definition log_size :: "response \<Rightarrow> int" where
  "log_size r = os_tellp (os_flush (rs_stream r)) - rs_contentBegin r"

definition access_log_line :: "(8 word list \<Rightarrow> string) \<Rightarrow> string \<Rightarrow> sockaddr \<Rightarrow> request \<Rightarrow> response \<Rightarrow> string" where
  "access_log_line ntop time address rq r =
     ipString ntop address @ '' - - ['' @ time @ ''] '' @
     chr_dquote # rq_method rq @ '' '' @ rq_uri rq @ chr_dquote # '' '' @
     dec_int (rs_status r) @ '' '' @ dec_int (log_size r) @
     '' '' @ chr_dquote # request_header rq HTTP_HEADER_REFERER @ [chr_dquote] @
     '' '' @ chr_dquote # request_header rq HTTP_HEADER_USER_AGENT @ [chr_dquote] @
     (if rq_logInfo rq = [] then [] else '' '' @ chr_dquote # rq_logInfo rq @ [chr_dquote]) @ [chr_nl]"

subsection \<open>The strings of a request\<close>

lemma nl_space [simp]: "is_space chr_nl"
  by (simp add: is_space_def)

lemma ctrim_no_nl [simp]: "chr_nl \<notin> set (ctrim s)"
  by (auto dest: ctrim_no_space)

lemma extract_word_no_nl: "extract_word s = Some (w, r) \<Longrightarrow> chr_nl \<notin> set w"
  by (auto simp: extract_word_def Let_def split: if_splits dest: set_takeWhileD)

lemma parse_request_line_words:
  "parse_request_line line = (ok, m, u, p) \<Longrightarrow> chr_nl \<notin> set m \<and> chr_nl \<notin> set u"
  by (auto simp: parse_request_line_def dest!: extract_word_no_nl split: option.splits)

definition clean_values :: "dictionary \<Rightarrow> bool" where
  "clean_values d \<longleftrightarrow> (\<forall>kv \<in> set d. chr_nl \<notin> set (snd kv))"

lemma request_headers_clean: "clean_values d \<Longrightarrow> clean_values (fst (snd (request_headers s d)))"
proof (induction s d rule: request_headers.induct)
  case (1 s d)
  have "clean_values (dict_set d k (ctrim v))" for k v
    using "1.prems" set_dict_set[of d k "ctrim v"] by (fastforce simp: clean_values_def)
  with 1 show ?case
    by (subst request_headers.simps) (auto split: option.splits prod.splits)
qed

lemma clean_getString:
  assumes "clean_values d"
  shows "chr_nl \<notin> set (getString d k)"
proof (cases "dict_find d k")
  case (Some i)
  then have "d ! i \<in> set d" using dict_find_SomeD by simp
  with assms Some show ?thesis by (simp add: getString_def clean_values_def)
qed (simp add: getString_def)

lemma parsed_request_strings:
  "chr_nl \<notin> set (rq_method (parse_request s))" "chr_nl \<notin> set (rq_uri (parse_request s))"
  "chr_nl \<notin> set (request_header (parse_request s) k)" "rq_logInfo (parse_request s) = []"
proof -
  have e: "clean_values []" by (simp add: clean_values_def)
  have h: "clean_values hs" if "request_headers s1 [] = (v, hs, s2)" for s1 v hs s2
    using request_headers_clean[OF e, of s1] that by simp
  show "chr_nl \<notin> set (rq_method (parse_request s))" "chr_nl \<notin> set (rq_uri (parse_request s))"
    by (auto simp: parse_request_def Let_def split: option.splits prod.splits dest: parse_request_line_words)
  have "clean_values (rq_headers (parse_request s))"
    by (auto simp: parse_request_def Let_def e split: option.splits prod.splits if_splits intro: h)
  then show "chr_nl \<notin> set (request_header (parse_request s) k)"
    by (simp add: request_header_def clean_getString)
  show "rq_logInfo (parse_request s) = []"
    by (simp add: parse_request_def Let_def split: option.splits prod.splits)
qed

lemma dec_int_no_nl [simp]: "chr_nl \<notin> set (dec_int i)"
  using ctrim_no_nl[of "dec_nat (nat i)"] ctrim_no_nl[of "dec_nat (nat (- i))"] by (simp add: dec_int_def)

subsection \<open>What the log says\<close>

text \<open>
  A client cannot write lines of its own into the access log: whatever bytes it sends, the log gets exactly one
  line for its request. (It can put quotation marks into the fields of that line.)
\<close>

theorem access_log_one_line:
  assumes "\<forall>a. chr_nl \<notin> set (ntop a)" "chr_nl \<notin> set time"
  shows "\<exists>l. access_log_line ntop time address (parse_request input) r = l @ [chr_nl] \<and> chr_nl \<notin> set l"
proof -
  have a: "chr_nl \<notin> set (ipString ntop address)" using assms(1) by (cases address) simp_all
  show ?thesis
    by (intro exI[of _ "butlast (access_log_line ntop time address (parse_request input) r)"])
      (use a assms(2) parsed_request_strings[of input] in \<open>simp add: access_log_line_def butlast_append\<close>)
qed

theorem access_log_one_line_witness:
  "\<exists>l. access_log_line (\<lambda>_. ''10.0.0.1'') ''n/a'' (Inet [10, 0, 0, 1]) (parse_request (''GET / HTTP/1.1'' @ crlf @ crlf))
     (response_init \<lparr>os_data = [], os_fail = False, os_flushes = [], os_cuts = []\<rparr>) = l @ [chr_nl] \<and> chr_nl \<notin> set l"
  by (rule access_log_one_line) simp_all

text \<open>The size is that of the content, when a content was sent in one piece and the client took it.\<close>

lemma log_size_content:
  assumes "open_response r" "sendWithContent s r = Inr r'"
  shows "log_size r' = int (length s)"
proof -
  let ?r = "setHeaderInt HTTP_HEADER_CONTENT_LENGTH (wrap32 (int (length s))) r"
  have o: "open_response ?r" 
    unfolding setHeaderInt_def using assms(1) by (intro open_response_setHeader) (simp_all add: header_names_distinct(2)[symmetric])
  from sendHeaders_plain[of ?r] o obtain r1 where
    r1: "sendHeaders ?r = Inr r1" "rs_chunk r1 = None" "os_reliable (rs_stream r1)"
      "rs_contentBegin r1 = int (length (os_data (rs_stream r1)))"
    by (auto simp: open_response_def)
  then show ?thesis using assms(2)
    by (auto simp: sendWithContent_def log_size_def resp_put_def resp_flush_def os_tellp_def)
qed

text \<open>When the client went away while the content was sent, the size in the log is negative.\<close>

lemma log_size_failed: "os_fail (rs_stream r) \<Longrightarrow> 0 \<le> rs_contentBegin r \<Longrightarrow> log_size r < 0"
  by (simp add: log_size_def os_tellp_def os_flush_def)

end
