(* ===== verification/DeviceSession.thy ===== *)
theory DeviceSession
  imports SaneCpp
begin

text \<open>
  Properties of the SANE wrapper of \<open>src/sanecpp/sanecpp.cpp\<close>: the table of options, reading scan data,
  and the reference count that pairs \<open>sane_init\<close> with \<open>sane_exit\<close>.
\<close>

text \<open>A backend with two named options and one without a name, whose data is its state.\<close>

definition demo_lib :: "string sane_lib" where
  "demo_lib =
     \<lparr>sl_init = (\<lambda>s. s), sl_exit = (\<lambda>s. s), sl_get_devices = (\<lambda>l s. (s, GOOD, [])),
      sl_open = (\<lambda>n s. (s, if n = ''x'' then GOOD else INVAL, 1)), sl_close = (\<lambda>h s. s),
      sl_descriptors = (\<lambda>h s. [10, 20, 30]),
      sl_deref = (\<lambda>a s. \<lparr>od_name = (if a = 10 then Some ''mode'' else if a = 30 then Some ''source'' else None),
                          od_type = T_STRING, od_unit = U_NONE, od_size = 1, od_cap = 0, od_constraint = C_NONE\<rparr>),
      sl_set_string = (\<lambda>h i v s. (s, INVAL, 0)), sl_get_string = (\<lambda>h i s. (INVAL, [])),
      sl_set_words = (\<lambda>h i v s. (s, INVAL, 0)), sl_get_words = (\<lambda>h i s. (INVAL, 0, [])),
      sl_start = (\<lambda>h s. (s, GOOD)), sl_get_parameters = (\<lambda>h s. (GOOD, no_parameters)),
      sl_read = (\<lambda>h n s. if s = [] then (s, EOF, []) else (drop n s, GOOD, take n s)),
      sl_cancel = (\<lambda>h s. s), sl_time = (\<lambda>s. 0)\<rparr>"

definition demo_world :: "string world" where
  "demo_world = \<lparr>w_sane = ''abc'', w_refcount = 0\<rparr>"

definition demo_session :: session where
  "demo_session = \<lparr>se_device = Some 1, se_options = \<lparr>os_device = Some 1, os_options = Map.empty\<rparr>,
     se_status = GOOD, se_parameters = no_parameters\<rparr>"

text \<open>Options are found by their name: a lookup yields the null option exactly for names that no option
  has, and otherwise an option with that name at the index under which SANE knows it.\<close>

lemma option_set_init_entry:
  "os_options (option_set_init lib (Some h) w) n = Some opt \<Longrightarrow>
     entry_ok lib (w_sane w) (sl_descriptors lib h (w_sane w)) n opt"
  using init_options_entry[of Map.empty lib "w_sane w" "[]" "sl_descriptors lib h (w_sane w)" n opt]
  by (simp add: option_set_init_def)

lemma option_set_init_dom:
  "n \<in> dom (os_options (option_set_init lib (Some h) w)) \<longleftrightarrow>
     n \<noteq> [] \<and> Some n \<in> (\<lambda>a. od_name (sl_deref lib a (w_sane w))) ` set (sl_descriptors lib h (w_sane w))"
  by (auto simp: option_set_init_def init_options_dom image_iff dest: sym)

subsection \<open>Properties\<close>

text \<open>C35: Options are found by name. For a device that is open, the table built by \<open>option_set::init\<close>
  has an entry for a name exactly when the device has an option of that name, looking up any other name
  yields the null option, and an entry carries the index under which the device knows the option.\<close>

theorem option_table_correct:
  assumes "os = option_set_init lib (Some h) w" "addrs = sl_descriptors lib h (w_sane w)"
  shows "(is_null (option_ref os n) \<longleftrightarrow>
      n = [] \<or> (\<forall>a \<in> set addrs. od_name (sl_deref lib a (w_sane w)) \<noteq> Some n)) \<and>
    (\<not> is_null (option_ref os n) \<longrightarrow> entry_ok lib (w_sane w) addrs n (option_ref os n))"
proof (cases "os_options os n")
  case None
  then have "n \<notin> dom (os_options os)" by auto
  with None show ?thesis
    using option_set_init_dom[of n lib h w]
    by (auto simp: option_ref_def s_nulloption_def is_null_def assms image_iff)
next
  case (Some opt)
  then have "n \<in> dom (os_options os)" by auto
  with Some show ?thesis
    using option_set_init_dom[of n lib h w] option_set_init_entry[of lib h w n opt]
    by (auto simp: option_ref_def is_null_def entry_ok_def assms image_iff)
qed

theorem option_table_correct_witness:
  "\<not> is_null (option_ref (option_set_init demo_lib (Some 2) demo_world) ''source'') \<and>
   op_index (option_ref (option_set_init demo_lib (Some 2) demo_world) ''source'') = 3 \<and>
   is_null (option_ref (option_set_init demo_lib (Some 2) demo_world) ''resolution'')"
proof -
  let ?o = "option_ref (option_set_init demo_lib (Some 2) demo_world)"
  note t = option_table_correct[OF refl refl, where lib = demo_lib and h = 2 and w = demo_world]
  have addrs: "sl_descriptors demo_lib 2 (w_sane demo_world) = [10, 20, 30]" by (simp add: demo_lib_def)
  have names: "od_name (sl_deref demo_lib 10 x) = Some ''mode''" "od_name (sl_deref demo_lib 20 x) = None"
      "od_name (sl_deref demo_lib 30 x) = Some ''source''" for x
    by (simp_all add: demo_lib_def)
  have e: "\<not> is_null (?o ''source'')" "is_null (?o ''resolution'')"
    using t[of "''source''"] t[of "''resolution''"] by (auto simp: addrs names)
  with t[of "''source''"] have "entry_ok demo_lib (w_sane demo_world) [10, 20, 30] ''source'' (?o ''source'')"
    by (simp add: addrs)
  then have "op_index (?o ''source'') \<in> {1, 2, 3}" "od_name (sl_deref demo_lib ([10, 20, 30] ! (op_index (?o ''source'') - 1)) (w_sane demo_world)) = Some ''source''"
    by (auto simp: entry_ok_def)
  then have "op_index (?o ''source'') = 3" by (auto simp: names)
  with e show ?thesis by simp
qed

text \<open>Reading scan data is complete. \<open>session::read\<close> returns, it keeps the size of the buffer and the
  reference count, and when it reports success the whole buffer is filled with the next bytes that the
  device delivers, in order, however the device cuts them into pieces.\<close>

theorem session_read_fills:
  assumes "se_device se = Some h" "reads_ok lib h"
  shows "\<exists>buf' se' w'. session_read lib buf se w = Some (Inr (buf', se', w')) \<and> length buf' = length buf \<and>
    w_refcount w' = w_refcount w \<and> se_device se' = Some h \<and> se_options se' = se_options se \<and>
    (se_status se' = GOOD \<longrightarrow> device_reads lib h (w_sane w) buf' (w_sane w'))"
proof -
  from read_loop_returns[OF assms(2), of 0 buf "w_sane w"] obtain st buf' s' where
    "read_loop lib h buf 0 (w_sane w) = Some (st, buf', s')" "length buf' = length buf"
    "st = GOOD \<longrightarrow> device_reads lib h (w_sane w) buf' s'"
    by auto
  with assms(1) show ?thesis by (simp add: session_read_def)
qed

theorem session_read_fills_witness:
  "\<exists>buf' se' w'. session_read demo_lib ''..'' demo_session demo_world = Some (Inr (buf', se', w')) \<and>
     length buf' = 2 \<and> se_device se' = Some 1"
proof -
  have "reads_ok demo_lib 1" by (auto simp: reads_ok_def demo_lib_def split: if_splits)
  moreover have "se_device demo_session = Some 1" by (simp add: demo_session_def)
  ultimately show ?thesis using session_read_fills[of demo_session 1 demo_lib "''..''" demo_world] by auto
qed

text \<open>C36: Every device handle holds one reference to the SANE library. Opening a session adds one exactly
  when it succeeds, destroying the session takes it back, listing the devices keeps the count, and none of
  them trips the assertion in \<open>sane_init_release\<close>.\<close>

theorem sane_references_balanced:
  assumes "0 \<le> w_refcount w"
  shows "(\<exists>se w1 w2. session_open lib name w = Inr (se, w1) \<and>
      w_refcount w1 = w_refcount w + (if se_status se = GOOD then 1 else 0) \<and>
      session_destroy lib se w1 = Inr w2 \<and> w_refcount w2 = w_refcount w) \<and>
    (\<exists>devs w3. enumerate_devices lib localonly w = Inr (devs, w3) \<and> w_refcount w3 = w_refcount w)"
proof
  obtain se w1 where o: "session_open lib name w = Inr (se, w1)"
    "w_refcount w1 = w_refcount w + handles_of (se_device se)" "se_device se = None \<longleftrightarrow> se_status se \<noteq> GOOD"
    by (rule session_open_ok[OF assms])
  obtain w2 where "session_destroy lib se w1 = Inr w2" "w_refcount w2 = w_refcount w1 - handles_of (se_device se)"
    using session_destroy_ok[of se w1 lib] o(2) assms by auto
  with o show "\<exists>se w1 w2. session_open lib name w = Inr (se, w1) \<and>
      w_refcount w1 = w_refcount w + (if se_status se = GOOD then 1 else 0) \<and>
      session_destroy lib se w1 = Inr w2 \<and> w_refcount w2 = w_refcount w"
    by (auto simp: handles_of_def)
next
  obtain s st devs where g: "sl_get_devices lib localonly (w_sane (sane_init_addref lib w)) = (s, st, devs)"
    by (metis prod_cases3)
  let ?w = "(sane_init_addref lib w)\<lparr>w_sane := s\<rparr>"
  obtain w3 where "sane_init_release lib ?w = Inr w3" "w_refcount w3 = w_refcount w"
    using sane_init_release_ok[of ?w lib] assms by auto
  with g show "\<exists>devs w3. enumerate_devices lib localonly w = Inr (devs, w3) \<and> w_refcount w3 = w_refcount w"
    by (simp add: enumerate_devices_def Let_def)
qed

theorem sane_references_balanced_witness:
  "\<exists>se w1 w2. session_open demo_lib ''x'' demo_world = Inr (se, w1) \<and>
     session_destroy demo_lib se w1 = Inr w2 \<and> w_refcount w2 = 0"
  using sane_references_balanced[of demo_world demo_lib "''x''" True] by (auto simp: demo_world_def)

end
