(* ===== verification/JpegDest.thy ===== *)
theory JpegDest
  imports RasterEncoder
begin

text \<open>
  \<open>OstreamDestinationMgr\<close> of \<open>src/imageformats/jpegencoder.cpp\<close>: the object through which libjpeg writes its output to the
  stream of the encoder, by way of a buffer of 4096 bytes.

  libjpeg is not part of the repository. What it does with the object is the relation \<open>dest_write\<close>, which has the rules
  that the documentation of libjpeg gives for a destination manager: bytes go to \<open>next_output_byte\<close>, the two
  fields move with them, and \<open>empty_output_buffer\<close> is called when the buffer has become full. The library may keep the fields
  in variables of its own meanwhile (libjpeg-turbo does), so their values are arbitrary at the time of that call.
  The theorem is that the stream gets exactly the bytes that were written, in order. This is the
  meaning that the bytes of a \<open>raster_lib\<close> have in \<open>re_put\<close>.
\<close>

definition buffer_size :: nat where
  "buffer_size = 4096"

record dest_mgr =
  dm_buffer :: string
  dm_free :: nat      \<comment> \<open>\<open>free_in_buffer\<close>\<close>
  dm_next :: nat      \<comment> \<open>\<open>next_output_byte\<close>, as an index of the buffer\<close>
  dm_os :: "ostream option"

definition dm_init :: "dest_mgr \<Rightarrow> dest_mgr" where
  "dm_init d = d\<lparr>dm_free := buffer_size, dm_next := 0\<rparr>"

definition dm_term :: "dest_mgr \<Rightarrow> dest_mgr" where
  "dm_term d = (case dm_os d of None \<Rightarrow> d
     | Some os \<Rightarrow> d\<lparr>dm_os := Some (os_put (take (buffer_size - dm_free d) (dm_buffer d)) os)\<rparr>)"

definition dm_empty_buffer :: "dest_mgr \<Rightarrow> bool \<times> dest_mgr" where
  "dm_empty_buffer d =
     (let d1 = d\<lparr>dm_free := 0\<rparr>;
          d2 = d1\<lparr>dm_next := buffer_size\<rparr>
      in (True, dm_init (dm_term d2)))"

subsection \<open>How the library uses it\<close>

text \<open>The buffer with bytes \<open>bs\<close> stored from index \<open>n\<close> on.\<close>

definition store :: "nat \<Rightarrow> string \<Rightarrow> string \<Rightarrow> string" where
  "store n bs buf = take n buf @ bs @ drop (n + length bs) buf"

inductive dest_write :: "dest_mgr \<Rightarrow> string \<Rightarrow> dest_mgr \<Rightarrow> bool" where
  nothing: "dest_write d [] d"
| some: "dest_write d bs d1 \<Longrightarrow> length cs < dm_free d1 \<Longrightarrow>
    d2 = d1\<lparr>dm_buffer := store (dm_next d1) cs (dm_buffer d1), dm_next := dm_next d1 + length cs,
            dm_free := dm_free d1 - length cs\<rparr> \<Longrightarrow>
    dest_write d (bs @ cs) d2"
| full: "dest_write d bs d1 \<Longrightarrow> length cs = dm_free d1 \<Longrightarrow>
    dm_empty_buffer (d1\<lparr>dm_buffer := store (dm_next d1) cs (dm_buffer d1), dm_next := n, dm_free := f\<rparr>) = (True, d2) \<Longrightarrow>
    dest_write d (bs @ cs) d2"

subsection \<open>Every byte arrives once\<close>

lemma os_put_put [simp]: "os_put t (os_put s os) = os_put (s @ t) os"
  by (simp add: os_put_def)

lemma os_put_Nil [simp]: "os_put [] os = os"
  by (simp add: os_put_def)

lemma length_store [simp]: "n + length bs \<le> length buf \<Longrightarrow> length (store n bs buf) = length buf"
  by (simp add: store_def)

lemma take_store [simp]: "n \<le> length buf \<Longrightarrow> take (n + length bs) (store n bs buf) = take n buf @ bs"
  by (simp add: store_def)

text \<open>
  Between two calls the fields agree with each other, and what the stream has got together with what waits in the buffer
  is what was written.
\<close>

definition dest_inv :: "ostream option \<Rightarrow> string \<Rightarrow> dest_mgr \<Rightarrow> bool" where
  "dest_inv os bs d \<longleftrightarrow> length (dm_buffer d) = buffer_size \<and> dm_next d + dm_free d = buffer_size \<and> 0 < dm_free d \<and>
     map_option (os_put (take (dm_next d) (dm_buffer d))) (dm_os d) = map_option (os_put bs) os"

lemma dest_inv_init: "length (dm_buffer d) = buffer_size \<Longrightarrow> dest_inv (dm_os d) [] (dm_init d)"
  by (simp add: dest_inv_def dm_init_def buffer_size_def)

lemma dest_inv_some:
  assumes "dest_inv os bs d" "length cs < dm_free d"
  shows "dest_inv os (bs @ cs) (d\<lparr>dm_buffer := store (dm_next d) cs (dm_buffer d), dm_next := dm_next d + length cs,
    dm_free := dm_free d - length cs\<rparr>)"
  using assms by (cases os; cases "dm_os d") (auto simp: dest_inv_def simp flip: os_put_put)

lemma dest_inv_full:
  assumes "dest_inv os bs d" "length cs = dm_free d"
  shows "dest_inv os (bs @ cs)
    (snd (dm_empty_buffer (d\<lparr>dm_buffer := store (dm_next d) cs (dm_buffer d), dm_next := n, dm_free := f\<rparr>)))"
proof -
  let ?b = "store (dm_next d) cs (dm_buffer d)"
  have l: "length ?b = buffer_size" "dm_next d + length cs = buffer_size" using assms by (simp_all add: dest_inv_def)
  have "take buffer_size ?b = take (dm_next d) (dm_buffer d) @ cs"
    using take_store[of "dm_next d" "dm_buffer d" cs] assms by (auto simp: dest_inv_def)
  then show ?thesis using assms l
    by (cases os; cases "dm_os d")
       (auto simp: dest_inv_def dm_empty_buffer_def dm_term_def dm_init_def buffer_size_def simp flip: os_put_put)
qed

lemma dest_inv_write: "dest_write d bs d' \<Longrightarrow> dest_inv os as d \<Longrightarrow> dest_inv os (as @ bs) d'"
proof (induction rule: dest_write.induct)
  case (some d bs d1 cs d2) then show ?case using dest_inv_some[of os "as @ bs" d1 cs] by simp
next
  case (full d bs d1 cs n f d2) then show ?case using dest_inv_full[of os "as @ bs" d1 cs n f] by simp
qed simp

lemma dest_inv_term: "dest_inv os bs d \<Longrightarrow> dm_os (dm_term d) = map_option (os_put bs) os"
proof -
  assume i: "dest_inv os bs d"
  then have "buffer_size - dm_free d = dm_next d" by (auto simp: dest_inv_def)
  then show ?thesis using i by (cases "dm_os d") (auto simp: dest_inv_def dm_term_def)
qed

text \<open>The buffer never asks the library to wait, so the library never has to try again.\<close>

lemma dm_empty_buffer_ready: "fst (dm_empty_buffer d) \<and> dm_free (snd (dm_empty_buffer d)) = buffer_size"
  by (simp add: dm_empty_buffer_def dm_init_def)

text \<open>C17: 
  An image whose encoder has the destination \<open>ie_dest e\<close>: when the library begins with \<open>init_destination\<close>, writes
  the bytes \<open>bs\<close> by any sequence of stores and buffer flushes, and ends with \<open>term_destination\<close>, the
  stream has got \<open>bs\<close>, all of it, in order and once, which is what \<open>re_put\<close> says.
\<close>

theorem jpeg_destination_refines:
  assumes "length (dm_buffer d) = buffer_size" "dm_os d = ie_dest e"
    and "dest_write (dm_init d) bs d'"
  shows "dm_os (dm_term d') = ie_dest (re_put bs e)"
  using dest_inv_term[OF dest_inv_write[OF assms(3) dest_inv_init[OF assms(1)]]] assms(2) by (simp add: re_put_def)

text \<open>More than one buffer: 4096 bytes at once, with stale fields, and three more.\<close>

definition demo_stream :: ostream where
  "demo_stream = \<lparr>os_data = ''head'', os_fail = False, os_flushes = [], os_cuts = []\<rparr>"

definition demo_dest :: dest_mgr where
  "demo_dest = \<lparr>dm_buffer = replicate 4096 (CHR ''?''), dm_free = 0, dm_next = 0, dm_os = Some demo_stream\<rparr>"

theorem jpeg_destination_refines_witness:
  "\<exists>d'. dest_write (dm_init demo_dest) (replicate 4096 (CHR ''x'') @ ''end'') d' \<and>
     dm_os (dm_term d') = Some (os_put (replicate 4096 (CHR ''x'') @ ''end'') demo_stream)"
proof -
  let ?e = "raster_init\<lparr>ie_dest := Some demo_stream\<rparr> :: unit raster_encoder"
  let ?xs = "replicate 4096 (CHR ''x'')"
  let ?d = "dm_init demo_dest"
  obtain d1 where e: "dm_empty_buffer (?d\<lparr>dm_buffer := store (dm_next ?d) ?xs (dm_buffer ?d), dm_next := 7, dm_free := 9\<rparr>) = (True, d1)"
    by (simp add: dm_empty_buffer_def Let_def)
  have "dest_write ?d ([] @ ?xs) d1"
    by (rule dest_write.full[OF dest_write.nothing _ e]) (simp add: dm_init_def buffer_size_def)
  moreover have "dm_free d1 = 4096" using e by (auto simp: dm_empty_buffer_def dm_init_def buffer_size_def)
  ultimately have "\<exists>d'. dest_write ?d (?xs @ ''end'') d'"
    by (intro exI) (rule dest_write.some[of ?d ?xs d1 "''end''", OF _ _ refl], simp_all)
  then obtain d' where d': "dest_write ?d (?xs @ ''end'') d'" by blast
  have "dm_os (dm_term d') = ie_dest (re_put (?xs @ ''end'') ?e)"
    by (rule jpeg_destination_refines[OF _ _ d']) (simp_all add: demo_dest_def buffer_size_def)
  with d' show ?thesis by (auto simp: re_put_def)
qed

end
