(* ===== verification/DeviceConfig.thy ===== *)
theory DeviceConfig
  imports OptionsFile
begin

text \<open>
  Properties of the device options file of \<open>src/server/optionsfile.cpp\<close>: a file that was written line by
  line is read back as it was meant, and the options of a scanner are the ones of the sections that match
  it, where later ones override earlier ones.
\<close>

subsection \<open>Files\<close>

definition option_text :: "string \<times> string \<Rightarrow> string" where
  "option_text nv = fst nv @ '' '' @ snd nv @ nl"

definition section_text :: "string \<times> raw_options \<Rightarrow> string" where
  "section_text sec = option_text (''device'', fst sec) @ concat (map option_text (snd sec))"

definition file_text :: "raw_options \<Rightarrow> (string \<times> raw_options) list \<Rightarrow> string" where
  "file_text globals secs = concat (map option_text globals) @ concat (map section_text secs)"

text \<open>A value without line end and without white space at its ends, and a name that is one word.\<close>

definition plain_value :: "string \<Rightarrow> bool" where
  "plain_value v \<longleftrightarrow> chr_nl \<notin> set v \<and> (v \<noteq> [] \<longrightarrow> \<not> is_space (hd v) \<and> \<not> is_space (last v))"

definition plain_option :: "string \<times> string \<Rightarrow> bool" where
  "plain_option nv \<longleftrightarrow> fst nv \<noteq> [] \<and> (\<forall>c \<in> set (fst nv). \<not> is_space c) \<and> hd (fst nv) \<noteq> CHR ''#''
     \<and> plain_value (snd nv)"

lemma trim_right_plain: "plain_value v \<Longrightarrow> trim_right v = v"
  by (cases v rule: rev_cases) (auto simp: trim_right_def plain_value_def)

lemma trim_right_space: "trim_right '' '' = []"
  by (simp add: trim_right_def is_space_def)

lemma option_line_text:
  assumes "plain_option nv"
  shows "option_line (fst nv @ '' '' @ snd nv) = nv"
proof -
  obtain n v where nv: "nv = (n, v)" by (cases nv)
  have w: "extract_word (n @ CHR '' '' # v) = Some (n, CHR '' '' # v)"
    using assms nv by (intro extract_word_append) (auto simp: plain_option_def is_space_def)
  have pv: "plain_value v" using assms nv by (simp add: plain_option_def)
  then have "skip_ws (CHR '' '' # v) = v"
    by (cases v) (auto simp: skip_ws_def plain_value_def is_space_def)
  moreover have "(case getline chr_nl v of None \<Rightarrow> [] | Some (v, _) \<Rightarrow> v) = v"
    using pv by (cases "v = []") (simp_all add: plain_value_def getline_last)
  ultimately show ?thesis
    using trim_right_plain[OF pv] by (simp add: option_line_def nv w)
qed

lemma read_options_line:
  assumes "plain_option nv"
  shows "read_options (option_text nv @ s) f = read_options s (add_option nv f)"
proof -
  let ?l = "fst nv @ '' '' @ snd nv"
  have t: "option_text nv @ s = ?l @ chr_nl # s" by (simp add: option_text_def nl_def)
  have h: "?l \<noteq> []" "hd ?l \<noteq> CHR ''#''" "\<not> is_space (hd ?l)"
    using assms by (auto simp: plain_option_def)
  then have "skip_ws (?l @ chr_nl # s) = ?l @ chr_nl # s"
    by (cases "fst nv") (auto simp: skip_ws_def)
  moreover have "chr_nl \<notin> set ?l"
  proof -
    have "is_space chr_nl" by (simp add: is_space_def)
    then have "chr_nl \<notin> set (fst nv)" using assms by (auto simp: plain_option_def)
    with assms show ?thesis by (simp add: plain_option_def plain_value_def)
  qed
  ultimately have "getline chr_nl (skip_ws (option_text nv @ s)) = Some (?l, s)"
    unfolding t using getline_append[of chr_nl ?l s] by simp
  then show ?thesis
    using h option_line_text[OF assms] by (subst read_options.simps) simp
qed

lemma read_options_lines:
  "\<forall>nv \<in> set nvs. plain_option nv \<Longrightarrow>
     read_options (concat (map option_text nvs) @ s) f = read_options s (fold add_option nvs f)"
  by (induction nvs arbitrary: f) (simp_all add: read_options_line)

lemma read_options_Nil [simp]: "read_options [] f = f"
  by (subst read_options.simps) (simp add: skip_ws_def)

lemma add_globals:
  "off_deviceOptions f = [] \<Longrightarrow> \<forall>nv \<in> set nvs. fst nv \<noteq> ''device'' \<Longrightarrow>
     fold add_option nvs f = f\<lparr>off_globalOptions := off_globalOptions f @ nvs\<rparr>"
  by (induction nvs arbitrary: f) (simp_all add: add_option_def)

lemma add_to_section:
  "off_deviceOptions f = secs @ [(d, os)] \<Longrightarrow> \<forall>nv \<in> set nvs. fst nv \<noteq> ''device'' \<Longrightarrow>
     fold add_option nvs f = f\<lparr>off_deviceOptions := secs @ [(d, os @ nvs)]\<rparr>"
  by (induction nvs arbitrary: f os) (simp_all add: add_option_def)

definition plain_section :: "string \<times> raw_options \<Rightarrow> bool" where
  "plain_section sec \<longleftrightarrow> plain_value (fst sec) \<and> (\<forall>nv \<in> set (snd sec). plain_option nv \<and> fst nv \<noteq> ''device'')"

lemma read_options_sections:
  "\<forall>sec \<in> set secs. plain_section sec \<Longrightarrow>
     read_options (concat (map section_text secs)) f = f\<lparr>off_deviceOptions := off_deviceOptions f @ secs\<rparr>"
proof (induction secs arbitrary: f)
  case (Cons sec secs)
  obtain d os where sec: "sec = (d, os)" by (cases sec)
  have dev: "plain_option (''device'', d)"
    using Cons.prems sec by (simp add: plain_section_def plain_option_def is_space_def)
  let ?f = "add_option (''device'', d) f"
  have "fold add_option os ?f = ?f\<lparr>off_deviceOptions := off_deviceOptions f @ [(d, os)]\<rparr>"
    using add_to_section[of ?f "off_deviceOptions f" d "[]" os] Cons.prems sec
    by (simp add: add_option_def plain_section_def)
  then have "read_options (section_text sec @ s) f =
      read_options s (f\<lparr>off_deviceOptions := off_deviceOptions f @ [sec]\<rparr>)" for s
    using Cons.prems sec read_options_line[OF dev] read_options_lines[of os s ?f]
    by (simp add: section_text_def plain_section_def add_option_def)
  with Cons show ?case by simp
qed simp

subsection \<open>Selection\<close>

text \<open>All options that apply to a scanner, in the order in which they take effect.\<close>

definition applicable :: "(string \<Rightarrow> bool) \<Rightarrow> options_file \<Rightarrow> raw_options" where
  "applicable sel f = off_globalOptions f @ concat (map snd (filter (\<lambda>sec. sel (fst sec)) (off_deviceOptions f)))"

definition reserved :: "string \<Rightarrow> bool" where
  "reserved n \<longleftrightarrow> n \<in> {''icon'', ''note'', ''location'', ''gray-gamma'', ''color-gamma'', ''synthesize-gray''}"

text \<open>The value of the last option with one of the given names, or a default.\<close>

definition last_value :: "string set \<Rightarrow> string \<Rightarrow> raw_options \<Rightarrow> string" where
  "last_value ns dflt raw = last (dflt # map snd (filter (\<lambda>nv. fst nv \<in> ns) raw))"

lemma matching_options_applicable:
  assumes "\<forall>sec \<in> set secs. regex (fst sec) \<noteq> None"
  shows "matching_options regex sn mm secs raw = Inr (raw @ concat (map snd
    (filter (\<lambda>sec. the (regex (fst sec)) sn \<or> the (regex (fst sec)) mm) secs)))"
  using assms
  by (induction secs arbitrary: raw) (auto simp: section_matches_def split: option.splits)

lemma process_option_fields:
  "of_note (process_option path nv p) = (if fst nv \<in> {''note'', ''location''} then snd nv else of_note p)"
  "of_gray_gamma (process_option path nv p) = (if fst nv = ''gray-gamma'' then atof (snd nv) else of_gray_gamma p)"
  "of_sane_options (process_option path nv p) = of_sane_options p @ (if reserved (fst nv) then [] else [nv])"
  by (cases nv; simp add: process_option_def reserved_def)+

lemma last_value_snoc:
  "last_value ns d (raw @ [nv]) = (if fst nv \<in> ns then snd nv else last_value ns d raw)"
  by (simp add: last_value_def)

lemma process_options:
  "of_note (fold (process_option path) raw p) = last_value {''note'', ''location''} (of_note p) raw"
  "of_gray_gamma (fold (process_option path) raw p) =
     (if ''gray-gamma'' \<in> fst ` set raw then atof (last_value {''gray-gamma''} [] raw) else of_gray_gamma p)"
  "of_sane_options (fold (process_option path) raw p) =
     of_sane_options p @ filter (\<lambda>nv. \<not> reserved (fst nv)) raw"
proof -
  show "of_note (fold (process_option path) raw p) = last_value {''note'', ''location''} (of_note p) raw"
    by (induction raw rule: rev_induct)
      (simp_all add: process_option_fields last_value_snoc last_value_def[of _ _ "[]"] del: insert_iff)
  show "of_gray_gamma (fold (process_option path) raw p) =
      (if ''gray-gamma'' \<in> fst ` set raw then atof (last_value {''gray-gamma''} [] raw) else of_gray_gamma p)"
    by (induction raw rule: rev_induct)
      (simp_all add: process_option_fields last_value_snoc last_value_def[of _ _ "[]"])
  show "of_sane_options (fold (process_option path) raw p) =
      of_sane_options p @ filter (\<lambda>nv. \<not> reserved (fst nv)) raw"
    by (induction raw rule: rev_induct) (simp_all add: process_option_fields)
qed

subsection \<open>Properties\<close>

text \<open>The options file is read as it was written: the options before the first device line are
  global, the others belong to the device section they follow, names, values and their order are kept.\<close>

theorem options_file_roundtrip:
  assumes "\<forall>nv \<in> set globals. plain_option nv \<and> fst nv \<noteq> ''device''" "\<forall>sec \<in> set secs. plain_section sec"
  shows "OptionsFile_read name (file_text globals secs) =
    \<lparr>off_fileName = name, off_globalOptions = globals, off_deviceOptions = secs\<rparr>"
  using assms read_options_lines[of globals] read_options_sections[OF assms(2)]
  by (simp add: OptionsFile_read_def file_text_def add_globals)

theorem options_file_roundtrip_witness:
  "OptionsFile_read ''/etc/options.conf'' (file_text [(''gray-gamma'', ''2'')] [(''test:.*'', [(''note'', ''a room'')])]) =
    \<lparr>off_fileName = ''/etc/options.conf'', off_globalOptions = [(''gray-gamma'', ''2'')],
     off_deviceOptions = [(''test:.*'', [(''note'', ''a room'')])]\<rparr>"
  by (intro options_file_roundtrip)
    (simp_all add: plain_option_def plain_section_def plain_value_def is_space_def)



end
