(* ===== verification/Fdbuf.thy ===== *)
theory Fdbuf
  imports HttpMessage
begin

text \<open>
  \<open>src/basic/fdbuf.cpp\<close>: the stream buffer over a file descriptor, and the stream that the HTTP server
  puts around it.

  The kernel is the environment: the outcomes of future calls of \<open>write\<close> are part of the state, all data is
  accepted when they are used up; incoming data is a list of events. A call of \<open>write\<close> may accept only part
  of the data, be interrupted, or fail; a call of \<open>read\<close> may deliver less than it was asked for.
\<close>

subsection \<open>Output\<close>

datatype write_result = Wrote nat | WIntr | WFail

text \<open>
  \<open>ob_pending\<close> is what lies between \<open>pbase\<close> and \<open>pptr\<close>, \<open>ob_total\<close> is \<open>mTotalWritten\<close> and
  \<open>ob_sink\<close> what the kernel has accepted so far.
\<close>

record outbuf =
  ob_pending :: string
  ob_total :: nat
  ob_sink :: string
  ob_kernel :: "write_result list"

definition bufsize :: nat where
  "bufsize = 4096"

definition outbuf_init :: "write_result list \<Rightarrow> outbuf" where
  "outbuf_init k = \<lparr>ob_pending = [], ob_total = 0, ob_sink = [], ob_kernel = k\<rparr>"

text \<open>The loop of \<open>sync\<close> over the data that is left; its result is the return value \<open>0\<close> or \<open>-1\<close>.\<close>

fun write_loop :: "write_result list \<Rightarrow> string \<Rightarrow> outbuf \<Rightarrow> outbuf \<times> int" where
  "write_loop [] p b =
     (b\<lparr>ob_total := ob_total b + length p, ob_sink := ob_sink b @ p, ob_kernel := []\<rparr>, 0)"
| "write_loop (r # rs) p b =
     (if p = [] then (b\<lparr>ob_kernel := r # rs\<rparr>, 0)
      else case r of
             WFail \<Rightarrow> (b\<lparr>ob_kernel := rs\<rparr>, - 1)
           | WIntr \<Rightarrow> write_loop rs p b
           | Wrote k \<Rightarrow>
               write_loop rs (drop k p)
                 (b\<lparr>ob_total := ob_total b + min k (length p), ob_sink := ob_sink b @ take k p\<rparr>))"

definition fd_sync :: "outbuf \<Rightarrow> outbuf \<times> int" where
  "fd_sync b = write_loop (ob_kernel b) (ob_pending b) (b\<lparr>ob_pending := []\<rparr>)"

text \<open>One byte of the buffer is kept back by \<open>setp\<close> for the character that \<open>overflow\<close> receives.\<close>

definition fd_overflow :: "char \<Rightarrow> outbuf \<Rightarrow> outbuf \<times> bool" where
  "fd_overflow c b = (let (b', r) = fd_sync (b\<lparr>ob_pending := ob_pending b @ [c]\<rparr>) in (b', r = 0))"

definition fd_sputc :: "char \<Rightarrow> outbuf \<Rightarrow> outbuf \<times> bool" where
  "fd_sputc c b =
     (if length (ob_pending b) < bufsize - 1 then (b\<lparr>ob_pending := ob_pending b @ [c]\<rparr>, True)
      else fd_overflow c b)"

fun fd_sputn :: "string \<Rightarrow> outbuf \<Rightarrow> outbuf \<times> bool" where
  "fd_sputn [] b = (b, True)"
| "fd_sputn (c # cs) b = (let (b', ok) = fd_sputc c b in if ok then fd_sputn cs b' else (b', False))"

definition fd_seekoff :: "outbuf \<Rightarrow> int" where
  "fd_seekoff b = int (ob_total b + length (ob_pending b))"

text \<open>The destructor: its own \<open>sync\<close>, whose result is ignored, then the descriptor is closed.\<close>

definition fdbuf_destroy :: "outbuf \<Rightarrow> string" where
  "fdbuf_destroy b = ob_sink (fst (fd_sync b))"

text \<open>A \<open>std::ostream\<close> on the buffer: a failed operation sets \<open>badbit\<close>, after which nothing happens.\<close>

record fdstream =
  fs_buf :: outbuf
  fs_bad :: bool

definition fs_put :: "string \<Rightarrow> fdstream \<Rightarrow> fdstream" where
  "fs_put s f = (if fs_bad f then f else
     let (b, ok) = fd_sputn s (fs_buf f) in \<lparr>fs_buf = b, fs_bad = \<not> ok\<rparr>)"

definition fs_flush :: "fdstream \<Rightarrow> fdstream" where
  "fs_flush f = (if fs_bad f then f else
     let (b, r) = fd_sync (fs_buf f) in \<lparr>fs_buf = b, fs_bad = (r \<noteq> 0)\<rparr>)"

definition fs_tellp :: "fdstream \<Rightarrow> int" where
  "fs_tellp f = (if fs_bad f then - 1 else fd_seekoff (fs_buf f))"

subsection \<open>Input\<close>

datatype read_event = Data string | RIntr | RFail

datatype ioctl_result = Available | NotTTY | IoctlFailed

text \<open>
  The get area starts at the beginning of \<open>mInbuf\<close> once there is one; \<open>ib_area\<close> holds the offsets of
  \<open>gptr\<close> and \<open>egptr\<close>.
\<close>

record inbuf =
  ib_buf :: string
  ib_putback :: nat
  ib_area :: "(nat \<times> nat) option"
  ib_events :: "read_event list"
  ib_ioctl :: ioctl_result

definition inbuf_init :: "string \<Rightarrow> nat \<Rightarrow> ioctl_result \<Rightarrow> read_event list \<Rightarrow> inbuf result" where
  "inbuf_init garbage putback io evs =
     (if putback < bufsize
      then Inr \<lparr>ib_buf = garbage, ib_putback = putback, ib_area = None, ib_events = evs, ib_ioctl = io\<rparr>
      else Inl AssertFailure)"

text \<open>\<open>FIONREAD\<close> reports what has arrived, \<open>read\<close> takes at most what it is asked for.\<close>

fun events_available :: "read_event list \<Rightarrow> nat" where
  "events_available (Data d # evs) = length d"
| "events_available evs = 0"

fun kernel_read :: "nat \<Rightarrow> read_event list \<Rightarrow> read_event \<times> read_event list" where
  "kernel_read n [] = (Data [], [])"
| "kernel_read n (Data d # evs) = (Data (take n d), if drop n d = [] then evs else Data (drop n d) # evs)"
| "kernel_read n (e # evs) = (e, evs)"

definition read_size :: "inbuf \<Rightarrow> nat \<Rightarrow> nat option" where
  "read_size ib start = (case ib_ioctl ib of
      Available \<Rightarrow> Some (max (min (events_available (ib_events ib)) (bufsize - start)) 1)
    | NotTTY \<Rightarrow> Some (bufsize - start)
    | IoctlFailed \<Rightarrow> None)"

text \<open>\<open>*gptr()\<close>, which need not lie in the get area nor even in the buffer.\<close>

definition at_gptr :: "inbuf \<Rightarrow> char result" where
  "at_gptr ib = (case ib_area ib of None \<Rightarrow> Inl NullDeref
     | Some (g, e) \<Rightarrow> if g < length (ib_buf ib) then Inr (ib_buf ib ! g) else Inl MemoryUB)"

text \<open>\<open>underflow\<close>, where \<open>None\<close> is \<open>eof\<close>; \<open>fd_fill\<close> is what follows the call of \<open>memmove\<close>.\<close>

definition fd_fill :: "nat \<Rightarrow> string \<Rightarrow> inbuf \<Rightarrow> (inbuf \<times> char option) result" where
  "fd_fill start buf ib =
     (case read_size ib start of None \<Rightarrow> Inr (ib\<lparr>ib_buf := buf\<rparr>, None)
      | Some n \<Rightarrow>
          (let (ev, evs) = kernel_read n (ib_events ib);
               ib1 = ib\<lparr>ib_buf := buf, ib_events := evs\<rparr> in
           case ev of
             RFail \<Rightarrow> Inr (ib1, None)
           | RIntr \<Rightarrow> bind_result (at_gptr ib1) (\<lambda>c. Inr (ib1, Some c))
           | Data d \<Rightarrow>
               if d = [] then Inr (ib1, None)
               else
                 let ib2 = ib1\<lparr>ib_buf := take start buf @ d @ drop (start + length d) buf,
                               ib_area := Some (start, start + length d)\<rparr>
                 in bind_result (at_gptr ib2) (\<lambda>c. Inr (ib2, Some c))))"

definition fd_underflow :: "inbuf \<Rightarrow> (inbuf \<times> char option) result" where
  "fd_underflow ib =
     (case ib_area ib of
        None \<Rightarrow> fd_fill 0 (ib_buf ib) ib
      | Some (g, e) \<Rightarrow>
          if g < e then bind_result (at_gptr ib) (\<lambda>c. Inr (ib, Some c))
          else if g < ib_putback ib then Inl MemoryUB
          else fd_fill (ib_putback ib)
            (take (ib_putback ib) (drop (g - ib_putback ib) (ib_buf ib)) @ drop (ib_putback ib) (ib_buf ib)) ib)"

text \<open>\<open>sbumpc\<close>: the current character, \<open>gptr\<close> moves on.\<close>

definition fd_sbumpc :: "inbuf \<Rightarrow> (inbuf \<times> char option) result" where
  "fd_sbumpc ib = bind_result (fd_underflow ib) (\<lambda>(ib', c). case c of None \<Rightarrow> Inr (ib', None)
     | Some ch \<Rightarrow> Inr (ib'\<lparr>ib_area := map_option (\<lambda>(g, e). (g + 1, e)) (ib_area ib')\<rparr>, Some ch))"

fun fd_gets :: "nat \<Rightarrow> inbuf \<Rightarrow> (inbuf \<times> string) result" where
  "fd_gets 0 ib = Inr (ib, [])"
| "fd_gets (Suc n) ib = bind_result (fd_sbumpc ib) (\<lambda>(ib1, c). case c of None \<Rightarrow> Inr (ib1, [])
     | Some ch \<Rightarrow> bind_result (fd_gets n ib1) (\<lambda>(ib2, s). Inr (ib2, ch # s)))"

subsection \<open>Output: nothing is lost, reordered or written twice\<close>

text \<open>The data handed over so far, as the buffer accounts for it.\<close>

definition out_inv :: "outbuf \<Rightarrow> bool" where
  "out_inv b \<longleftrightarrow> length (ob_pending b) < bufsize \<and> ob_total b = length (ob_sink b)"

lemma write_loop_ok:
  assumes "write_loop rs p b = (b', r)" "ob_total b = length (ob_sink b)"
  shows "(r = 0 \<longrightarrow> ob_sink b' = ob_sink b @ p) \<and> (r = 0 \<or> r = - 1) \<and> prefix (ob_sink b') (ob_sink b @ p) \<and>
    ob_total b' = length (ob_sink b') \<and> ob_pending b' = ob_pending b \<and>
    (WFail \<notin> set rs \<longrightarrow> r = 0) \<and> set (ob_kernel b') \<subseteq> set rs"
  using assms
proof (induction rs p b rule: write_loop.induct)
  case (2 x rs p b)
  show ?case
  proof (cases "p = []")
    case True
    with 2(3,4) show ?thesis by auto
  next
    case False
    note IH = 2(1)[OF False] 2(2)[OF False]
    show ?thesis
    proof (cases x)
      case (Wrote k)
      have s: "ob_sink b @ p = (ob_sink b @ take k p) @ drop k p" by simp
      from IH(1)[OF Wrote] 2(3,4) Wrote False show ?thesis
        unfolding s by (auto simp: min.commute)
    qed (use IH 2(3,4) False in auto)
  qed
qed auto

lemma fd_sync_ok:
  assumes "fd_sync b = (b', r)" "ob_total b = length (ob_sink b)"
  shows "out_inv b' \<and> ob_pending b' = [] \<and> prefix (ob_sink b') (ob_sink b @ ob_pending b) \<and>
    (r = 0 \<longrightarrow> ob_sink b' = ob_sink b @ ob_pending b) \<and>
    (WFail \<notin> set (ob_kernel b) \<longrightarrow> r = 0) \<and> set (ob_kernel b') \<subseteq> set (ob_kernel b)"
  using write_loop_ok[OF assms(1)[unfolded fd_sync_def]] assms(2)
  by (auto simp: out_inv_def bufsize_def)

lemma fd_sputc_ok:
  assumes "fd_sputc c b = (b', ok)" "out_inv b"
  shows "out_inv b' \<and> prefix (ob_sink b') (ob_sink b @ ob_pending b @ [c]) \<and>
    (ok \<longrightarrow> ob_sink b' @ ob_pending b' = ob_sink b @ ob_pending b @ [c]) \<and>
    (WFail \<notin> set (ob_kernel b) \<longrightarrow> ok) \<and> set (ob_kernel b') \<subseteq> set (ob_kernel b)"
proof (cases "length (ob_pending b) < bufsize - 1")
  case True
  with assms show ?thesis by (auto simp: fd_sputc_def out_inv_def)
next
  case False
  let ?b = "b\<lparr>ob_pending := ob_pending b @ [c]\<rparr>"
  obtain b1 r where s: "fd_sync ?b = (b1, r)" by (cases "fd_sync ?b")
  with False assms(1) have "b' = b1" "ok = (r = 0)" by (auto simp: fd_sputc_def fd_overflow_def)
  with fd_sync_ok[OF s] assms(2) show ?thesis by (auto simp: out_inv_def)
qed

lemma fd_sputn_ok:
  assumes "fd_sputn s b = (b', ok)" "out_inv b"
  shows "out_inv b' \<and> prefix (ob_sink b') (ob_sink b @ ob_pending b @ s) \<and>
    (ok \<longrightarrow> ob_sink b' @ ob_pending b' = ob_sink b @ ob_pending b @ s) \<and>
    (WFail \<notin> set (ob_kernel b) \<longrightarrow> ok) \<and> set (ob_kernel b') \<subseteq> set (ob_kernel b)"
  using assms
proof (induction s arbitrary: b)
  case (Cons c s)
  obtain b1 ok1 where c: "fd_sputc c b = (b1, ok1)" by (cases "fd_sputc c b")
  note h = fd_sputc_ok[OF c Cons.prems(2)]
  show ?case
  proof (cases ok1)
    case True
    with Cons.prems(1) c have "fd_sputn s b1 = (b', ok)" by simp
    note IH = Cons.IH[OF this]
    have "ob_sink b1 @ ob_pending b1 @ s = ob_sink b @ ob_pending b @ c # s"
      using h True by (metis append_assoc append_Cons append_Nil)
    with IH h True show ?thesis by auto
  next
    case False
    with Cons.prems(1) c have e: "b' = b1" "\<not> ok" by simp_all
    have "prefix (ob_sink b1) ((ob_sink b @ ob_pending b @ [c]) @ s)" using h by (simp only: prefix_prefix)
    with e h False show ?thesis by simp
  qed
qed (auto simp: out_inv_def)

subsection \<open>The stream refines the abstract one\<close>

fun fs_op :: "stream_op \<Rightarrow> fdstream \<Rightarrow> fdstream" where
  "fs_op (Put s) f = fs_put s f"
| "fs_op Flush f = fs_flush f"

fun os_op :: "stream_op \<Rightarrow> ostream \<Rightarrow> ostream" where
  "os_op (Put s) os = os_put s os"
| "os_op Flush os = os_flush os"

text \<open>
  What is known of a stream to which the data \<open>d\<close> was handed: the kernel has accepted a prefix of it, and
  as long as the stream is good the rest is in the buffer.
\<close>

definition fs_inv :: "string \<Rightarrow> fdstream \<Rightarrow> bool" where
  "fs_inv d f \<longleftrightarrow> out_inv (fs_buf f) \<and> prefix (ob_sink (fs_buf f)) d \<and>
     (\<not> fs_bad f \<longrightarrow> ob_sink (fs_buf f) @ ob_pending (fs_buf f) = d)"

lemma fs_put_inv [inv_intros]:
  assumes "fs_inv d f"
  shows "fs_inv (d @ s) (fs_put s f)"
proof (cases "fs_bad f")
  case True
  with assms show ?thesis by (auto simp: fs_inv_def fs_put_def)
next
  case False
  obtain b ok where p: "fd_sputn s (fs_buf f) = (b, ok)" by (cases "fd_sputn s (fs_buf f)")
  have "out_inv (fs_buf f)" "ob_sink (fs_buf f) @ ob_pending (fs_buf f) = d"
    using assms False by (auto simp: fs_inv_def)
  with fd_sputn_ok[OF p] False p show ?thesis by (auto simp: fs_inv_def fs_put_def)
qed

lemma fs_flush_inv [inv_intros]:
  assumes "fs_inv d f"
  shows "fs_inv d (fs_flush f) \<and> (\<not> fs_bad (fs_flush f) \<longrightarrow> ob_sink (fs_buf (fs_flush f)) = d)"
proof (cases "fs_bad f")
  case True
  with assms show ?thesis by (auto simp: fs_inv_def fs_flush_def)
next
  case False
  obtain b r where p: "fd_sync (fs_buf f) = (b, r)" by (cases "fd_sync (fs_buf f)")
  have "ob_total (fs_buf f) = length (ob_sink (fs_buf f))" "ob_sink (fs_buf f) @ ob_pending (fs_buf f) = d"
    using assms False by (auto simp: fs_inv_def out_inv_def)
  with fd_sync_ok[OF p] False p show ?thesis by (auto simp: fs_inv_def fs_flush_def)
qed

lemma fs_ops_inv: "fs_inv d f \<Longrightarrow> fs_inv (d @ concat (map op_data ops)) (fold fs_op ops f)"
proof (induction ops arbitrary: d f)
  case (Cons x ops)
  then show ?case
    using fs_put_inv[OF Cons.prems] fs_flush_inv[OF Cons.prems] by (cases x) fastforce+
qed simp

text \<open>Without a failing \<open>write\<close>, however short or often interrupted, no operation fails.\<close>

definition never_fails :: "fdstream \<Rightarrow> bool" where
  "never_fails f \<longleftrightarrow> \<not> fs_bad f \<and> WFail \<notin> set (ob_kernel (fs_buf f))"

lemma fs_op_never_fails:
  assumes "fs_inv d f" "never_fails f"
  shows "never_fails (fs_op x f)"
proof (cases x)
  case (Put s)
  obtain b ok where p: "fd_sputn s (fs_buf f) = (b, ok)" by (cases "fd_sputn s (fs_buf f)")
  have "out_inv (fs_buf f)" using assms(1) by (simp add: fs_inv_def)
  from fd_sputn_ok[OF p this] assms(2) p Put show ?thesis by (auto simp: never_fails_def fs_put_def)
next
  case Flush
  obtain b r where p: "fd_sync (fs_buf f) = (b, r)" by (cases "fd_sync (fs_buf f)")
  have "ob_total (fs_buf f) = length (ob_sink (fs_buf f))" using assms(1) by (simp add: fs_inv_def out_inv_def)
  from fd_sync_ok[OF p this] assms(2) p Flush show ?thesis by (auto simp: never_fails_def fs_flush_def)
qed

definition fs_init :: "write_result list \<Rightarrow> fdstream" where
  "fs_init k = \<lparr>fs_buf = outbuf_init k, fs_bad = False\<rparr>"

lemma fs_init_inv: "fs_inv [] (fs_init k)"
  by (simp add: fs_inv_def fs_init_def outbuf_init_def out_inv_def bufsize_def)

lemma fs_ops_never_fails:
  "fs_inv d f \<Longrightarrow> never_fails f \<Longrightarrow> never_fails (fold fs_op ops f)"
proof (induction ops arbitrary: d f)
  case (Cons x ops)
  have "fs_inv (d @ op_data x) (fs_op x f)" using fs_ops_inv[OF Cons.prems(1), of "[x]"] by simp
  with Cons fs_op_never_fails[OF Cons.prems] show ?case by simp
qed simp

lemma os_ops_reliable:
  "os_reliable os \<Longrightarrow> os_reliable (fold os_op ops os) \<and>
     os_data (fold os_op ops os) = os_data os @ concat (map op_data ops)"
proof (induction ops arbitrary: os)
  case (Cons x ops)
  then show ?case by (cases x) simp_all
qed simp

subsection \<open>Input: everything arrives in order\<close>

fun event_data :: "read_event \<Rightarrow> string" where
  "event_data (Data d) = d" | "event_data e = []"

fun plain_event :: "read_event \<Rightarrow> bool" where
  "plain_event (Data d) = (d \<noteq> [])" | "plain_event e = False"

text \<open>What can still be read: the rest of the get area, then what has arrived.\<close>

definition in_rest :: "inbuf \<Rightarrow> string" where
  "in_rest ib = (case ib_area ib of None \<Rightarrow> [] | Some (g, e) \<Rightarrow> drop g (take e (ib_buf ib))) @
     concat (map event_data (ib_events ib))"

definition in_inv :: "inbuf \<Rightarrow> bool" where
  "in_inv ib \<longleftrightarrow> length (ib_buf ib) = bufsize \<and> ib_putback ib = 1 \<and> ib_ioctl ib \<noteq> IoctlFailed \<and>
     (\<forall>ev \<in> set (ib_events ib). plain_event ev) \<and>
     (case ib_area ib of None \<Rightarrow> True | Some (g, e) \<Rightarrow> g \<le> e \<and> 1 \<le> e \<and> e \<le> bufsize)"

lemma read_size_bound:
  assumes "ib_ioctl ib \<noteq> IoctlFailed" "start < bufsize"
  obtains n where "read_size ib start = Some n" "0 < n" "n \<le> bufsize - start"
  using assms by (cases "ib_ioctl ib") (auto simp: read_size_def)

lemma kernel_read_data:
  assumes "plain_event ev" "0 < n"
  obtains d evs' where "kernel_read n (ev # evs) = (Data d, evs')" "d \<noteq> []" "length d \<le> n"
    "d @ concat (map event_data evs') = event_data ev @ concat (map event_data evs)"
    "\<forall>x \<in> set evs'. x \<in> set evs \<or> plain_event x"
proof (cases ev)
  case (Data d)
  show thesis
  proof (rule that)
    show "kernel_read n (ev # evs) = (Data (take n d), if drop n d = [] then evs else Data (drop n d) # evs)"
      using Data by simp
    show "take n d \<noteq> []" using assms Data by simp
    show "take n d @ concat (map event_data (if drop n d = [] then evs else Data (drop n d) # evs)) =
        event_data ev @ concat (map event_data evs)"
      using Data by (cases "drop n d = []") (simp_all flip: append_assoc)
  qed (use assms Data in auto)
qed (use assms in auto)

text \<open>The three ways \<open>underflow\<close> can go on a healthy connection.\<close>

lemma underflow_buffered:
  assumes "in_inv ib" "ib_area ib = Some (g, e)" "g < e"
  shows "fd_underflow ib = Inr (ib, Some (ib_buf ib ! g)) \<and> hd (in_rest ib) = ib_buf ib ! g \<and> in_rest ib \<noteq> []"
proof -
  have l: "e \<le> length (ib_buf ib)" using assms by (simp add: in_inv_def)
  then have "drop g (take e (ib_buf ib)) = ib_buf ib ! g # drop (Suc g) (take e (ib_buf ib))"
    using assms(3) by (subst Cons_nth_drop_Suc[symmetric]) simp_all
  with assms l show ?thesis by (simp add: fd_underflow_def at_gptr_def in_rest_def)
qed

text \<open>Where the new data goes, and the buffer after the last character was moved to its start.\<close>

definition refill :: "inbuf \<Rightarrow> nat \<times> string" where
  "refill ib = (case ib_area ib of None \<Rightarrow> (0, ib_buf ib)
     | Some (g, e) \<Rightarrow> (1, take 1 (drop (g - 1) (ib_buf ib)) @ drop 1 (ib_buf ib)))"

definition drained :: "inbuf \<Rightarrow> bool" where
  "drained ib \<longleftrightarrow> (case ib_area ib of None \<Rightarrow> True | Some (g, e) \<Rightarrow> g = e)"

lemma underflow_refill:
  "in_inv ib \<Longrightarrow> drained ib \<Longrightarrow> fd_underflow ib = fd_fill (fst (refill ib)) (snd (refill ib)) ib"
  by (auto simp: fd_underflow_def drained_def in_inv_def refill_def split: option.splits)

lemma refill_bounds:
  assumes "in_inv ib" "drained ib"
  shows "fst (refill ib) \<le> 1" "length (snd (refill ib)) = bufsize" "in_rest ib = concat (map event_data (ib_events ib))"
  using assms by (cases "ib_area ib"; auto simp: drained_def in_inv_def refill_def in_rest_def bufsize_def)+

lemma underflow_new_data:
  assumes "in_inv ib" "drained ib" "in_rest ib \<noteq> []"
  obtains ib' g e where "fd_underflow ib = Inr (ib', Some (hd (in_rest ib)))" "in_inv ib'"
    "in_rest ib' = in_rest ib" "ib_area ib' = Some (g, e)" "g < e"
proof -
  let ?s = "fst (refill ib)" and ?b = "snd (refill ib)"
  note r = refill_bounds[OF assms(1,2)]
  have io: "ib_ioctl ib \<noteq> IoctlFailed" and pe: "\<forall>ev \<in> set (ib_events ib). plain_event ev"
    using assms(1) by (auto simp: in_inv_def)
  have "?s < bufsize" using r(1) by (simp add: bufsize_def)
  then obtain n where n: "read_size ib ?s = Some n" "0 < n" "n \<le> bufsize - ?s"
    by (rule read_size_bound[OF io])
  obtain ev evs where ev: "ib_events ib = ev # evs" using r(3) assms(3) by (cases "ib_events ib") auto
  then have "plain_event ev" using pe by simp
  then obtain d evs' where d: "kernel_read n (ib_events ib) = (Data d, evs')" "d \<noteq> []" "length d \<le> n"
      "d @ concat (map event_data evs') = in_rest ib" "\<forall>x \<in> set evs'. x \<in> set evs \<or> plain_event x"
    using kernel_read_data[OF _ n(2), of ev evs] r(3) ev by auto
  have pe': "\<forall>ev \<in> set evs'. plain_event ev" using d(5) pe ev by auto
  let ?ib = "ib\<lparr>ib_events := evs', ib_buf := take ?s ?b @ d @ drop (?s + length d) ?b,
    ib_area := Some (?s, ?s + length d)\<rparr>"
  have len: "?s + length d \<le> bufsize" using d(3) n(3) \<open>?s < bufsize\<close> by simp
  have ts: "length (take ?s ?b) = ?s" using r(2) \<open>?s < bufsize\<close> by simp
  have at: "at_gptr ?ib = Inr (hd d)"
    using d(2) ts len r(2) by (cases d) (simp_all add: at_gptr_def nth_append)
  have "hd (in_rest ib) = hd d" using d(2,4) by (metis hd_append2)
  then have "fd_underflow ib = Inr (?ib, Some (hd (in_rest ib)))"
    unfolding underflow_refill[OF assms(1,2)] fd_fill_def n(1) option.case d(1) Let_def prod.case read_event.case
    using d(2) at by simp
  moreover have "in_inv ?ib"
    using assms(1) pe' len d(2) r(2) ts by (cases d) (auto simp: in_inv_def)
  moreover have "drop ?s (take (?s + length d) (take ?s ?b @ d @ drop (?s + length d) ?b)) = d"
    using ts by (simp add: take_add)
  then have "in_rest ?ib = in_rest ib" using d(4) by (simp add: in_rest_def)
  ultimately show thesis using that[of ?ib ?s "?s + length d"] d(2) by simp
qed

lemma underflow_eof:
  assumes "in_inv ib" "drained ib" "in_rest ib = []"
  obtains ib' where "fd_underflow ib = Inr (ib', None)"
proof -
  note r = refill_bounds[OF assms(1,2)]
  have io: "ib_ioctl ib \<noteq> IoctlFailed" using assms(1) by (simp add: in_inv_def)
  have "fst (refill ib) < bufsize" using r(1) by (simp add: bufsize_def)
  then obtain n where n: "read_size ib (fst (refill ib)) = Some n" by (rule read_size_bound[OF io])
  have "ib_events ib = []"
  proof (cases "ib_events ib")
    case (Cons ev evs)
    then show ?thesis using r(3) assms(1,3) by (cases ev) (auto simp: in_inv_def)
  qed
  then show thesis
    using that unfolding underflow_refill[OF assms(1,2)] fd_fill_def n option.case by simp
qed

lemma sbumpc_next:
  assumes "in_inv ib" "in_rest ib = c # r"
  obtains ib' where "fd_sbumpc ib = Inr (ib', Some c)" "in_inv ib'" "in_rest ib' = r"
proof -
  obtain ib1 g e where u: "fd_underflow ib = Inr (ib1, Some c)" "in_inv ib1" "in_rest ib1 = c # r"
      "ib_area ib1 = Some (g, e)" "g < e"
  proof (cases "drained ib")
    case True
    then show ?thesis using underflow_new_data[OF assms(1) True] assms(2) that by fastforce
  next
    case False
    then obtain g e where ge: "ib_area ib = Some (g, e)" "g < e"
      using assms(1) by (auto simp: drained_def in_inv_def split: option.splits)
    with underflow_buffered[OF assms(1) ge] assms show ?thesis by (intro that[of ib g e]) auto
  qed
  have l: "e \<le> length (ib_buf ib1)" using u(2,4) by (simp add: in_inv_def)
  then have "drop g (take e (ib_buf ib1)) = ib_buf ib1 ! g # drop (Suc g) (take e (ib_buf ib1))"
    using u(5) by (subst Cons_nth_drop_Suc[symmetric]) simp_all
  with u have "in_rest (ib1\<lparr>ib_area := Some (g + 1, e)\<rparr>) = r" by (simp add: in_rest_def)
  moreover have "in_inv (ib1\<lparr>ib_area := Some (g + 1, e)\<rparr>)" using u(2,4,5) by (simp add: in_inv_def)
  ultimately show thesis using u that by (simp add: fd_sbumpc_def)
qed

lemma gets_all:
  "in_inv ib \<Longrightarrow> \<exists>ib'. fd_gets n ib = Inr (ib', take n (in_rest ib))"
proof (induction n arbitrary: ib)
  case (Suc n)
  show ?case
  proof (cases "in_rest ib")
    case Nil
    have "drained ib"
    proof (rule ccontr)
      assume "\<not> drained ib"
      then obtain g e where "ib_area ib = Some (g, e)" "g < e"
        using Suc.prems by (auto simp: drained_def in_inv_def split: option.splits)
      from underflow_buffered[OF Suc.prems this] Nil show False by simp
    qed
    from underflow_eof[OF Suc.prems this Nil] obtain ib' where "fd_underflow ib = Inr (ib', None)" .
    with Nil show ?thesis by (simp add: fd_sbumpc_def)
  next
    case (Cons c r)
    from sbumpc_next[OF Suc.prems Cons] obtain ib1 where
      b: "fd_sbumpc ib = Inr (ib1, Some c)" "in_inv ib1" "in_rest ib1 = r" .
    from Suc.IH[OF b(2)] b Cons show ?thesis by auto
  qed
qed simp

subsection \<open>Properties\<close>

text \<open>What is written to a connection arrives. Whatever the kernel does with the single calls of
  \<open>write\<close>, the peer gets a prefix of what was put into the stream, and all of it once the buffer is
  destroyed if no call failed; the buffer never holds more than its 4096 bytes.\<close>

theorem fd_output_prefix:
  "prefix (ob_sink (fs_buf (fold fs_op ops (fs_init k)))) (concat (map op_data ops)) \<and>
   length (ob_pending (fs_buf (fold fs_op ops (fs_init k)))) < bufsize \<and>
   (WFail \<notin> set k \<longrightarrow> fdbuf_destroy (fs_buf (fold fs_op ops (fs_init k))) = concat (map op_data ops))"
proof -
  let ?f = "fold fs_op ops (fs_init k)"
  have inv: "fs_inv (concat (map op_data ops)) ?f" using fs_ops_inv[OF fs_init_inv, of ops k] by simp
  have "fdbuf_destroy (fs_buf ?f) = concat (map op_data ops)" if "WFail \<notin> set k"
  proof -
    have "never_fails (fs_init k)" using that by (simp add: never_fails_def fs_init_def outbuf_init_def)
    then have nf: "never_fails ?f" by (rule fs_ops_never_fails[OF fs_init_inv])
    obtain b r where s: "fd_sync (fs_buf ?f) = (b, r)" by (cases "fd_sync (fs_buf ?f)")
    have "ob_total (fs_buf ?f) = length (ob_sink (fs_buf ?f))" using inv by (simp add: fs_inv_def out_inv_def)
    from fd_sync_ok[OF s this] nf inv s show ?thesis
      by (auto simp: fdbuf_destroy_def never_fails_def fs_inv_def)
  qed
  with inv show ?thesis by (auto simp: fs_inv_def out_inv_def)
qed

theorem fd_output_prefix_witness:
  "fdbuf_destroy (fs_buf (fold fs_op [Put ''ab'', Flush, Put ''cd''] (fs_init [Wrote 1, WIntr, Wrote 0]))) = ''abcd''"
  using fd_output_prefix[of "[Put ''ab'', Flush, Put ''cd'']" "[Wrote 1, WIntr, Wrote 0]"] by simp

text \<open>C39: The stream over a file descriptor implements the abstract stream on which the protocol is
  verified: when no call of \<open>write\<close> fails, both accept the same data, report the same position and stay
  good, for every sequence of writes and flushes.\<close>

theorem fd_stream_refines:
  assumes "WFail \<notin> set k" "os_reliable os" "os_data os = []"
  shows "let f = fold fs_op ops (fs_init k); a = fold os_op ops os in
    ob_sink (fs_buf f) @ ob_pending (fs_buf f) = os_data a \<and> fs_bad f = os_fail a \<and> fs_tellp f = os_tellp a"
proof -
  let ?f = "fold fs_op ops (fs_init k)"
  have inv: "fs_inv (concat (map op_data ops)) ?f" using fs_ops_inv[OF fs_init_inv, of ops k] by simp
  have "never_fails (fs_init k)" using assms(1) by (simp add: never_fails_def fs_init_def outbuf_init_def)
  then have nf: "never_fails ?f" by (rule fs_ops_never_fails[OF fs_init_inv])
  have sp: "ob_sink (fs_buf ?f) @ ob_pending (fs_buf ?f) = concat (map op_data ops)"
    "ob_total (fs_buf ?f) = length (ob_sink (fs_buf ?f))"
    using inv nf by (auto simp: fs_inv_def never_fails_def out_inv_def)
  have "length (concat (map op_data ops)) = length (ob_sink (fs_buf ?f)) + length (ob_pending (fs_buf ?f))"
    by (simp only: sp(1)[symmetric] length_append)
  with sp nf os_ops_reliable[OF assms(2), of ops] assms(3) show ?thesis
    by (auto simp: Let_def never_fails_def fs_tellp_def fd_seekoff_def os_tellp_def)
qed

theorem fd_stream_refines_witness:
  "fs_tellp (fold fs_op [Put ''ab'', Flush, Put ''c''] (fs_init [Wrote 1])) = 3"
proof -
  let ?os = "\<lparr>os_data = [], os_fail = False, os_flushes = [], os_cuts = []\<rparr>"
  have "WFail \<notin> set [Wrote 1]" "os_reliable ?os" "os_data ?os = []" by (simp_all add: os_reliable_def)
  from fd_stream_refines[OF this, of "[Put ''ab'', Flush, Put ''c'']"] show ?thesis
    by (simp add: Let_def os_put_def os_flush_def os_tellp_def)
qed

text \<open>What the peer sends is read. On a connection without interruptions and errors, reading any number
  of characters yields exactly the first ones of what arrives, across any number of refills of the buffer.\<close>

theorem fd_input_complete:
  assumes "length garbage = bufsize" "io \<noteq> IoctlFailed" "\<forall>ev \<in> set evs. plain_event ev"
  shows "\<exists>ib ib'. inbuf_init garbage 1 io evs = Inr ib \<and>
    fd_gets n ib = Inr (ib', take n (concat (map event_data evs)))"
proof -
  let ?ib = "\<lparr>ib_buf = garbage, ib_putback = 1, ib_area = None, ib_events = evs, ib_ioctl = io\<rparr>"
  have "inbuf_init garbage 1 io evs = Inr ?ib" by (simp add: inbuf_init_def bufsize_def)
  moreover have "in_inv ?ib" "in_rest ?ib = concat (map event_data evs)"
    using assms by (simp_all add: in_inv_def in_rest_def)
  ultimately show ?thesis using gets_all[of ?ib n] by auto
qed

theorem fd_input_complete_witness:
  "\<exists>ib ib'. inbuf_init (replicate bufsize (CHR 0x00)) 1 Available [Data ''GET'', Data '' /''] = Inr ib \<and>
     fd_gets 4 ib = Inr (ib', ''GET '')"
proof -
  have "length (replicate bufsize (CHR 0x00)) = bufsize" "Available \<noteq> IoctlFailed"
      "\<forall>ev \<in> set [Data ''GET'', Data '' /'']. plain_event ev"
    by simp_all
  from fd_input_complete[OF this, of 4] show ?thesis by (simp add: eval_nat_numeral)
qed

text \<open>When the very first \<open>read\<close> is interrupted by a signal, \<open>underflow\<close> dereferences a null pointer:
  there is no get area yet, and an interrupted \<open>read\<close> is treated as if there were one.\<close>

theorem fd_input_interrupted:
  assumes "inbuf_init garbage putback io (RIntr # evs) = Inr ib" "io \<noteq> IoctlFailed"
  shows "fd_underflow ib = Inl NullDeref"
proof -
  have ib: "ib = \<lparr>ib_buf = garbage, ib_putback = putback, ib_area = None, ib_events = RIntr # evs, ib_ioctl = io\<rparr>"
    using assms(1) by (auto simp: inbuf_init_def split: if_splits)
  then obtain n where "read_size ib 0 = Some n"
    using read_size_bound[of ib 0] assms(2) by (auto simp: bufsize_def)
  with ib show ?thesis by (simp add: fd_underflow_def fd_fill_def at_gptr_def Let_def)
qed

theorem fd_input_interrupted_witness:
  "\<exists>ib. inbuf_init (replicate bufsize (CHR 0x00)) 1 Available [RIntr] = Inr ib \<and> fd_underflow ib = Inl NullDeref"
proof -
  obtain ib where ib: "inbuf_init (replicate bufsize (CHR 0x00)) 1 Available [RIntr] = Inr ib"
    by (simp add: inbuf_init_def bufsize_def)
  from fd_input_interrupted[OF this] ib show ?thesis by simp
qed

end
