(* ===== verification/WorkerThread.thy ===== *)
theory WorkerThread
  imports AirSane_Prelude
begin

text \<open>
  \<open>src/basic/workerthread.cpp\<close>: a thread that executes calls on behalf of other threads. Every section of the
  code that holds the mutex is one step: waiting for a condition releases the mutex, so the threads
  interleave exactly between these steps. \<open>mTerminate\<close> is read without the mutex at the head of the
  worker's loop, which is a step of its own. A spurious or missing wake-up does not occur in the model: a
  waiting thread can go on as soon as its predicate holds.

  \<open>wt_log\<close> records the calls in the order of their execution.
\<close>

datatype worker_pc = WStarting | WLoop | WWaiting | WEnded

text \<open>A client is outside of the object, inside the constructor, or blocked in \<open>executeSynchronously\<close>.\<close>

datatype 'c client_pc = Ready | Blocked 'c

record 'c worker_thread =
  wt_callable :: "'c option"
  wt_callDone :: bool
  wt_started :: bool
  wt_terminate :: bool
  wt_worker :: worker_pc
  wt_client :: "nat \<Rightarrow> 'c client_pc"
  wt_failed :: bool
  wt_log :: "'c list"

text \<open>The constructor up to the point where it waits for the thread to start.\<close>

definition wt_init :: "'c worker_thread" where
  "wt_init = \<lparr>wt_callable = None, wt_callDone = False, wt_started = False, wt_terminate = False,
     wt_worker = WStarting, wt_client = (\<lambda>_. Ready), wt_failed = False, wt_log = []\<rparr>"

datatype 'c wt_label = Internal | Call nat 'c | Return nat 'c | Destroy

inductive wt_step :: "'c wt_label \<Rightarrow> 'c worker_thread \<Rightarrow> 'c worker_thread \<Rightarrow> bool" where
  worker_start: "wt_worker s = WStarting \<Longrightarrow>
    wt_step Internal s (s\<lparr>wt_started := True, wt_worker := WLoop\<rparr>)"
| call: "wt_started s \<Longrightarrow> \<not> wt_terminate s \<Longrightarrow> wt_client s i = Ready \<Longrightarrow> wt_callable s = None \<Longrightarrow>
    wt_step (Call i c) s
      (s\<lparr>wt_callable := Some c, wt_callDone := False, wt_client := (wt_client s)(i := Blocked c)\<rparr>)"
| call_assert: "wt_started s \<Longrightarrow> \<not> wt_terminate s \<Longrightarrow> wt_client s i = Ready \<Longrightarrow> wt_callable s \<noteq> None \<Longrightarrow>
    wt_step (Call i c) s (s\<lparr>wt_failed := True\<rparr>)"
| call_return: "wt_client s i = Blocked c \<Longrightarrow> wt_callDone s \<Longrightarrow>
    wt_step (Return i c) s (s\<lparr>wt_client := (wt_client s)(i := Ready)\<rparr>)"
| worker_enter: "wt_worker s = WLoop \<Longrightarrow> \<not> wt_terminate s \<Longrightarrow> wt_step Internal s (s\<lparr>wt_worker := WWaiting\<rparr>)"
| worker_leave: "wt_worker s = WLoop \<Longrightarrow> wt_terminate s \<Longrightarrow> wt_step Internal s (s\<lparr>wt_worker := WEnded\<rparr>)"
| worker_execute: "wt_worker s = WWaiting \<Longrightarrow> wt_callable s = Some c \<Longrightarrow> \<not> wt_callDone s \<Longrightarrow>
    wt_step Internal s (s\<lparr>wt_callable := None, wt_callDone := True, wt_worker := WLoop, wt_log := wt_log s @ [c]\<rparr>)"
| worker_assert: "wt_worker s = WWaiting \<Longrightarrow> wt_callable s = Some c \<Longrightarrow> wt_callDone s \<Longrightarrow>
    wt_step Internal s (s\<lparr>wt_failed := True\<rparr>)"
| worker_wake: "wt_worker s = WWaiting \<Longrightarrow> wt_callable s = None \<Longrightarrow> wt_terminate s \<Longrightarrow>
    wt_step Internal s (s\<lparr>wt_worker := WLoop\<rparr>)"
| destroy: "wt_started s \<Longrightarrow> \<forall>i. wt_client s i = Ready \<Longrightarrow>
    wt_step Destroy s (s\<lparr>wt_terminate := True\<rparr>)"

inductive_cases wt_step_callE: "wt_step (Call i c) s s'"
inductive_cases wt_step_returnE: "wt_step (Return i c) s s'"

inductive wt_run :: "'c wt_label list \<Rightarrow> 'c worker_thread \<Rightarrow> bool" where
  run_init: "wt_run [] wt_init"
| run_step: "wt_run ls s \<Longrightarrow> wt_step l s s' \<Longrightarrow> wt_run (ls @ [l]) s'"

fun called :: "'c wt_label \<Rightarrow> 'c list" where
  "called (Call i c) = [c]" | "called l = []"

fun returned :: "'c wt_label \<Rightarrow> 'c list" where
  "returned (Return i c) = [c]" | "returned l = []"

fun caller_ok :: "nat \<Rightarrow> 'c wt_label \<Rightarrow> bool" where
  "caller_ok i (Call j c) = (j = i)" | "caller_ok i l = True"

subsection \<open>One client at a time\<close>

text \<open>
  With a single client: what was called is what was executed plus the call that is waiting for its
  execution; what has returned is what was executed, up to the call whose client has not been woken yet.
\<close>

definition single_inv :: "'c wt_label list \<Rightarrow> nat \<Rightarrow> 'c worker_thread \<Rightarrow> bool" where
  "single_inv ls i s \<longleftrightarrow>
     \<not> wt_failed s \<and> (\<forall>j. j \<noteq> i \<longrightarrow> wt_client s j = Ready) \<and>
     (case wt_client s i of
        Ready \<Rightarrow> wt_callable s = None \<and> concat (map called ls) = wt_log s \<and> concat (map returned ls) = wt_log s
      | Blocked c \<Rightarrow> \<not> wt_terminate s \<and> wt_worker s \<in> {WLoop, WWaiting} \<and> concat (map called ls) = concat (map returned ls) @ [c] \<and>
          (if wt_callDone s then wt_callable s = None \<and> wt_log s = concat (map returned ls) @ [c]
           else wt_callable s = Some c \<and> wt_log s = concat (map returned ls))) \<and>
     (wt_worker s = WEnded \<longrightarrow> wt_terminate s) \<and> (wt_started s \<longleftrightarrow> wt_worker s \<noteq> WStarting)"

lemma single_inv_step:
  assumes "single_inv ls i s" "wt_step l s s'" "caller_ok i l"
  shows "single_inv (ls @ [l]) i s'"
  using assms(2,1,3)
proof (cases rule: wt_step.cases)
  case (call i' c)
  with assms(1,3) show ?thesis by (cases "wt_worker s") (auto simp: single_inv_def)
next
  case (call_return i' c)
  with assms(1) show ?thesis by (cases "i' = i") (auto simp: single_inv_def)
next
  case (worker_execute c)
  with assms(1) show ?thesis by (cases "wt_client s i") (auto simp: single_inv_def)
qed (use assms(1,3) in \<open>auto simp: single_inv_def split: client_pc.splits if_splits\<close>)

lemma single_inv_run:
  "wt_run ls s \<Longrightarrow> \<forall>l \<in> set ls. caller_ok i l \<Longrightarrow> single_inv ls i s"
proof (induction rule: wt_run.induct)
  case run_init
  then show ?case by (simp add: single_inv_def wt_init_def)
next
  case (run_step ls s l s')
  then show ?case by (auto intro: single_inv_step)
qed

text \<open>The path by which a blocked client gets its answer.\<close>

inductive wt_steps :: "'c worker_thread \<Rightarrow> 'c wt_label list \<Rightarrow> 'c worker_thread \<Rightarrow> bool" where
  steps_none: "wt_steps s [] s"
| steps_cons: "wt_step l s s1 \<Longrightarrow> wt_steps s1 ls s2 \<Longrightarrow> wt_steps s (l # ls) s2"

subsection \<open>Properties\<close>


lemma wt_steps_run: "wt_steps s ls s' \<Longrightarrow> wt_run ls0 s \<Longrightarrow> wt_run (ls0 @ ls) s'"
proof (induction arbitrary: ls0 rule: wt_steps.induct)
  case (steps_cons l s s1 ls s2)
  from steps_cons.IH[OF run_step[OF steps_cons.prems steps_cons.hyps(1)]] show ?case by simp
qed simp


text \<open>A call comes back. Whenever a client is blocked in \<open>executeSynchronously\<close>, at most two steps of the
  worker and the return itself lead to its return, with its call executed.\<close>

theorem worker_call_returns:
  assumes "wt_run ls s" "\<forall>l \<in> set ls. caller_ok i l" "wt_client s i = Blocked c"
  shows "\<exists>n s'. n \<le> 2 \<and> wt_steps s (replicate n Internal @ [Return i c]) s' \<and> wt_client s' i = Ready \<and>
    wt_log s' = concat (map called ls)"
proof -
  have inv: "single_inv ls i s" using single_inv_run[OF assms(1,2)] .
  have ret: "wt_steps t [Return i c] (t\<lparr>wt_client := (wt_client t)(i := Ready)\<rparr>)"
    if "wt_client t i = Blocked c" "wt_callDone t" for t
    by (intro steps_cons[OF call_return] steps_none that)
  show ?thesis
  proof (cases "wt_callDone s")
    case True
    with ret[OF assms(3)] inv assms(3) show ?thesis
      by (intro exI[of _ 0] exI[of _ "s\<lparr>wt_client := (wt_client s)(i := Ready)\<rparr>"]) (auto simp: single_inv_def)
  next
    case False
    then have s: "wt_callable s = Some c" "\<not> wt_terminate s" "wt_worker s \<in> {WLoop, WWaiting}"
        "wt_log s @ [c] = concat (map called ls)"
      using inv assms(3) by (auto simp: single_inv_def)
    let ?w = "\<lambda>t. t\<lparr>wt_callable := None, wt_callDone := True, wt_worker := WLoop, wt_log := wt_log t @ [c]\<rparr>"
    let ?r = "\<lambda>t. t\<lparr>wt_client := (wt_client t)(i := Ready)\<rparr>"
    have exec: "wt_steps t [Internal, Return i c] (?r (?w t))"
      if "wt_worker t = WWaiting" "wt_callable t = Some c" "\<not> wt_callDone t" "wt_client t i = Blocked c" for t
      using steps_cons[OF worker_execute[OF that(1-3)] ret[of "?w t"]] that(4) by simp
    show ?thesis
    proof (cases "wt_worker s = WWaiting")
      case True
      with exec[OF True s(1) False assms(3)] s(4) show ?thesis
        by (intro exI[of _ 1] exI[of _ "?r (?w s)"]) simp
    next
      case w: False
      let ?t = "s\<lparr>wt_worker := WWaiting\<rparr>"
      have "wt_steps s [Internal, Internal, Return i c] (?r (?w ?t))"
        using steps_cons[OF worker_enter exec[of ?t]] s w False assms(3) by auto
      with s(4) show ?thesis
        by (intro exI[of _ 2] exI[of _ "?r (?w ?t)"]) (simp add: numeral_2_eq_2)
    qed
  qed
qed

theorem worker_call_returns_witness:
  "\<exists>s n s'. wt_run [Internal, Call 0 ''scan''] s \<and> wt_steps s (replicate n Internal @ [Return 0 ''scan'']) s' \<and>
     wt_log s' = [''scan'']"
proof -
  let ?s1 = "wt_init\<lparr>wt_started := True, wt_worker := WLoop\<rparr> :: string worker_thread"
  let ?s2 = "?s1\<lparr>wt_callable := Some ''scan'', wt_callDone := False, wt_client := (wt_client ?s1)(0 := Blocked ''scan'')\<rparr>"
  have 1: "wt_step Internal wt_init ?s1" by (rule worker_start) (simp add: wt_init_def)
  have 2: "wt_step (Call 0 ''scan'') ?s1 ?s2" by (rule call) (simp_all add: wt_init_def)
  have r: "wt_run [Internal, Call 0 ''scan''] ?s2"
    using run_step[OF run_step[OF run_init 1] 2] by simp
  from worker_call_returns[OF r, of 0 "''scan''"] r show ?thesis by auto
qed

text \<open>Two clients at once break the object: when a second thread calls \<open>executeSynchronously\<close> while a
  call is waiting for its execution, the assertion fails.\<close>

theorem worker_second_client_asserts:
  assumes "wt_run ls s" "wt_client s i = Blocked c" "\<not> wt_callDone s" "wt_callable s = Some c"
    "wt_started s" "\<not> wt_terminate s" "wt_client s j = Ready"
  shows "\<exists>s'. wt_run (ls @ [Call j d]) s' \<and> wt_failed s'"
  using run_step[OF assms(1) call_assert[of s j d]] assms by (intro exI[of _ "s\<lparr>wt_failed := True\<rparr>"]) simp

theorem worker_second_client_asserts_witness:
  "\<exists>s. wt_run [Internal, Call 0 ''a'', Call 1 ''b''] s \<and> wt_failed s"
proof -
  let ?s1 = "wt_init\<lparr>wt_started := True, wt_worker := WLoop\<rparr> :: string worker_thread"
  let ?s2 = "?s1\<lparr>wt_callable := Some ''a'', wt_callDone := False, wt_client := (wt_client ?s1)(0 := Blocked ''a'')\<rparr>"
  have 1: "wt_step Internal wt_init ?s1" by (rule worker_start) (simp add: wt_init_def)
  have 2: "wt_step (Call 0 ''a'') ?s1 ?s2" by (rule call) (simp_all add: wt_init_def)
  have r: "wt_run [Internal, Call 0 ''a''] ?s2"
    using run_step[OF run_step[OF run_init 1] 2] by simp
  from worker_second_client_asserts[OF r, of 0 "''a''" 1 "''b''"] show ?thesis by (simp add: wt_init_def)
qed

end
