(* ===== verification/Spec2Isabelle.thy ===== *)
theory Spec2Isabelle
  imports ServerLoop ServerStart NetworkHotplug MdnsPublisher JobSharing CancelRace FormTicket ScanTransfer ScannerProperties AccessFile AccessLog DeviceSession
    JpegDest DeviceConfig WebPage Fdbuf WorkerThread Url HttpProtocol
begin

text \<open>
  \<^bold>\<open>AirSane: a verification of the scan server\<close>

  AirSane (\<open>src/\<close>) publishes scanners that the SANE library knows to clients of the eSCL protocol. A server
  (\<open>src/server/server.cpp\<close>) enumerates the SANE devices, wraps each into a \<open>Scanner\<close>, announces it by mDNS and answers
  HTTP requests. A client asks for the capabilities of a scanner, posts a scan ticket, which creates a
  \<open>ScanJob\<close>, and fetches the pages of the job, which are encoded as JPEG, PNG or PDF while they are read from the
  device. A purge thread removes jobs that nobody asks for any more.

  \<^bold>\<open>Conventions.\<close> A C++ function is a HOL function over explicit state. A thrown exception, a failed assertion and
  undefined behaviour are values of the type \<open>cpp_error\<close> of \<open>AirSane_Prelude\<close>, and a function that may fail returns a \<open>result\<close>,
  the sum of \<open>cpp_error\<close> and its value. A loop that need not end is a \<open>partial_function (option)\<close>, whose value \<open>None\<close> means that
  it does not return; all other loops are structurally recursive or have a termination proof. There is no
  fuel anywhere. \<open>double\<close> and \<open>float\<close> are the type \<open>dbl\<close> of \<open>Floating\<close>: rational numbers with rounding to nearest even
  after each operation, infinities and NaN; the sign of zero is not represented. A \<open>char\<close> string is a list of bytes. Code
  outside \<open>src/\<close> is an argument of the definitions: the SANE library (record \<open>sane_lib\<close>), libjpeg and libpng
  (record \<open>raster_lib\<close>), \<open>std::regex\<close>, \<open>std::hash\<close>, \<open>std::pow\<close>, the network functions of the system, the kernel's
  outcomes of \<open>read\<close> and \<open>write\<close>, the system calls on sockets, Avahi (record \<open>avahi_lib\<close>), the clock and random numbers.
  Output to logs is not modelled, but for the access log.

  \<^bold>\<open>Theories and the parts they model\<close>

  \<^item> \<open>AirSane_Prelude\<close>: results, streams, lists and strings; the locale \<open>kv_store\<close> for ordered key/value stores.
    \<open>Floating\<close>: floating point numbers, reading and printing them.
  \<^item> \<open>Dictionary\<close> (\<open>basic/dictionary.cpp\<close>): the store of header fields and form data.
    \<open>Url\<close> (\<open>basic/url.cpp\<close>): parsing and printing URLs, with the round trip. \<open>Uuid\<close> (\<open>basic/uuid.cpp\<close>): UUIDs of version 4
    form from names and random bytes. \<open>Fdbuf\<close> (\<open>basic/fdbuf.cpp\<close>): the stream buffer on a file descriptor, which refines a
    plain stream of bytes however the kernel cuts reads and writes. \<open>WorkerThread\<close> (\<open>basic/workerthread.cpp\<close>): a
    step relation over the critical sections of client and worker, with an invariant and progress.
  \<^item> \<open>HttpText\<close>, \<open>HttpMessage\<close>, \<open>HttpRequest\<close>, \<open>HttpResponse\<close>, \<open>DocumentStream\<close> (\<open>web/httpserver.cpp\<close>): text helpers, parsing
    of requests, headers, form data, plain and chunked responses and the stream behind them. \<open>HttpProtocol\<close> states their
    meaning with a reference client: what was sent is what is read back. \<open>HttpServer\<close> (same file): the settings, the addresses to
    listen on, the sockets, the loop of \<open>run\<close>, and \<open>handleRequest\<close> for one connection; \<open>AccessLog\<close> its line in the access log. What the classes derived
    from \<open>HttpServer\<close> have to promise about \<open>onRequest\<close> is the locale \<open>request_handler\<close>, inside of which the answers are shown to
    be well formed. \<open>AccessFile\<close> (\<open>web/accessfile.cpp\<close>): the rules of the access file and
    the networks they match. \<open>WebPage\<close> (\<open>web/webpage.cpp\<close>, \<open>web/errorpage.cpp\<close>): HTML elements, escaping and pages.
  \<^item> \<open>ImageEncoder\<close>, \<open>PdfEncoder\<close>, \<open>RasterEncoder\<close> (\<open>imageformats/\<close>): the base class with its counters, the PDF
    writer, of which the produced document is shown to be well formed (every offset of the cross reference
    table points to its object), and the PNG and JPEG encoders over their libraries. \<open>JpegDest\<close>: the buffer through which libjpeg
    writes, which refines writing to the stream directly.
  \<^item> \<open>SaneCpp\<close>, \<open>DeviceSession\<close> (\<open>sanecpp/sanecpp.cpp\<close>): the reference count of the library, devices, sessions and the
    option table, over an arbitrary backend.
  \<^item> \<open>OptionsFile\<close>, \<open>DeviceConfig\<close> (\<open>server/optionsfile.cpp\<close>): the device options file and its precedence rules.
  \<^item> \<open>ScanSettings\<close>, \<open>ScanTicket\<close>, \<open>ScanJob\<close>, \<open>ScanTransfer\<close> (\<open>server/scanjob.cpp\<close>): the scan ticket, the state machine of a
    job, the session it holds, and the transfer of pages. The theorems show the state a ticket leads to, that a
    transfer leaves the job in a final state with its device handle given back, that it delivers the
    lines the device delivers, converted and in order, and that it returns for every device that delivers finitely
    many bytes.
  \<^item> \<open>ScannerCaps\<close>, \<open>Scanner\<close>, \<open>ScannerProperties\<close>, \<open>Resolutions\<close> (\<open>server/scanner.cpp\<close>): initialisation of a scanner from the
    options of its device, capabilities and status documents, resolutions and the job list.

  \<^item> \<open>ScannerPage\<close> (\<open>server/mainpage.cpp\<close>, \<open>server/scannerpage.cpp\<close>): the main page, the page of a scanner, and the ticket and
    the scan that its form leads to.
  \<^item> \<open>Server\<close> (\<open>server/server.cpp\<close>): \<open>onRequest\<close> with all its handlers, over the state (scanners, world, startup time).
    \<open>ServerSetup\<close>: the command line, the enumeration of the scanners with their names, addresses and service
    records, and \<open>run\<close> with its reload loop. \<open>ServerContract\<close> shows that \<open>onRequest\<close> keeps the contract
    of \<open>request_handler\<close> (interpretation \<open>server_handler\<close>). The properties are in \<open>ServerProperties\<close> (jobs and documents),
    \<open>ServerList\<close> (the list of scanners and the dispatch to them), \<open>ServerStart\<close> (command line and names) and
    \<open>ServerLoop\<close>, which also models \<open>server/purgethread.cpp\<close> and the exit status of \<open>server/main.cpp\<close>.
  \<^item> \<open>MdnsPublisher\<close> (\<open>zeroconf/mdnspublisher-avahi.cpp\<close>): the publisher with its client and its service entries, as a step
    relation over the calls and callbacks, with the laws of the Avahi library that the theorems use as a predicate.
    \<open>NetworkHotplug\<close> (\<open>zeroconf/networkhotplugnotifier.cpp\<close>, \<open>zeroconf/hotplugnotifier.cpp\<close>): the netlink parser on the bytes
    of a message, the set of addresses, the USB notifier.

  \<^item> \<open>FormTicket\<close> joins \<open>ScannerPage\<close> and \<open>ScanTicket\<close>: the ticket that the form of a scanner leads to says what the form
    says, and the job that reads it has the settings that the user chose.
  \<^item> \<open>JobSharing\<close>: the jobs of a scanner under concurrent requests, as a step relation over the critical sections of the handlers and
    of the purge thread, with the shared ownership of the jobs, the device handles they hold, and the exclusive
    use of a job by one transfer.
  \<^item> \<open>CancelRace\<close>: a job that is cancelled while the worker reads a page, as a step relation over condition and body of the
    loop. Without cancellations it follows \<open>read_page\<close>; a cancellation in between takes the session from under the worker.

  \<^bold>\<open>How the parts meet.\<close> \<open>HttpServer::run\<close> gives every connection a detached thread. The definitions of \<open>HttpServer\<close> and
  \<open>Server\<close> are what one such thread does when no other one interferes; which threads work on the same job at the same
  time, and what that does to it, is the subject of \<open>JobSharing\<close> (critical sections) and \<open>WorkerThread\<close> (the calls that
  the thread of a job executes). What handlers and purge thread do to the world of the device library while the server runs is the
  field \<open>ro_world\<close> of a round of \<open>Server::run\<close>; the theorem about the end of the program assumes that they give back what they
  take, and \<open>JobSharing\<close> shows that they do. The outcome of publishing a service, which may rename it, is the
  argument \<open>se_publish\<close> of \<open>ServerSetup\<close>; \<open>MdnsPublisher\<close> models how it comes about.

  \<^bold>\<open>Not modelled.\<close> The sources for macOS (\<open>mdnspublisher-dnssd.mm\<close>, \<open>networkhotplugnotifier-macos.mm\<close>) are
  another language and call frameworks only. Log output other than the access log, the print functions of the SANE wrapper, and the creation of
  threads and pipes are input and output without decisions of the program. In \<open>JobSharing\<close> a transfer is one step; a
  cancellation in the middle of it is modelled for the loop over the lines of a page (\<open>CancelRace\<close>), not for
  the calls between pages.
\<close>

end
